(* ===== verification/Js_Prelude.thy ===== *)
theory Js_Prelude
  imports Complex_Main "HOL-Library.Sublist" "HOL-Library.AList" "HOL-Library.Multiset"
begin

section \<open>The JavaScript fragment the front end uses\<close>

text \<open>
  The values and standard-library operations of JavaScript that the code under
  internal/site/src uses, with the lemmas the component theories share.

  \<^item> A string is \<^typ>\<open>string\<close>: one character per UTF-16 code unit. Code units above 255
    have no \<^typ>\<open>char\<close>, so the model covers the Latin-1 strings; case folding is exact there.
  \<^item> A finite number is a \<^typ>\<open>rat\<close>; arithmetic is exact, the rounding of binary64 is not
    modelled. Where a number can be NaN it is a \<^typ>\<open>rat option\<close> with \<^term>\<open>None\<close> for NaN.
    Times in milliseconds are \<^typ>\<open>int\<close>.
  \<^item> undefined and null are \<^term>\<open>None\<close> of an option type.
  \<^item> Nothing here models code of the repository: the mapped definitions are in the
    component theories.
\<close>

named_theorems js_defs "standard-library operations, to unfold on concrete values"
named_theorems keeps "preservation of component invariants"

subsection \<open>Nullish values\<close>

definition orelse :: "'a option \<Rightarrow> 'a \<Rightarrow> 'a" where
  \<comment> \<open>the operator ??\<close>
  "orelse x d = (case x of Some v \<Rightarrow> v | None \<Rightarrow> d)"

lemma orelse_simps [simp]: "orelse None d = d" "orelse (Some v) d = v"
  by (simp_all add: orelse_def)

definition or_num :: "rat option \<Rightarrow> rat \<Rightarrow> rat" where
  \<comment> \<open>the operator || on a number that may be absent: 0 is falsy too\<close>
  "or_num x d = (case x of Some v \<Rightarrow> if v = 0 then d else v | None \<Rightarrow> d)"

lemma or_num_simps [simp]:
  "or_num None d = d" "v \<noteq> 0 \<Longrightarrow> or_num (Some v) d = v" "or_num (Some 0) d = d"
  by (simp_all add: or_num_def)

definition or_str :: "string option \<Rightarrow> string \<Rightarrow> string" where
  \<comment> \<open>the operator || on a string that may be absent: the empty string is falsy too\<close>
  "or_str x d = (case x of Some v \<Rightarrow> if v = [] then d else v | None \<Rightarrow> d)"

definition num_truthy :: "rat option \<Rightarrow> bool" where
  "num_truthy x = (case x of Some v \<Rightarrow> v \<noteq> 0 | None \<Rightarrow> False)"

lemma num_truthy_simps [simp]: "num_truthy None = False" "num_truthy (Some v) = (v \<noteq> 0)"
  by (simp_all add: num_truthy_def)

definition str_truthy :: "string option \<Rightarrow> bool" where
  "str_truthy x = (case x of Some v \<Rightarrow> v \<noteq> [] | None \<Rightarrow> False)"

lemma str_truthy_simps [simp]: "str_truthy None = False" "str_truthy (Some v) = (v \<noteq> [])"
  by (simp_all add: str_truthy_def)

lemma str_truthy_iff: "str_truthy x \<longleftrightarrow> (\<exists>v. x = Some v \<and> v \<noteq> [])"
  by (cases x) auto

subsection \<open>Arrays\<close>

definition at_last :: "'a list \<Rightarrow> 'a option" where
  \<comment> \<open>xs.at(-1)\<close>
  "at_last xs = (if xs = [] then None else Some (last xs))"

lemma at_last_simps [simp]:
  "at_last [] = None" "at_last (xs @ [x]) = Some x" "at_last [x] = Some x"
  by (simp_all add: at_last_def)

lemma at_last_Cons [simp]: "xs \<noteq> [] \<Longrightarrow> at_last (x # xs) = at_last xs"
  by (simp add: at_last_def)

definition at_idx :: "'a list \<Rightarrow> nat \<Rightarrow> 'a option" where
  \<comment> \<open>xs[i], undefined out of range\<close>
  "at_idx xs i = (if i < length xs then Some (xs ! i) else None)"

lemma at_idx_simps [simp]: "at_idx [] i = None" "at_idx (x # xs) 0 = Some x"
  "at_idx (x # xs) (Suc i) = at_idx xs i"
  by (simp_all add: at_idx_def)

lemma at_idx_eq_Some: "at_idx xs i = Some x \<longleftrightarrow> i < length xs \<and> xs ! i = x"
  by (auto simp: at_idx_def)

definition slice_from :: "int \<Rightarrow> 'a list \<Rightarrow> 'a list" where
  \<comment> \<open>xs.slice(s): a negative start counts from the end\<close>
  "slice_from s xs =
     drop (if s < 0 then nat (max 0 (int (length xs) + s)) else nat s) xs"

lemma length_slice_from:
  "length (slice_from s xs) =
     (if s < 0 then min (length xs) (nat (- s)) else length xs - nat s)"
  by (auto simp: slice_from_def)

lemma slice_from_0 [simp]: "slice_from 0 xs = xs"
  by (simp add: slice_from_def)

lemma suffix_slice_from: "suffix (slice_from s xs) xs"
  by (simp add: slice_from_def suffix_drop)

lemma slice_from_neg_not_Nil: "s < 0 \<Longrightarrow> xs \<noteq> [] \<Longrightarrow> slice_from s xs \<noteq> []"
  by (cases xs) (auto simp: slice_from_def)

lemma at_last_suffix: "suffix ys xs \<Longrightarrow> ys \<noteq> [] \<Longrightarrow> at_last ys = at_last xs"
  by (auto simp: suffix_def at_last_def)

definition unique :: "'a list \<Rightarrow> 'a list" where
  \<comment> \<open>Array.from(new Set(xs)): first occurrences, in order\<close>
  "unique xs = rev (remdups (rev xs))"

lemma set_unique [simp]: "set (unique xs) = set xs"
  by (simp add: unique_def)

lemma distinct_unique [simp]: "distinct (unique xs)"
  by (simp add: unique_def)

lemma unique_distinct [simp]: "distinct xs \<Longrightarrow> unique xs = xs"
  by (simp add: unique_def distinct_remdups_id)

lemma length_unique_le: "length (unique xs) \<le> length xs"
  using length_remdups_leq [of "rev xs"] by (simp add: unique_def)

lemma length_unique: "length (unique xs) = card (set xs)"
  using distinct_card [OF distinct_unique, of xs] by simp

lemma remdups_append_notin:
  "remdups (xs @ ys) = remdups (filter (\<lambda>x. x \<notin> set ys) xs) @ remdups ys"
  by (induction xs) auto

lemma unique_append: "unique (xs @ ys) = unique xs @ unique (filter (\<lambda>y. y \<notin> set xs) ys)"
  by (simp add: unique_def remdups_append_notin rev_filter)

definition sort_desc :: "('a \<Rightarrow> rat) \<Rightarrow> 'a list \<Rightarrow> 'a list" where
  \<comment> \<open>xs.sort((a, b) => f(b) - f(a)), a stable sort\<close>
  "sort_desc f xs = sort_key (\<lambda>x. - f x) xs"

lemma set_sort_desc [simp]: "set (sort_desc f xs) = set xs"
  by (simp add: sort_desc_def)

lemma mset_sort_desc [simp]: "mset (sort_desc f xs) = mset xs"
  by (simp add: sort_desc_def)

lemma length_sort_desc [simp]: "length (sort_desc f xs) = length xs"
  by (simp add: sort_desc_def)

lemma distinct_sort_desc [simp]: "distinct (sort_desc f xs) = distinct xs"
  by (simp add: sort_desc_def)

lemma sorted_sort_desc: "sorted_wrt (\<lambda>x y. f y \<le> f x) (sort_desc f xs)"
proof -
  have "sorted (map (\<lambda>x. - f x) (sort_desc f xs))"
    by (simp add: sort_desc_def)
  then show ?thesis by (simp add: sorted_map)
qed

subsection \<open>Strings\<close>

fun index_of :: "char \<Rightarrow> string \<Rightarrow> nat option" where
  "index_of c [] = None"
| "index_of c (x # xs) = (if x = c then Some 0 else map_option Suc (index_of c xs))"

definition last_index_of :: "char \<Rightarrow> string \<Rightarrow> nat option" where
  "last_index_of c s = map_option (\<lambda>i. length s - 1 - i) (index_of c (rev s))"

lemma index_of_None: "index_of c s = None \<longleftrightarrow> c \<notin> set s"
  by (induction s) auto

lemma index_of_Some: "index_of c s = Some i \<Longrightarrow> i < length s \<and> s ! i = c \<and> c \<notin> set (take i s)"
  by (induction s arbitrary: i) (auto split: if_splits)

lemma index_of_append:
  "index_of c (xs @ ys) =
     (case index_of c xs of Some i \<Rightarrow> Some i | None \<Rightarrow> map_option ((+) (length xs)) (index_of c ys))"
  by (induction xs) (cases "index_of c ys"; auto split: option.splits)+

lemma last_index_of_None: "last_index_of c s = None \<longleftrightarrow> c \<notin> set s"
  by (simp add: last_index_of_def index_of_None)

lemma last_index_of_split: "c \<notin> set t \<Longrightarrow> last_index_of c (s @ c # t) = Some (length s)"
  by (simp add: last_index_of_def index_of_append index_of_None [THEN iffD2])

fun split_on :: "char \<Rightarrow> string \<Rightarrow> string list" where
  "split_on c [] = [[]]"
| "split_on c (x # xs) =
     (if x = c then [] # split_on c xs
      else (case split_on c xs of [] \<Rightarrow> [[x]] | p # ps \<Rightarrow> (x # p) # ps))"

fun join :: "string \<Rightarrow> string list \<Rightarrow> string" where
  "join sep [] = []"
| "join sep [x] = x"
| "join sep (x # y # ys) = x @ sep @ join sep (y # ys)"

lemma split_on_not_Nil [simp]: "split_on c s \<noteq> []"
  by (induction s) (auto split: list.splits)

lemma split_on_no_sep: "c \<notin> set s \<Longrightarrow> split_on c s = [s]"
  by (induction s) auto

lemma split_on_append_sep: "c \<notin> set s \<Longrightarrow> split_on c (s @ c # t) = s # split_on c t"
  by (induction s) auto

lemma length_split_on: "length (split_on c s) = Suc (count_list s c)"
  by (induction s) (auto split: list.splits)

lemma split_on_pieces: "p \<in> set (split_on c s) \<Longrightarrow> c \<notin> set p"
proof (induction s arbitrary: p)
  case Nil
  then show ?case by simp
next
  case (Cons x s)
  then show ?case
    by (cases "split_on c s") (auto split: if_splits)
qed

lemma join_Cons: "ys \<noteq> [] \<Longrightarrow> join sep (x # ys) = x @ sep @ join sep ys"
  by (cases ys) auto

lemma join_split_on: "join [c] (split_on c s) = s"
proof (induction s)
  case Nil
  then show ?case by simp
next
  case (Cons x s)
  show ?case
  proof (cases "x = c")
    case True
    then show ?thesis using Cons by (simp add: join_Cons)
  next
    case False
    obtain p ps where sp: "split_on c s = p # ps" by (cases "split_on c s") auto
    with Cons False show ?thesis by (cases ps) auto
  qed
qed

lemma split_on_join:
  assumes "xs \<noteq> []" and "\<And>x. x \<in> set xs \<Longrightarrow> c \<notin> set x"
  shows "split_on c (join [c] xs) = xs"
  using assms
proof (induction xs)
  case Nil
  then show ?case by simp
next
  case (Cons x xs)
  show ?case
  proof (cases "xs = []")
    case True
    then show ?thesis using Cons.prems by (simp add: split_on_no_sep)
  next
    case False
    with Cons show ?thesis by (simp add: join_Cons split_on_append_sep)
  qed
qed

lemma count_list_join:
  "xs \<noteq> [] \<Longrightarrow>
     count_list (join [c] xs) c = (length xs - 1) + sum_list (map (\<lambda>x. count_list x c) xs)"
proof (induction xs)
  case Nil
  then show ?case by simp
next
  case (Cons x xs)
  then show ?case by (cases "xs = []") (auto simp: join_Cons Suc_le_eq)
qed

definition str_includes :: "string \<Rightarrow> string \<Rightarrow> bool" where
  \<comment> \<open>s.includes(p)\<close>
  "str_includes s p = sublist p s"

lemma str_includes_Nil [simp]: "str_includes s []"
  by (simp add: str_includes_def)

lemma str_includes_char [simp]: "str_includes s [c] \<longleftrightarrow> c \<in> set s"
  by (auto simp: str_includes_def sublist_def in_set_conv_decomp)

definition is_space :: "char \<Rightarrow> bool" where
  "is_space c = (of_char c \<in> {9, 10, 11, 12, 13, 32, 160 :: nat})"

definition trim :: "string \<Rightarrow> string" where
  "trim s = rev (dropWhile is_space (rev (dropWhile is_space s)))"

definition lower_char :: "char \<Rightarrow> char" where
  "lower_char c = (let n = (of_char c :: nat) in
     if (65 \<le> n \<and> n \<le> 90) \<or> (192 \<le> n \<and> n \<le> 222 \<and> n \<noteq> 215) then char_of (n + 32) else c)"

definition to_lower :: "string \<Rightarrow> string" where
  "to_lower s = map lower_char s"

lemma to_lower_append: "to_lower (s @ t) = to_lower s @ to_lower t"
  by (simp add: to_lower_def)

lemma to_lower_Nil [simp]: "to_lower [] = []"
  by (simp add: to_lower_def)

fun replace_first :: "string \<Rightarrow> string \<Rightarrow> string \<Rightarrow> string" where
  "replace_first p r [] = (if p = [] then r else [])"
| "replace_first p r (x # xs) =
     (if prefix p (x # xs) then r @ drop (length p) (x # xs) else x # replace_first p r xs)"

fun collapse :: "char \<Rightarrow> string \<Rightarrow> string" where
  \<comment> \<open>s.replaceAll(cc, c): each pair of adjacent c, from the left, becomes one\<close>
  "collapse c (x # y # xs) =
     (if x = c \<and> y = c then c # collapse c xs else x # collapse c (y # xs))"
| "collapse c xs = xs"

subsection \<open>Numbers and their decimal strings\<close>

fun nat_str :: "nat \<Rightarrow> string" where
  "nat_str n =
     (if n < 10 then [char_of (48 + n)] else nat_str (n div 10) @ [char_of (48 + n mod 10)])"

declare nat_str.simps [simp del]

definition int_str :: "int \<Rightarrow> string" where
  "int_str i = (if i < 0 then CHR ''-'' # nat_str (nat (- i)) else nat_str (nat i))"

definition is_digit :: "char \<Rightarrow> bool" where
  "is_digit c = (48 \<le> (of_char c :: nat) \<and> (of_char c :: nat) \<le> 57)"

definition digits_val :: "string \<Rightarrow> nat" where
  "digits_val s = foldl (\<lambda>a c. 10 * a + (of_char c - 48)) 0 s"

definition parse_mantissa :: "string \<Rightarrow> rat option" where
  \<comment> \<open>digits, or digits with one point and at least one digit around it\<close>
  "parse_mantissa s = (case split_on (CHR ''.'') s of
       [a] \<Rightarrow> (if a \<noteq> [] \<and> list_all is_digit a then Some (of_nat (digits_val a)) else None)
     | [a, b] \<Rightarrow> (if (a \<noteq> [] \<or> b \<noteq> []) \<and> list_all is_digit a \<and> list_all is_digit b
                  then Some (of_nat (digits_val (a @ b)) / 10 ^ length b) else None)
     | _ \<Rightarrow> None)"

definition js_number :: "string \<Rightarrow> rat option" where
  \<comment> \<open>Number(s) on decimal literals without exponent; None is NaN. The empty string is 0.\<close>
  "js_number s = (case trim s of
       [] \<Rightarrow> Some 0
     | c # cs \<Rightarrow> if c = CHR ''-'' then map_option uminus (parse_mantissa cs)
                 else if c = CHR ''+'' then parse_mantissa cs
                 else parse_mantissa (c # cs))"

lemma of_char_digit [simp]: "(d :: nat) < 10 \<Longrightarrow> (of_char (char_of (48 + d) :: char) :: nat) = 48 + d"
  by simp

lemma is_digit_char_of [simp]: "(d :: nat) < 10 \<Longrightarrow> is_digit (char_of (48 + d))"
  by (simp add: is_digit_def)

lemma digits_val_snoc [simp]: "digits_val (s @ [c]) = 10 * digits_val s + (of_char c - 48)"
  by (simp add: digits_val_def)

lemma nat_str_digits: "list_all is_digit (nat_str n)"
proof (induction n rule: nat_str.induct)
  case (1 n)
  then show ?case by (subst nat_str.simps) auto
qed

lemma nat_str_not_Nil [simp]: "nat_str n \<noteq> []"
  by (subst nat_str.simps) simp

lemma digits_val_nat_str: "digits_val (nat_str n) = n"
proof (induction n rule: nat_str.induct)
  case (1 n)
  show ?case
  proof (cases "n < 10")
    case True
    then show ?thesis by (subst nat_str.simps) (simp add: digits_val_def)
  next
    case False
    with 1 have "digits_val (nat_str (n div 10)) = n div 10" by simp
    with False show ?thesis by (subst nat_str.simps) simp
  qed
qed

lemma nat_str_inj: "nat_str m = nat_str n \<Longrightarrow> m = n"
  using digits_val_nat_str by metis

lemma digit_not_space: "is_digit c \<Longrightarrow> \<not> is_space c"
  by (auto simp: is_digit_def is_space_def)

lemma dropWhile_space_digits: "list_all is_digit s \<Longrightarrow> dropWhile is_space s = s"
  by (cases s) (auto dest: digit_not_space)

lemma trim_digits: "list_all is_digit s \<Longrightarrow> trim s = s"
  by (simp add: trim_def dropWhile_space_digits list_all_rev)

lemma digit_not_special:
  "is_digit c \<Longrightarrow> c \<noteq> CHR ''.'' \<and> c \<noteq> CHR ''-'' \<and> c \<noteq> CHR ''+'' \<and> c \<noteq> CHR '','' \<and> c \<noteq> CHR '' '' \<and> c \<noteq> CHR '':''"
  by (auto simp: is_digit_def)

lemma digits_no_special:
  assumes "list_all is_digit s" and "\<not> is_digit c"
  shows "c \<notin> set s"
  using assms by (auto simp: list_all_iff)

lemma js_number_digits:
  assumes "list_all is_digit s" and "s \<noteq> []"
  shows "js_number s = Some (of_nat (digits_val s))"
proof -
  obtain c cs where s: "s = c # cs" using assms(2) by (cases s) auto
  have "CHR ''.'' \<notin> set s"
    using assms(1) by (auto simp: list_all_iff dest: digit_not_special)
  then have "parse_mantissa s = Some (of_nat (digits_val s))"
    using assms by (simp add: parse_mantissa_def split_on_no_sep)
  moreover have "c \<noteq> CHR ''-''" "c \<noteq> CHR ''+''"
    using assms(1) s digit_not_special by auto
  ultimately show ?thesis
    using assms(1) s by (simp add: js_number_def trim_digits)
qed

lemma js_number_nat_str: "js_number (nat_str n) = Some (of_nat n)"
  by (simp add: js_number_digits nat_str_digits digits_val_nat_str)

lemma js_number_Nil [simp]: "js_number [] = Some 0"
  by (simp add: js_number_def trim_def)

subsection \<open>Rounding\<close>

definition js_round :: "rat \<Rightarrow> int" where
  \<comment> \<open>Math.round: half up\<close>
  "js_round x = \<lfloor>x + 1 / 2\<rfloor>"

lemma js_round_of_int [simp]: "js_round (of_int n) = n"
  by (simp add: js_round_def floor_eq_iff)

lemma js_round_bounds: "x - 1/2 < of_int (js_round x) \<and> of_int (js_round x) \<le> x + 1/2"
  by (simp add: js_round_def) linarith

lemma floor_rat_numeral [simp]:
  "\<lfloor>numeral a / (numeral b :: rat)\<rfloor> = numeral a div numeral b"
  using floor_divide_of_int_eq [of "numeral a" "numeral b", where 'a = rat] by simp

lemma floor_rat_one_numeral [simp]: "\<lfloor>1 / (numeral b :: rat)\<rfloor> = 1 div numeral b"
  using floor_divide_of_int_eq [of 1 "numeral b", where 'a = rat] by simp

subsection \<open>Ordered maps\<close>

text \<open>
  A JavaScript Map, and an object used as a dictionary, is an association list in insertion
  order: \<^const>\<open>AList.update\<close> overwrites in place or appends, \<^const>\<open>AList.delete\<close>
  removes. Own keys of an object come out with the array indices first, ascending.
\<close>

definition is_array_index :: "string \<Rightarrow> bool" where
  "is_array_index k \<longleftrightarrow> k \<noteq> [] \<and> list_all is_digit k \<and> (hd k \<noteq> CHR ''0'' \<or> k = ''0'') \<and> digits_val k < 2 ^ 32 - 1"

definition obj_entries :: "(string \<times> 'v) list \<Rightarrow> (string \<times> 'v) list" where
  \<comment> \<open>Object.entries: integer keys ascending, then the others in insertion order\<close>
  "obj_entries m =
     sort_key (\<lambda>(k, _). digits_val k) (filter (\<lambda>(k, _). is_array_index k) m)
       @ filter (\<lambda>(k, _). \<not> is_array_index k) m"

definition obj_keys :: "(string \<times> 'v) list \<Rightarrow> string list" where
  "obj_keys m = map fst (obj_entries m)"

definition obj_values :: "(string \<times> 'v) list \<Rightarrow> 'v list" where
  "obj_values m = map snd (obj_entries m)"

lemma mset_obj_entries: "mset (obj_entries m) = mset m"
  by (simp add: obj_entries_def case_prod_unfold)

lemma set_obj_entries [simp]: "set (obj_entries m) = set m"
  using mset_obj_entries [of m] by (metis set_mset_mset)

lemma set_obj_keys [simp]: "set (obj_keys m) = fst ` set m"
  by (simp add: obj_keys_def)

lemma distinct_obj_keys [simp]: "distinct (obj_keys m) = distinct (map fst m)"
proof -
  have "mset (obj_keys m) = mset (map fst m)"
    by (simp add: obj_keys_def mset_obj_entries)
  then show ?thesis by (metis mset_eq_imp_distinct_iff)
qed

lemma length_obj_keys [simp]: "length (obj_keys m) = length m"
  using mset_obj_entries [of m] by (simp add: obj_keys_def flip: size_mset)

lemma length_obj_values [simp]: "length (obj_values m) = length m"
  using mset_obj_entries [of m] by (simp add: obj_values_def flip: size_mset)

lemma obj_keys_Nil [simp]: "obj_keys [] = []"
  by (simp add: obj_keys_def obj_entries_def)

lemma map_of_update [simp]: "map_of (AList.update k v m) = (map_of m)(k \<mapsto> v)"
  by (rule update_conv')

lemma map_of_delete [simp]: "map_of (AList.delete k m) = (map_of m)(k := None)"
  by (rule delete_conv')

lemma distinct_keys_update [keeps]:
  "distinct (map fst m) \<Longrightarrow> distinct (map fst (AList.update k v m))"
  by (rule distinct_update)

lemma distinct_keys_delete [keeps]:
  "distinct (map fst m) \<Longrightarrow> distinct (map fst (AList.delete k m))"
  by (rule distinct_delete)

text \<open>
  The interface the components rely on: a keyed store with its lookup. The lemmas that
  several components need are proved once from its laws.
\<close>

locale keyed_map =
  fixes look :: "'m \<Rightarrow> 'k \<Rightarrow> 'v option"
    and put :: "'k \<Rightarrow> 'v \<Rightarrow> 'm \<Rightarrow> 'm"
    and cut :: "'k \<Rightarrow> 'm \<Rightarrow> 'm"
  assumes look_put: "look (put k v m) = (look m)(k \<mapsto> v)"
    and look_cut: "look (cut k m) = (look m)(k := None)"
begin

lemma look_put_all:
  "look (fold (\<lambda>x. put (f x) (g x)) xs m) k =
     (case find (\<lambda>x. f x = k) (rev xs) of Some x \<Rightarrow> Some (g x) | None \<Rightarrow> look m k)"
  by (induction xs rule: rev_induct) (auto simp: look_put)

lemma look_put_all_notin:
  "k \<notin> f ` set xs \<Longrightarrow> look (fold (\<lambda>x. put (f x) (g x)) xs m) k = look m k"
  by (induction xs arbitrary: m) (auto simp: look_put)

lemma look_cut_all:
  "look (fold (\<lambda>x. cut (f x)) xs m) k = (if k \<in> f ` set xs then None else look m k)"
  by (induction xs arbitrary: m) (auto simp: look_cut)

lemma put_cut: "look (put k v (cut k m)) = look (put k v m)"
  by (simp add: look_put look_cut)

lemma put_put: "look (put k v (put k w m)) = look (put k v m)"
  by (simp add: look_put)

end

interpretation jsmap: keyed_map map_of AList.update AList.delete
  by unfold_locales simp_all

end
