(* ===== verification/Types.thy ===== *)
theory Types
  imports Js_Prelude
begin

section \<open>The records and enumerations of the front end\<close>

text \<open>
  The interfaces of internal/site/src/types.d.ts and the enums of lib/enums.ts. A field keeps
  its name behind a prefix for its interface: si_ SystemInfo, st_ SystemStats, gpu_ GPUData,
  fs_ ExtraFsStats, cs_ ContainerStats, sys_ SystemRecord, al_ AlertRecord, ah_
  AlertsHistoryRecord, ct_ ContainerRecord, det_ SystemDetailsRecord. An optional field is an
  option; a dictionary is an association list in insertion order.
\<close>

subsection \<open>Enumerations\<close>

datatype os_kind = Linux | Darwin | Windows | FreeBSD

datatype unit_choice = Bytes | Bits | Celsius | Fahrenheit

datatype meter_state = Good | Warn | Crit

datatype system_status = Up | Down | Pending | Paused

datatype hour_format = H12 | H24

datatype container_health = Health_None | Starting | Healthy | Unhealthy

datatype connection_type = SSH | WebSocket

definition container_health_labels :: "string list" where
  "container_health_labels = [''None'', ''Starting'', ''Healthy'', ''Unhealthy'']"

definition connection_type_labels :: "string list" where
  "connection_type_labels = ['''', ''SSH'', ''WebSocket'']"

fun status_str :: "system_status \<Rightarrow> string" where
  "status_str Up = ''up''"
| "status_str Down = ''down''"
| "status_str Pending = ''pending''"
| "status_str Paused = ''paused''"

fun health_num :: "container_health \<Rightarrow> nat" where
  "health_num Health_None = 0"
| "health_num Starting = 1"
| "health_num Healthy = 2"
| "health_num Unhealthy = 3"

fun connection_num :: "connection_type \<Rightarrow> nat" where
  "connection_num SSH = 1"
| "connection_num WebSocket = 2"

fun meter_num :: "meter_state \<Rightarrow> nat" where
  "meter_num Good = 0"
| "meter_num Warn = 1"
| "meter_num Crit = 2"

lemma meter_num_inj: "meter_num a = meter_num b \<Longrightarrow> a = b"
  by (cases a; cases b) auto

lemma status_str_inj: "status_str a = status_str b \<Longrightarrow> a = b"
  by (cases a; cases b) auto

text \<open>The meter states are ordered by their enum number, which is how they are sorted.\<close>

instantiation meter_state :: linorder
begin

definition less_eq_meter_state :: "meter_state \<Rightarrow> meter_state \<Rightarrow> bool" where
  "a \<le> b \<longleftrightarrow> meter_num a \<le> meter_num b"

definition less_meter_state :: "meter_state \<Rightarrow> meter_state \<Rightarrow> bool" where
  "a < b \<longleftrightarrow> meter_num a < meter_num b"

instance
  by standard (auto simp: less_eq_meter_state_def less_meter_state_def dest: meter_num_inj)

end

lemma meter_state_finite: "set xs \<subseteq> {Good, Warn, Crit}"
  by (auto intro: meter_state.exhaust)

subsection \<open>Exceptions\<close>

text \<open>Reading a property of undefined throws; a result that may throw is a sum with the error on the left.\<close>

datatype js_error = TypeError

subsection \<open>Systems and their statistics\<close>

record system_info =
  si_h :: string
  si_k :: "string option"
  si_cpu :: "rat option"
  si_t :: "int option"
  si_c :: "int option"
  si_m :: "string option"
  si_la :: "rat list option"
  si_u :: rat
  si_mp :: rat
  si_dp :: rat
  si_bb :: "rat option"
  si_v :: "string option"
  si_p :: "bool option"
  si_g :: "rat option"
  si_os :: "os_kind option"
  si_ct :: "connection_type option"
  si_efs :: "(string \<times> rat) list option"

record system_record =
  sys_id :: string
  sys_name :: string
  sys_host :: "string option"
  sys_status :: system_status
  sys_info :: system_info

record gpu_data =
  gpu_n :: string
  gpu_mu :: "rat option"
  gpu_mt :: "rat option"
  gpu_u :: rat
  gpu_p :: "rat option"
  gpu_pp :: "rat option"
  gpu_e :: "(string \<times> rat) list option"

record extra_fs_stats =
  fs_d :: "rat option"
  fs_du :: "rat option"
  fs_r :: "rat option"
  fs_w :: "rat option"
  fs_rm :: "rat option"
  fs_wm :: "rat option"
  fs_rb :: "rat option"
  fs_wb :: "rat option"
  fs_rbm :: "rat option"
  fs_wbm :: "rat option"
  fs_dios :: "rat list option"
  fs_diosm :: "rat list option"

record system_stats =
  st_cpu :: "rat option"
  st_cpum :: "rat option"
  st_cpub :: "rat list option"
  st_cpus :: "rat list option"
  st_la :: "rat list option"
  st_m :: "rat option"
  st_mu :: "rat option"
  st_mb :: "rat option"
  st_mm :: "rat option"
  st_mz :: "rat option"
  st_s :: "rat option"
  st_su :: "rat option"
  st_d :: "rat option"
  st_du :: "rat option"
  st_dr :: "rat option"
  st_dw :: "rat option"
  st_drm :: "rat option"
  st_dwm :: "rat option"
  st_dio :: "rat list option"
  st_diom :: "rat list option"
  st_dios :: "rat list option"
  st_diosm :: "rat list option"
  st_ns :: "rat option"
  st_nr :: "rat option"
  st_b :: "rat list option"
  st_nsm :: "rat option"
  st_nrm :: "rat option"
  st_bm :: "rat list option"
  st_efs :: "(string \<times> extra_fs_stats) list option"
  st_g :: "(string \<times> gpu_data) list option"
  st_ni :: "(string \<times> rat list) list option"

text \<open>
  The field created is a date string on a fetched record, a millisecond timestamp once
  converted, and null on a gap marker; a string no date can be read from converts to NaN.
\<close>

datatype created = Created_null | Created_str string | Created_ms int | Created_nan

record stats_record =
  sr_created :: created
  sr_stats :: "system_stats option"

record container_stats =
  cs_n :: string
  cs_c :: "rat option"
  cs_m :: "rat option"
  cs_ns :: "rat option"
  cs_nr :: "rat option"
  cs_b :: "rat list option"

record container_stats_record =
  csr_created :: created
  csr_stats :: "container_stats list"

text \<open>A ChartDataContainer: the time and one entry per container name.\<close>

record container_point =
  cp_created :: created
  cp_stats :: "(string \<times> container_stats) list"

record system_details =
  det_hostname :: "string option"
  det_kernel :: "string option"
  det_cores :: "int option"
  det_threads :: "int option"
  det_cpu :: "string option"
  det_os :: "os_kind option"
  det_os_name :: "string option"
  det_arch :: "string option"
  det_memory :: "rat option"
  det_podman :: "bool option"

subsection \<open>Alerts and containers\<close>

record alert_record =
  al_id :: string
  al_system :: string
  al_name :: string
  al_triggered :: bool
  al_value :: rat
  al_min :: int

record alerts_history_record =
  ah_id :: string
  ah_system :: string
  ah_system_name :: "string option"
  ah_name :: string
  ah_value :: rat
  ah_created :: string
  ah_resolved :: "string option"

record container_record =
  ct_id :: string
  ct_system :: string
  ct_name :: string
  ct_image :: string
  ct_ports :: string
  ct_cpu :: rat
  ct_memory :: rat
  ct_net :: rat
  ct_health :: nat
  ct_status :: string
  ct_updated :: int

record notification_settings =
  telegramBotToken :: string
  telegramUserIds :: "string list"

subsection \<open>Settings and versions\<close>

datatype chart_time = T1m | T1h | T12h | T24h | T1w | T30d

fun chart_time_str :: "chart_time \<Rightarrow> string" where
  "chart_time_str T1m = ''1m''"
| "chart_time_str T1h = ''1h''"
| "chart_time_str T12h = ''12h''"
| "chart_time_str T24h = ''24h''"
| "chart_time_str T1w = ''1w''"
| "chart_time_str T30d = ''30d''"

definition chart_times :: "chart_time list" where
  "chart_times = [T1m, T1h, T12h, T24h, T1w, T30d]"

lemma set_chart_times: "t \<in> set chart_times"
  by (cases t) (simp_all add: chart_times_def)

lemma chart_time_str_inj: "chart_time_str a = chart_time_str b \<Longrightarrow> a = b"
  by (cases a; cases b) auto

record display_settings =
  ds_chartTime :: chart_time
  ds_unitNet :: "unit_choice option"
  ds_unitDisk :: "unit_choice option"
  ds_colorWarn :: "rat option"
  ds_colorCrit :: "rat option"
  ds_hourFormat :: "hour_format option"

text \<open>A SemVer component is a number that is NaN (\<^term>\<open>None\<close>) when its text is no number.\<close>

record sem_ver =
  major :: "rat option"
  minor :: "rat option"
  patch :: "rat option"

datatype orientation = Right_side | Left_side

record chart_data =
  cd_systemStats :: "stats_record list"
  cd_containerData :: "container_point list"
  cd_chartTime :: chart_time
  cd_orientation :: orientation
  cd_ticks :: "int list"
  cd_domain :: "int list"
  cd_agentVersion :: sem_ver

subsection \<open>A sample system\<close>

text \<open>The concrete systems of the examples.\<close>

definition sample_info :: system_info where
  "sample_info = \<lparr>si_h = ''h'', si_k = None, si_cpu = Some 5, si_t = None, si_c = None, si_m = None,
     si_la = None, si_u = 100, si_mp = 40, si_dp = 50, si_bb = None, si_v = Some ''0.1.0'', si_p = None,
     si_g = None, si_os = None, si_ct = None, si_efs = None\<rparr>"

definition sample_system :: "string \<Rightarrow> string \<Rightarrow> system_status \<Rightarrow> system_record" where
  "sample_system i n st = \<lparr>sys_id = i, sys_name = n, sys_host = None, sys_status = st, sys_info = sample_info\<rparr>"

end
