(* ===== verification/Realtime_Feed.thy ===== *)
theory Realtime_Feed
  imports Types
begin

section \<open>The contract of a realtime record feed\<close>

text \<open>
  PocketBase sends realtime events, an action with a record; systemsManager.ts, alerts.ts and
  the alert history table each keep a local copy of a collection up to date from them. The
  contract: the copy, seen as a map from keys to records, changes as feed_step says. The
  interface record_feed states it; its lemmas say what follows for a whole run: the copy is the
  replay of the events, for each key only the last event that concerns it matters, and so
  reordering events of different keys changes nothing.
\<close>

definition feed_step ::
  "('r \<Rightarrow> 'k) \<Rightarrow> ('r \<Rightarrow> bool) \<Rightarrow> string \<times> 'r \<Rightarrow> ('k \<Rightarrow> 'r option) \<Rightarrow> ('k \<Rightarrow> 'r option)" where
  \<comment> \<open>create and update put a valid record under its key, delete removes the key, any other
      action does nothing\<close>
  "feed_step key valid e m =
     (if fst e = ''create'' \<or> fst e = ''update'' then (if valid (snd e) then m(key (snd e) \<mapsto> snd e) else m)
      else if fst e = ''delete'' then m(key (snd e) := None) else m)"

definition feed_replay ::
  "('r \<Rightarrow> 'k) \<Rightarrow> ('r \<Rightarrow> bool) \<Rightarrow> (string \<times> 'r) list \<Rightarrow> ('k \<Rightarrow> 'r option) \<Rightarrow> ('k \<Rightarrow> 'r option)" where
  "feed_replay key valid es m = fold (feed_step key valid) es m"

definition feed_concerns :: "('r \<Rightarrow> 'k) \<Rightarrow> ('r \<Rightarrow> bool) \<Rightarrow> 'k \<Rightarrow> string \<times> 'r \<Rightarrow> bool" where
  \<comment> \<open>the events that change the entry of k\<close>
  "feed_concerns key valid k e \<longleftrightarrow> key (snd e) = k \<and>
     ((fst e = ''create'' \<or> fst e = ''update'') \<and> valid (snd e) \<or> fst e = ''delete'')"

definition feed_result :: "string \<times> 'r \<Rightarrow> 'r option" where
  "feed_result e = (if fst e = ''delete'' then None else Some (snd e))"

lemma feed_step_at:
  "feed_step key valid e m k = (if feed_concerns key valid k e then feed_result e else m k)"
  by (auto simp: feed_step_def feed_concerns_def feed_result_def)

lemma feed_replay_at:
  "feed_replay key valid es m k =
     (case filter (feed_concerns key valid k) es of [] \<Rightarrow> m k | f # fs \<Rightarrow> feed_result (last (f # fs)))"
proof (induction es rule: rev_induct)
  case Nil
  then show ?case by (simp add: feed_replay_def)
next
  case (snoc e es)
  then show ?case
    by (auto simp: feed_replay_def feed_step_at last_append split: list.splits)
qed

lemma feed_replay_cong:
  assumes "\<And>k. filter (feed_concerns key valid k) es = filter (feed_concerns key valid k) es'"
  shows "feed_replay key valid es m = feed_replay key valid es' m"
  by (rule ext) (simp add: feed_replay_at assms)

lemma feed_replay_append:
  "feed_replay key valid (es @ es') m = feed_replay key valid es' (feed_replay key valid es m)"
  by (simp add: feed_replay_def)

lemma feed_replay_last_per_key:
  \<comment> \<open>two event lists with the same last event for each key have the same effect\<close>
  assumes "\<And>k. at_last (filter (feed_concerns key valid k) es)
             = at_last (filter (feed_concerns key valid k) es')"
  shows "feed_replay key valid es m = feed_replay key valid es' m"
proof (rule ext)
  fix k
  show "feed_replay key valid es m k = feed_replay key valid es' m k"
    using assms [of k]
    by (auto simp: feed_replay_at at_last_def split: list.splits if_splits)
qed

locale record_feed =
  fixes key :: "'r \<Rightarrow> 'k"
    and valid :: "'r \<Rightarrow> bool"
    and good :: "string \<times> 'r \<Rightarrow> bool"
    and apply_event :: "string \<times> 'r \<Rightarrow> 's \<Rightarrow> 's"
    and inv :: "'s \<Rightarrow> bool"
    and view :: "'s \<Rightarrow> ('k \<Rightarrow> 'r option)"
  assumes inv_apply: "inv s \<Longrightarrow> good e \<Longrightarrow> inv (apply_event e s)"
    and view_apply: "inv s \<Longrightarrow> good e \<Longrightarrow> view (apply_event e s) = feed_step key valid e (view s)"
begin

lemma inv_run: "inv s \<Longrightarrow> list_all good es \<Longrightarrow> inv (fold apply_event es s)"
  by (induction es arbitrary: s) (auto simp: inv_apply)

lemma view_run:
  "inv s \<Longrightarrow> list_all good es \<Longrightarrow> view (fold apply_event es s) = feed_replay key valid es (view s)"
proof (induction es arbitrary: s)
  case Nil
  then show ?case by (simp add: feed_replay_def)
next
  case (Cons e es)
  then show ?case by (simp add: inv_apply view_apply feed_replay_def)
qed

lemma run_same_last:
  assumes "inv s" "list_all good es" "list_all good es'"
    and "\<And>k. at_last (filter (feed_concerns key valid k) es)
           = at_last (filter (feed_concerns key valid k) es')"
  shows "view (fold apply_event es s) = view (fold apply_event es' s)"
  using view_run [OF assms(1,2)] view_run [OF assms(1,3)] feed_replay_last_per_key [OF assms(4)]
  by simp

lemma run_idempotent:
  assumes "inv s" "list_all good es"
  shows "view (fold apply_event (es @ es) s) = view (fold apply_event es s)"
proof (rule run_same_last)
  show "at_last (filter (feed_concerns key valid k) (es @ es))
      = at_last (filter (feed_concerns key valid k) es)" for k
    by (simp add: at_last_def)
qed (use assms in simp_all)

end

end
