(* ===== verification/Nanostores.thy ===== *)
theory Nanostores
  imports Types
begin

section \<open>The map stores of nanostores\<close>

text \<open>
  nanostores is a package: its setKey is an argument of every operation that uses it. The
  interface map_store is what its documentation says of setKey on a map store; set_key_documented
  is the same as a predicate, for the statements outside the interface.
\<close>

type_synonym ('k, 'v) set_key = "'k \<Rightarrow> 'v option \<Rightarrow> ('k \<times> 'v) list \<Rightarrow> ('k \<times> 'v) list"

text \<open>
  Documented of setKey: undefined removes the key, any other value is stored under it, other keys
  keep their values and no key is repeated.
\<close>

definition set_key_documented :: "('k, 'v) set_key \<Rightarrow> bool" where
  "set_key_documented set_key \<longleftrightarrow>
     (\<forall>k v m. map_of (set_key k v m) = (map_of m)(k := v))
     \<and> (\<forall>k v m. distinct (map fst m) \<longrightarrow> distinct (map fst (set_key k v m)))"

definition js_set_key :: "('k, 'v) set_key" where
  \<comment> \<open>the object with the key spread in, or deleted\<close>
  "js_set_key k v m = (case v of Some r \<Rightarrow> AList.update k r m | None \<Rightarrow> AList.delete k m)"

locale map_store =
  fixes set_key :: "('k, 'v) set_key"
  assumes map_of_set_key [simp]: "map_of (set_key k v m) = (map_of m)(k := v)"
    and distinct_set_key [simp]: "distinct (map fst m) \<Longrightarrow> distinct (map fst (set_key k v m))"
begin

lemma keys_set_key: "set (map fst (set_key k v m)) =
   (if v = None then set (map fst m) - {k} else insert k (set (map fst m)))"
proof -
  have "set (map fst n) = dom (map_of n)" for n :: "('k \<times> 'v) list"
    by (simp add: dom_map_of_conv_image_fst)
  then show ?thesis by (simp only: map_of_set_key dom_fun_upd)
qed

lemma set_key_twice: "map_of (set_key k v (set_key k w m)) = map_of (set_key k v m)"
  by simp

lemma set_key_swap: "k \<noteq> k' \<Longrightarrow>
   map_of (set_key k v (set_key k' w m)) = map_of (set_key k' w (set_key k v m))"
  by (simp add: fun_upd_twist)

end

interpretation js_store: map_store js_set_key
  by unfold_locales (auto simp: js_set_key_def fun_eq_iff intro: keeps split: option.splits)

lemma js_set_key_documented: "set_key_documented js_set_key"
  by (simp add: set_key_documented_def)

lemma map_store_documented: "set_key_documented set_key \<Longrightarrow> map_store set_key"
  by unfold_locales (simp_all add: set_key_documented_def)

end
