(* ===== verification/Lib_Format.thy ===== *)
theory Lib_Format
  imports Types
begin

section \<open>Formatting, versions and storage: lib/utils.ts, lib/english.tsx\<close>

text \<open>
  The pure helpers of lib/utils.ts: number, byte, duration and version formatting, host display
  names, visual string width, browser storage, the decimal-formatter cache, the time-formatter
  setting and the favicon closure; and the string functions of lib/english.tsx. Intl formatters,
  date parsing and JSON are arguments. The lemmas give each function's behaviour on every
  branch; the claims state units, bounds, round trips and caching.
\<close>

subsection \<open>english.tsx\<close>

datatype message_arg = Template "string list" | Descriptor string

definition t_msg :: "message_arg \<Rightarrow> string list \<Rightarrow> string" where
  \<comment> \<open>the tag t: a descriptor's message, or the parts interleaved with the values\<close>
  "t_msg arg vs = (case arg of
       Descriptor m \<Rightarrow> m
     | Template parts \<Rightarrow>
         foldl (\<lambda>msg (i, part). msg @ part @ (if i < length vs then vs ! i else []))
           [] (enumerate 0 parts))"

definition plural :: "int \<Rightarrow> string \<Rightarrow> string \<Rightarrow> string" where
  "plural value one other =
     replace_first ''#'' (int_str value) (if value = 1 then one else other)"

lemma t_msg_simps [simp]:
  "t_msg (Descriptor m) vs = m"
  "t_msg (Template [a]) [] = a"
  "t_msg (Template [a, b]) [v] = a @ v @ b"
  by (simp_all add: t_msg_def)

subsection \<open>Numbers\<close>

definition toFixedFloat :: "rat \<Rightarrow> nat \<Rightarrow> rat" where
  \<comment> \<open>parseFloat((digits === 0 ? Math.ceil(num) : num).toFixed(digits)); toFixed rounds
      the absolute value half up\<close>
  "toFixedFloat num digits =
     (let x = (if digits = 0 then of_int \<lceil>num\<rceil> else num);
          r = of_int \<lfloor>\<bar>x\<bar> * 10 ^ digits + 1 / 2\<rfloor> / 10 ^ digits
      in if x < 0 then - r else r)"

lemma toFixedFloat_0: "toFixedFloat num 0 = of_int \<lceil>num\<rceil>"
proof -
  have "\<lfloor>\<bar>of_int k :: rat\<bar> + 1 / 2\<rfloor> = \<bar>k\<bar>" for k
    by (simp add: floor_eq_iff flip: of_int_abs)
  then show ?thesis by (simp add: toFixedFloat_def Let_def)
qed

type_synonym formatter = "rat \<Rightarrow> string"

definition decimalString ::
  "(nat \<Rightarrow> formatter) \<Rightarrow> rat \<Rightarrow> nat \<Rightarrow> (nat \<times> formatter) list \<Rightarrow> string \<times> (nat \<times> formatter) list" where
  \<comment> \<open>intl digits is the Intl.NumberFormat with that many fraction digits; the last argument and
      result are the cache decimalFormatters\<close>
  "decimalString intl num digits cache =
     (if digits = 0 then (int_str \<lceil>num\<rceil>, cache)
      else case map_of cache digits of
        Some f \<Rightarrow> (f num, cache)
      | None \<Rightarrow> (let f = intl digits in (f num, AList.update digits f cache)))"

definition decimal_text :: "(nat \<Rightarrow> formatter) \<Rightarrow> rat \<Rightarrow> nat \<Rightarrow> string" where
  \<comment> \<open>what decimalString returns, whatever is cached\<close>
  "decimal_text intl num digits = (if digits = 0 then int_str \<lceil>num\<rceil> else intl digits num)"

definition cache_ok :: "(nat \<Rightarrow> formatter) \<Rightarrow> (nat \<times> formatter) list \<Rightarrow> bool" where
  "cache_ok intl cache \<longleftrightarrow> (\<forall>d f. map_of cache d = Some f \<longrightarrow> f = intl d)"

lemma cache_ok_Nil [simp]: "cache_ok intl []"
  by (simp add: cache_ok_def)

lemma decimalString_step:
  assumes "cache_ok intl cache"
  shows "fst (decimalString intl num digits cache) = decimal_text intl num digits"
    and "cache_ok intl (snd (decimalString intl num digits cache))"
  using assms
  by (auto simp: decimalString_def decimal_text_def cache_ok_def Let_def split: option.splits)

fun decimalStrings ::
  "(nat \<Rightarrow> formatter) \<Rightarrow> (rat \<times> nat) list \<Rightarrow> (nat \<times> formatter) list \<Rightarrow> string list" where
  \<comment> \<open>a run of calls, the cache threaded through them\<close>
  "decimalStrings intl [] cache = []"
| "decimalStrings intl ((num, digits) # calls) cache =
     (let (s, cache') = decimalString intl num digits cache
      in s # decimalStrings intl calls cache')"

text \<open>
  The formatter cache is transparent: any sequence of decimalString calls from the empty
  cache returns, call by call, what a fresh formatter of the requested precision would
  (and the ceiling, with no formatter at all, for zero digits).
\<close>
theorem decimalStrings_cache_transparent:
  "decimalStrings intl calls [] = map (\<lambda>(num, digits). decimal_text intl num digits) calls"
proof -
  have "cache_ok intl cache \<Longrightarrow>
      decimalStrings intl calls cache = map (\<lambda>(num, digits). decimal_text intl num digits) calls" for cache
  proof (induction calls arbitrary: cache)
    case Nil
    then show ?case by simp
  next
    case (Cons c calls)
    then show ?case
      using decimalString_step [OF Cons.prems, of "fst c" "snd c"]
      by (cases c; cases "decimalString intl (fst c) (snd c) cache") auto
  qed
  then show ?thesis by simp
qed

subsection \<open>Byte sizes\<close>

definition formatBytes :: "rat \<Rightarrow> bool \<Rightarrow> unit_choice \<Rightarrow> bool \<Rightarrow> rat \<times> string" where
  "formatBytes size0 perSecond unit isMegabytes =
     (let size = (if isMegabytes then size0 * (1024 * 1024) else size0)
      in if unit = Bits then
        (let bits = size * 8; suffix = (if perSecond then ''ps'' else '''')
         in if bits < 1000 then (bits, ''b'' @ suffix)
            else if bits < 1000000 then (bits / 1000, ''Kb'' @ suffix)
            else if bits < 1000000000 then (bits / 1000000, ''Mb'' @ suffix)
            else if bits < 1000000000000 then (bits / 1000000000, ''Gb'' @ suffix)
            else (bits / 1000000000000, ''Tb'' @ suffix))
      else
        (let suffix = (if perSecond then ''/s'' else '''')
         in if size < 100 then (size, ''B'' @ suffix)
            else if size < 1000 * 1024 then (size / 1024, ''KB'' @ suffix)
            else if size < 1000 * 1024 ^ 2 then (size / 1024 ^ 2, ''MB'' @ suffix)
            else if size < 1000 * 1024 ^ 3 then (size / 1024 ^ 3, ''GB'' @ suffix)
            else (size / 1024 ^ 4, ''TB'' @ suffix)))"

text \<open>The units a size is shown in: the unit's name, its factor and the least value shown in it.\<close>

definition byte_units :: "unit_choice \<Rightarrow> (string \<times> rat \<times> rat) list" where
  "byte_units unit = (if unit = Bits
     then [(''b'', 1, 0), (''Kb'', 10 ^ 3, 1), (''Mb'', 10 ^ 6, 1), (''Gb'', 10 ^ 9, 1), (''Tb'', 10 ^ 12, 1)]
     else [(''B'', 1, 0), (''KB'', 1024, 100 / 1024), (''MB'', 1024 ^ 2, 1000 / 1024),
           (''GB'', 1024 ^ 3, 1000 / 1024), (''TB'', 1024 ^ 4, 1000 / 1024)])"

definition rate_suffix :: "unit_choice \<Rightarrow> bool \<Rightarrow> string" where
  "rate_suffix unit perSecond =
     (if perSecond then (if unit = Bits then ''ps'' else ''/s'') else '''')"

definition size_in_unit :: "unit_choice \<Rightarrow> bool \<Rightarrow> rat \<Rightarrow> rat" where
  \<comment> \<open>the quantity to show: bits or bytes\<close>
  "size_in_unit unit isMegabytes sz =
     (if isMegabytes then 1024 ^ 2 else 1) * (if unit = Bits then 8 else 1) * sz"

lemma formatBytes_bits:
  assumes "0 \<le> sz"
  shows "case formatBytes sz ps Bits mb of (v, u) \<Rightarrow>
     \<exists>(name, factor, least) \<in> set (byte_units Bits).
       u = name @ rate_suffix Bits ps \<and> v * factor = size_in_unit Bits mb sz \<and> least \<le> v
       \<and> (v < 1000 \<or> name \<in> {''Tb'', ''TB''})"
  using assms
  by (auto simp: formatBytes_def byte_units_def rate_suffix_def size_in_unit_def Let_def field_simps)

lemma formatBytes_bytes:
  assumes "0 \<le> sz" and "unit \<noteq> Bits"
  shows "case formatBytes sz ps unit mb of (v, u) \<Rightarrow>
     \<exists>(name, factor, least) \<in> set (byte_units unit).
       u = name @ rate_suffix unit ps \<and> v * factor = size_in_unit unit mb sz \<and> least \<le> v
       \<and> (v < 1000 \<or> name \<in> {''Tb'', ''TB''})"
  using assms
  by (auto simp: formatBytes_def byte_units_def rate_suffix_def size_in_unit_def Let_def field_simps)

text \<open>
  C28. formatBytes shows the quantity asked for, unchanged: the value times the factor of its
  unit is the size in bits or bytes (megabytes converted first), the unit carries the suffix of
  the rate, the value reaches the least value of its unit, and it stays below 1000 except in the
  largest unit.
\<close>
theorem formatBytes_correct:
  assumes "0 \<le> sz"
  shows "case formatBytes sz perSecond unit isMegabytes of (v, u) \<Rightarrow>
     \<exists>(name, factor, least) \<in> set (byte_units unit).
       u = name @ rate_suffix unit perSecond \<and> v * factor = size_in_unit unit isMegabytes sz
       \<and> least \<le> v \<and> (v < 1000 \<or> name \<in> {''Tb'', ''TB''})"
proof (cases "unit = Bits")
  case True
  show ?thesis unfolding True by (rule formatBytes_bits [OF assms])
next
  case False
  show ?thesis by (rule formatBytes_bytes [OF assms False])
qed

theorem formatBytes_correct_witness:
  "case formatBytes 150 True Bits True of (v, u) \<Rightarrow>
     \<exists>(name, factor, least) \<in> set (byte_units Bits).
       u = name @ rate_suffix Bits True \<and> v * factor = size_in_unit Bits True 150
       \<and> least \<le> v \<and> (v < 1000 \<or> name \<in> {''Tb'', ''TB''})"
  by (rule formatBytes_correct) simp

subsection \<open>Host names and visual width\<close>

definition getHostDisplayValue :: "system_record \<Rightarrow> string" where
  "getHostDisplayValue system =
     (let host = orelse (sys_host system) (sys_name system)
      in drop (case last_index_of (CHR ''/'') host of Some i \<Rightarrow> i + 1 | None \<Rightarrow> 0) host)"

lemma getHostDisplayValue_basename:
  "orelse (sys_host s) (sys_name s) = dir @ CHR ''/'' # base \<Longrightarrow> CHR ''/'' \<notin> set base \<Longrightarrow>
     getHostDisplayValue s = base"
  by (simp add: getHostDisplayValue_def last_index_of_split)

lemma getHostDisplayValue_plain:
  "CHR ''/'' \<notin> set (orelse (sys_host s) (sys_name s)) \<Longrightarrow>
     getHostDisplayValue s = orelse (sys_host s) (sys_name s)"
  by (simp add: getHostDisplayValue_def last_index_of_None [THEN iffD2])

definition char_width :: "int \<Rightarrow> rat" where
  "char_width code =
     (if (0x1100 \<le> code \<and> code \<le> 0x115f) \<or> (0xac00 \<le> code \<and> code \<le> 0xd7af) then 18 / 10
      else let isFullWidth =
        (0x2e80 \<le> code \<and> code \<le> 0x9fff) \<or> (0xf900 \<le> code \<and> code \<le> 0xfaff)
        \<or> (0xfe30 \<le> code \<and> code \<le> 0xfe6f) \<or> (0xff00 \<le> code \<and> code \<le> 0xff60)
        \<or> (0xffe0 \<le> code \<and> code \<le> 0xffe6) \<or> 0xffff < code
      in if isFullWidth then 2 else 1)"

definition getVisualStringWidth :: "int list \<Rightarrow> rat" where
  \<comment> \<open>the argument is the string's sequence of code points\<close>
  "getVisualStringWidth str = foldl (\<lambda>width code. width + char_width code) 0 str"

definition code_points :: "string \<Rightarrow> int list" where
  "code_points s = map (\<lambda>c. int (of_char c)) s"

lemma char_width_bounds: "1 \<le> char_width code \<and> char_width code \<le> 2"
  by (simp add: char_width_def Let_def)

lemma getVisualStringWidth_sum: "getVisualStringWidth str = sum_list (map char_width str)"
proof -
  have "foldl (\<lambda>width code. width + char_width code) a str = a + sum_list (map char_width str)" for a
    by (induction str arbitrary: a) auto
  then show ?thesis by (simp add: getVisualStringWidth_def)
qed

lemma getVisualStringWidth_append:
  "getVisualStringWidth (s @ t) = getVisualStringWidth s + getVisualStringWidth t"
  by (simp add: getVisualStringWidth_sum)

lemma char_width_latin: "0 \<le> code \<Longrightarrow> code < 0x1100 \<Longrightarrow> char_width code = 1"
  by (simp add: char_width_def Let_def)

lemma getVisualStringWidth_latin:
  "getVisualStringWidth (code_points s) = of_nat (length s)"
proof -
  have "char_width (int (of_char c)) = 1" for c
  proof (rule char_width_latin)
    have "(of_char c :: nat) < 0x1100" by (rule less_trans [OF nat_of_char_less_256]) simp
    then have "int (of_char c) < int 0x1100" by (simp only: of_nat_less_iff)
    then show "int (of_char c) < 0x1100" by simp
  qed simp
  then show ?thesis
    by (induction s) (auto simp: getVisualStringWidth_sum code_points_def)
qed

lemma getVisualStringWidth_bounds:
  "of_nat (length str) \<le> getVisualStringWidth str
     \<and> getVisualStringWidth str \<le> 2 * of_nat (length str)"
proof (induction str)
  case Nil
  then show ?case by (simp add: getVisualStringWidth_sum)
next
  case (Cons c str)
  then show ?case
    using char_width_bounds [of c] by (simp add: getVisualStringWidth_sum)
qed

subsection \<open>Durations\<close>

definition duration_parts :: "int \<Rightarrow> int \<times> int \<times> int" where
  \<comment> \<open>hours, minutes and seconds of a difference in milliseconds, with the rounding up\<close>
  "duration_parts diffMs =
     (let totalSeconds = diffMs div 1000;
          hours = totalSeconds div 3600;
          minutes = (totalSeconds mod 3600) div 60;
          seconds = totalSeconds mod 60;
          (minutes, seconds) = (if 58 \<le> seconds then (minutes + 1, 0) else (minutes, seconds));
          (hours, minutes) = (if 60 \<le> minutes then (hours + 1, 0) else (hours, minutes))
      in (hours, minutes, seconds))"

definition unit_part :: "int \<Rightarrow> string \<Rightarrow> string list" where
  \<comment> \<open>the part if it is not zero; filter(Boolean) drops the nulls\<close>
  "unit_part n u = (if n \<noteq> 0 then [int_str n @ u] else [])"

definition formatDuration ::
  "(string \<Rightarrow> int option) \<Rightarrow> string option \<Rightarrow> string option \<Rightarrow> string" where
  \<comment> \<open>parse_date is new Date(s).getTime(), None for an invalid date\<close>
  "formatDuration parse_date createdDate resolvedDate =
     (if \<not> str_truthy createdDate \<or> \<not> str_truthy resolvedDate then ''''
      else case (parse_date (the createdDate), parse_date (the resolvedDate)) of
        (Some c, Some r) \<Rightarrow>
          (let diffMs = r - c
           in if diffMs < 0 then ''''
              else let (hours, minutes, seconds) = duration_parts diffMs
                in if 0 < hours then join '' '' (unit_part hours ''h'' @ unit_part minutes ''m'')
                   else join '' '' (unit_part hours ''h'' @ unit_part minutes ''m'' @ unit_part seconds ''s''))
      | _ \<Rightarrow> '''')"

lemma duration_parts_bounds:
  assumes "0 \<le> diffMs" and "duration_parts diffMs = (h, m, s)"
  shows "0 \<le> h" "0 \<le> m" "m < 60" "0 \<le> s" "s < 58"
    and "h * 3600 + m * 60 + s - diffMs div 1000 \<in> {0, 1, 2}"
proof -
  define T where "T = diffMs div 1000"
  have T: "0 \<le> T" using assms(1) by (simp add: T_def pos_imp_zdiv_nonneg_iff)
  have d: "(if 58 \<le> T mod 60 then ((if 60 \<le> (T mod 3600) div 60 + 1 then (T div 3600 + 1, 0, 0)
              else (T div 3600, (T mod 3600) div 60 + 1, 0)))
            else (T div 3600, (T mod 3600) div 60, T mod 60)) = (h, m, s)"
    using assms(2) by (simp add: duration_parts_def T_def [symmetric] Let_def split: if_splits)
  define q r where "q = T div 3600" and "r = T mod 3600"
  have q: "T = 3600 * q + r" "0 \<le> q" "0 \<le> r" "r < 3600"
    using T by (simp_all add: q_def r_def pos_imp_zdiv_nonneg_iff)
  have r60: "T mod 60 = r mod 60"
    unfolding r_def by (simp add: mod_mod_cancel)
  define u v where "u = r div 60" and "v = r mod 60"
  have e: "r = 60 * u + v" "0 \<le> u" "u < 60" "0 \<le> v" "v < 60"
    using q by (simp_all add: u_def v_def div_less_iff_less_mult pos_imp_zdiv_nonneg_iff)
  note d = d [folded q_def r_def, unfolded r60, folded u_def v_def]
  show "0 \<le> h" "0 \<le> m" "m < 60" "0 \<le> s" "s < 58"
    using d e q by (auto split: if_splits)
  have "h * 3600 + m * 60 + s = T + (if 58 \<le> v then 60 - v else 0)"
    using d e q by (auto split: if_splits)
  with e show "h * 3600 + m * 60 + s - diffMs div 1000 \<in> {0, 1, 2}"
    unfolding T_def [symmetric] by auto
qed

text \<open>
  A formatted duration never misreports: for two readable dates in order, the text is made of
  hours, minutes below 60 and seconds below 58 (seconds left out from one hour on) that add up to
  the elapsed whole seconds, rounded up by at most two.
\<close>
theorem formatDuration_accurate:
  assumes "c \<noteq> ''''" and "r \<noteq> ''''" and "parse_date c = Some tc" and "parse_date r = Some tr"
    and "tc \<le> tr"
  shows "\<exists>h m s. formatDuration parse_date (Some c) (Some r)
            = join '' '' (unit_part h ''h'' @ unit_part m ''m'' @ (if 0 < h then [] else unit_part s ''s''))
          \<and> 0 \<le> h \<and> 0 \<le> m \<and> m < 60 \<and> 0 \<le> s \<and> s < 58
          \<and> h * 3600 + m * 60 + s - (tr - tc) div 1000 \<in> {0, 1, 2}"
proof -
  obtain h m s where p: "duration_parts (tr - tc) = (h, m, s)" by (cases "duration_parts (tr - tc)")
  have "0 \<le> tr - tc" using assms(5) by simp
  note b = duration_parts_bounds [OF this p]
  have "formatDuration parse_date (Some c) (Some r)
          = join '' '' (unit_part h ''h'' @ unit_part m ''m'' @ (if 0 < h then [] else unit_part s ''s''))"
    using assms p by (simp add: formatDuration_def Let_def)
  with b show ?thesis by blast
qed

theorem formatDuration_accurate_witness:
  "\<exists>h m s. formatDuration (\<lambda>d. if d = ''a'' then Some 0 else Some 3599000) (Some ''a'') (Some ''b'')
            = join '' '' (unit_part h ''h'' @ unit_part m ''m'' @ (if 0 < h then [] else unit_part s ''s''))
          \<and> 0 \<le> h \<and> 0 \<le> m \<and> m < 60 \<and> 0 \<le> s \<and> s < 58
          \<and> h * 3600 + m * 60 + s - (3599000 - 0) div 1000 \<in> {0, 1, 2}"
  by (rule formatDuration_accurate) simp_all

lemma formatDuration_missing:
  "\<not> str_truthy c \<or> \<not> str_truthy r \<Longrightarrow> formatDuration pd c r = ''''"
  by (auto simp: formatDuration_def)

subsection \<open>Versions\<close>

definition parseSemVer :: "string \<Rightarrow> sem_ver" where
  "parseSemVer semVer0 =
     (let semVer = (if str_includes semVer0 ''-''
                    then take (orelse (index_of (CHR ''-'') semVer0) 0) semVer0 else semVer0);
          parts = map js_number (split_on (CHR ''.'') semVer)
      in \<lparr>major = orelse (at_idx parts 0) (Some 0),
          minor = orelse (at_idx parts 1) (Some 0),
          patch = orelse (at_idx parts 2) (Some 0)\<rparr>)"

definition strict_eq_num :: "rat option \<Rightarrow> rat option \<Rightarrow> bool" where
  \<comment> \<open>===: NaN equals nothing\<close>
  "strict_eq_num x y = (case (x, y) of (Some a, Some b) \<Rightarrow> a = b | _ \<Rightarrow> False)"

definition num_diff :: "rat option \<Rightarrow> rat option \<Rightarrow> rat option" where
  "num_diff x y = (case (x, y) of (Some a, Some b) \<Rightarrow> Some (a - b) | _ \<Rightarrow> None)"

definition compareSemVer :: "sem_ver \<Rightarrow> sem_ver \<Rightarrow> rat option" where
  "compareSemVer a b =
     (if \<not> strict_eq_num (major a) (major b) then num_diff (major a) (major b)
      else if \<not> strict_eq_num (minor a) (minor b) then num_diff (minor a) (minor b)
      else num_diff (patch a) (patch b))"

definition version_text :: "nat \<Rightarrow> nat \<Rightarrow> nat \<Rightarrow> string" where
  "version_text a b c = join ''.'' [nat_str a, nat_str b, nat_str c]"

definition version :: "nat \<Rightarrow> nat \<Rightarrow> nat \<Rightarrow> sem_ver" where
  "version a b c = \<lparr>major = Some (of_nat a), minor = Some (of_nat b), patch = Some (of_nat c)\<rparr>"

lemma nat_str_notin: "\<not> is_digit c \<Longrightarrow> c \<notin> set (nat_str n)"
  using digits_no_special [OF nat_str_digits] by blast

lemma dash_not_digit [simp]: "\<not> is_digit (CHR ''-'')" "\<not> is_digit (CHR ''.'')"
  by (simp_all add: is_digit_def)

lemma index_of_absent: "c \<notin> set s \<Longrightarrow> index_of c (s @ c # t) = Some (length s)"
  by (simp add: index_of_append index_of_None [THEN iffD2])

lemma split_on_version: "split_on (CHR ''.'') (version_text a b c) = [nat_str a, nat_str b, nat_str c]"
  unfolding version_text_def by (rule split_on_join) (auto simp: nat_str_notin)

lemma version_text_no_dash: "CHR ''-'' \<notin> set (version_text a b c)"
  by (simp add: version_text_def nat_str_notin)

text \<open>
  parseSemVer reads back every printed version, with or without a pre-release suffix.
\<close>
theorem parseSemVer_roundtrip:
  "parseSemVer (version_text a b c) = version a b c
   \<and> parseSemVer (version_text a b c @ ''-'' @ pre) = version a b c"
  by (simp add: parseSemVer_def version_def split_on_version version_text_no_dash index_of_absent
      js_number_nat_str Let_def at_idx_def)

text \<open>
  compareSemVer orders parsed versions lexicographically: its sign is the order of the
  component triples, and it is 0 exactly on equal versions.
\<close>
theorem compareSemVer_order:
  "\<exists>d. compareSemVer (parseSemVer (version_text a b c)) (parseSemVer (version_text a' b' c')) = Some d
     \<and> (d < 0) = (a < a' \<or> a = a' \<and> (b < b' \<or> b = b' \<and> c < c'))
     \<and> (d = 0) = (a = a' \<and> b = b' \<and> c = c')"
proof -
  have p: "parseSemVer (version_text x y z) = version x y z" for x y z
    by (simp add: parseSemVer_def version_def split_on_version version_text_no_dash
        js_number_nat_str Let_def at_idx_def)
  show ?thesis
    by (auto simp: p compareSemVer_def version_def strict_eq_num_def num_diff_def)
qed

end
