(* ===== verification/Lib_Settings.thy ===== *)
theory Lib_Settings
  imports Lib_Format
begin

section \<open>Settings, time formats and chart periods: lib/utils.ts, lib/stores.ts, lib/api.ts\<close>

text \<open>
  The stateful part of lib/utils.ts: the three module-level time formatters and the listener that
  replaces them when the hour format changes, the favicon closure, browser storage, the table
  chartTimeData of chart periods; the display-settings store of lib/stores.ts with its chartTime
  listener; the uptime strings; and getPbTimestamp of lib/api.ts over a broken-down UTC date.
  The lemmas show what each call leaves in the state.
\<close>

subsection \<open>Uptime strings\<close>

datatype uptime_unit = Minute_u | Hour_u | Day_u

definition secondsToString :: "(int \<Rightarrow> string) \<Rightarrow> rat \<Rightarrow> uptime_unit \<Rightarrow> string" where
  \<comment> \<open>toLocale is Number.prototype.toLocaleString\<close>
  "secondsToString toLocale seconds u =
     (let count = \<lfloor>seconds / (case u of Hour_u \<Rightarrow> 3600 | Minute_u \<Rightarrow> 60 | Day_u \<Rightarrow> 86400)\<rfloor>;
          countString = toLocale count
      in case u of
        Minute_u \<Rightarrow> plural count (countString @ '' minute'') (countString @ '' minutes'')
      | Hour_u \<Rightarrow> plural count (countString @ '' hour'') (countString @ '' hours'')
      | Day_u \<Rightarrow> plural count (countString @ '' day'') (countString @ '' days''))"

definition secondsToUptimeString :: "(int \<Rightarrow> string) \<Rightarrow> rat \<Rightarrow> string" where
  "secondsToUptimeString toLocale seconds =
     (if seconds < 3600 then secondsToString toLocale seconds Minute_u
      else if seconds < 86400 then secondsToString toLocale seconds Hour_u
      else secondsToString toLocale seconds Day_u)"

lemma replace_first_absent: "c \<notin> set s \<Longrightarrow> replace_first [c] r s = s"
  by (induction s) auto

lemma plural_plain: "CHR ''#'' \<notin> set one \<Longrightarrow> CHR ''#'' \<notin> set other \<Longrightarrow>
   plural n one other = (if n = 1 then one else other)"
  by (simp add: plural_def replace_first_absent)

text \<open>
  An uptime is shown in the largest unit that fits, as the whole number of that unit, in the
  singular exactly for one: minutes below an hour, hours below a day, days from then on.
\<close>
theorem secondsToUptimeString_correct:
  assumes "\<And>n. CHR ''#'' \<notin> set (toLocale n)"
  shows "secondsToUptimeString toLocale s =
     (let (n, name) = (if s < 3600 then (\<lfloor>s / 60\<rfloor>, '' minute'')
                       else if s < 86400 then (\<lfloor>s / 3600\<rfloor>, '' hour'') else (\<lfloor>s / 86400\<rfloor>, '' day''))
      in toLocale n @ name @ (if n = 1 then '''' else ''s''))"
  using assms
  by (simp add: secondsToUptimeString_def secondsToString_def plural_plain Let_def)

theorem secondsToUptimeString_correct_witness:
  "secondsToUptimeString int_str 7300 =
     (let (n, name) = (if (7300 :: rat) < 3600 then (\<lfloor>7300 / 60 :: rat\<rfloor>, '' minute'')
                       else if (7300 :: rat) < 86400 then (\<lfloor>7300 / 3600 :: rat\<rfloor>, '' hour'')
                       else (\<lfloor>7300 / 86400 :: rat\<rfloor>, '' day''))
      in int_str n @ name @ (if n = 1 then '''' else ''s''))"
proof (rule secondsToUptimeString_correct)
  fix n show "CHR ''#'' \<notin> set (int_str n)"
    using nat_str_notin [of "CHR ''#''"] by (auto simp: int_str_def is_digit_def)
qed

subsection \<open>Time formatters\<close>

text \<open>
  A formatter is the hour12 option it was created with; resolve is what the locale makes of it
  (resolvedOptions().hour12). Intl is an argument: it formats a date for a style and that option.
\<close>

record time_formatters =
  hourWithMinutesFormatter :: "bool option"
  shortDateFormatter :: "bool option"
  hourWithSecondsFormatter :: "bool option"

definition initial_formatters :: time_formatters where
  "initial_formatters = \<lparr>hourWithMinutesFormatter = None, shortDateFormatter = None,
     hourWithSecondsFormatter = None\<rparr>"

definition currentHour12 :: "(bool option \<Rightarrow> bool) \<Rightarrow> time_formatters \<Rightarrow> bool" where
  "currentHour12 resolve fs = resolve (shortDateFormatter fs)"

definition on_hourFormat ::
  "(bool option \<Rightarrow> bool) \<Rightarrow> hour_format option \<Rightarrow> time_formatters \<Rightarrow> time_formatters" where
  \<comment> \<open>the listener on $displaySettings, key hourFormat\<close>
  "on_hourFormat resolve hourFormat fs = (case hourFormat of
       None \<Rightarrow> fs
     | Some hf \<Rightarrow>
         (let newHour12 = (hf = H12)
          in if currentHour12 resolve fs \<noteq> newHour12
             then \<lparr>hourWithMinutesFormatter = Some newHour12, shortDateFormatter = Some newHour12,
                   hourWithSecondsFormatter = Some newHour12\<rparr>
             else fs))"

datatype time_style = HourMinutes | ShortDate | HourSeconds | Day

definition format_time ::
  "(time_style \<Rightarrow> bool option \<Rightarrow> string \<Rightarrow> string) \<Rightarrow> time_formatters \<Rightarrow> time_style \<Rightarrow> string \<Rightarrow> string" where
  \<comment> \<open>hourWithMinutes, formatShortDate, hourWithSeconds and formatDay\<close>
  "format_time intl fs style timestamp = intl style (case style of
       HourMinutes \<Rightarrow> hourWithMinutesFormatter fs
     | ShortDate \<Rightarrow> shortDateFormatter fs
     | HourSeconds \<Rightarrow> hourWithSecondsFormatter fs
     | Day \<Rightarrow> None) timestamp"

definition formatters_agree :: "time_formatters \<Rightarrow> bool" where
  "formatters_agree fs \<longleftrightarrow> hourWithMinutesFormatter fs = shortDateFormatter fs
     \<and> hourWithSecondsFormatter fs = shortDateFormatter fs"

lemma formatters_agree_step: "formatters_agree fs \<Longrightarrow> formatters_agree (on_hourFormat resolve hf fs)"
  by (simp add: on_hourFormat_def formatters_agree_def Let_def split: option.splits)

lemma on_hourFormat_resolved:
  assumes "\<And>b. resolve (Some b) = b"
  shows "currentHour12 resolve (on_hourFormat resolve (Some hf) fs) = (hf = H12)"
  using assms by (simp add: on_hourFormat_def currentHour12_def Let_def)

text \<open>
  After any sequence of changes of the hour-format setting the three formatters agree, and
  they use the 12-hour clock exactly as the last format that was set says.
\<close>
theorem hourFormat_listener_correct:
  assumes "\<And>b. resolve (Some b) = b"
  shows "let fs = fold (on_hourFormat resolve) (hfs @ [Some hf]) initial_formatters
     in resolve (hourWithMinutesFormatter fs) = (hf = H12) \<and> resolve (shortDateFormatter fs) = (hf = H12)
        \<and> resolve (hourWithSecondsFormatter fs) = (hf = H12)"
proof -
  define fs where "fs = fold (on_hourFormat resolve) hfs initial_formatters"
  have "formatters_agree fs"
    unfolding fs_def
  proof (induction hfs rule: rev_induct)
    case Nil
    then show ?case by (simp add: formatters_agree_def initial_formatters_def)
  qed (simp add: formatters_agree_step)
  then have "formatters_agree (on_hourFormat resolve (Some hf) fs)" by (rule formatters_agree_step)
  moreover have "resolve (shortDateFormatter (on_hourFormat resolve (Some hf) fs)) = (hf = H12)"
    using on_hourFormat_resolved [of resolve, OF assms] by (simp add: currentHour12_def)
  ultimately show ?thesis
    by (simp add: fs_def [symmetric] formatters_agree_def)
qed

theorem hourFormat_listener_correct_witness:
  "let fs = fold (on_hourFormat (\<lambda>o'. orelse o' True)) ([None, Some H24] @ [Some H12]) initial_formatters
     in orelse (hourWithMinutesFormatter fs) True = (H12 = H12)
        \<and> orelse (shortDateFormatter fs) True = (H12 = H12)
        \<and> orelse (hourWithSecondsFormatter fs) True = (H12 = H12)"
  by (rule hourFormat_listener_correct) simp

subsection \<open>The favicon\<close>

definition nl_char :: char where "nl_char = CHR 0x0A"
definition tab_char :: char where "tab_char = CHR 0x09"

definition badge_circle :: "nat \<times> nat \<times> nat" where
  \<comment> \<open>cx, cy and r of the badge\<close>
  "badge_circle = (40, 50, 22)"

definition view_box :: nat where "view_box = 28"

definition favicon_badge :: "int \<Rightarrow> string" where
  "favicon_badge downCount = (case badge_circle of (cx, cy, r) \<Rightarrow>
     [nl_char, tab_char, tab_char] @ ''<circle cx=\"'' @ nat_str cx @ ''\" cy=\"'' @ nat_str cy @ ''\" r=\"'' @ nat_str r
       @ ''\" fill=\"#f00\"/>'' @ [nl_char] @ ''  '' @ [tab_char]
       @ ''<text x=\"40\" y=\"60\" font-size=\"34\" text-anchor=\"middle\" fill=\"#fff\" font-family=\"Arial\" font-weight=\"bold\">''
       @ int_str downCount @ ''</text>'' @ [nl_char, tab_char])"

definition favicon_svg :: "int \<Rightarrow> string" where
  \<comment> \<open>the template: a false condition is rendered as the text false\<close>
  "favicon_svg downCount =
     [nl_char] @ ''<svg xmlns=\"http://www.w3.org/2000/svg\" viewBox=\"0 0 '' @ nat_str view_box @ '' ''
       @ nat_str view_box @ ''\">'' @ [nl_char]
     @ ''  <rect width=\"28\" height=\"28\" rx=\"6\" fill=\"#18181b\"/>'' @ [nl_char]
     @ ''  <path fill=\"white\" d=\"M6 4h8c4.7 0 7.3 2.7 7.3 6.7s-2.6 6.7-7.3 6.7H10V24H6V4Zm4 3.4v6.6h4c2 0 3.3-1.2 3.3-3.3S16 7.4 14 7.4h-4Z\"/>'' @ [nl_char]
     @ ''  '' @ (if 0 < downCount then favicon_badge downCount else ''false'') @ [nl_char]
     @ ''</svg>'' @ [nl_char, tab_char]"

definition updateFavicon :: "int \<Rightarrow> int \<times> string option \<Rightarrow> int \<times> string option" where
  \<comment> \<open>the state is prevDownCount and the icon set last, if any\<close>
  "updateFavicon downCount st =
     (if downCount = fst st then st else (downCount, Some (favicon_svg downCount)))"

lemma updateFavicon_prev [simp]: "fst (updateFavicon n st) = n"
  by (simp add: updateFavicon_def)

lemma fold_updateFavicon:
  "fold updateFavicon (ns @ [n]) (0, None) =
     (n, if \<exists>m \<in> set (ns @ [n]). m \<noteq> 0 then Some (favicon_svg n) else None)"
proof (induction ns arbitrary: n rule: rev_induct)
  case Nil
  then show ?case by (auto simp: updateFavicon_def)
next
  case (snoc m ns)
  show ?case
    using snoc.IH [of m] by (auto simp: updateFavicon_def)
qed

text \<open>
  The favicon follows the number of down systems: after any sequence of updates the icon is
  the drawing for the last count, and no icon is ever set while every count has been zero.
\<close>
theorem updateFavicon_current:
  "snd (fold updateFavicon (ns @ [n]) (0, None)) =
     (if list_all (\<lambda>m. m = 0) (ns @ [n]) then None else Some (favicon_svg n))"
  by (auto simp: fold_updateFavicon list_all_iff simp del: fold_append)

lemma favicon_badge_outside:
  \<comment> \<open>every point of the view box is farther from the centre of the badge than its radius\<close>
  fixes x y :: rat
  assumes "0 \<le> x" "x \<le> of_nat view_box" "0 \<le> y" "y \<le> of_nat view_box"
  shows "case badge_circle of (cx, cy, r) \<Rightarrow> (of_nat r)\<^sup>2 < (x - of_nat cx)\<^sup>2 + (y - of_nat cy)\<^sup>2"
proof -
  have "12 * 12 \<le> (40 - x) * (40 - x)" "22 * 22 \<le> (50 - y) * (50 - y)"
    using mult_mono [of 12 "40 - x" 12 "40 - x"] mult_mono [of 22 "50 - y" 22 "50 - y"] assms
    by (simp_all add: view_box_def)
  then have "144 \<le> (x - 40)\<^sup>2" "484 \<le> (y - 50)\<^sup>2"
    by (simp_all add: power2_eq_square algebra_simps)
  then show ?thesis by (simp add: badge_circle_def)
qed

subsection \<open>Browser storage\<close>

definition getStorageValue ::
  "(string \<Rightarrow> 'a option) \<Rightarrow> string \<Rightarrow> 'a \<Rightarrow> (string \<times> string) list \<Rightarrow> 'a option" where
  \<comment> \<open>None when JSON.parse throws\<close>
  "getStorageValue parse key defaultValue storage =
     (case map_of storage key of
        Some saved \<Rightarrow> if saved \<noteq> '''' then parse saved else Some defaultValue
      | None \<Rightarrow> Some defaultValue)"

definition storage_key :: "string \<Rightarrow> string" where
  "storage_key key = ''besz-'' @ key"

definition useBrowserStorage_init ::
  "(string \<Rightarrow> 'a option) \<Rightarrow> string \<Rightarrow> 'a \<Rightarrow> (string \<times> string) list \<Rightarrow> 'a option" where
  "useBrowserStorage_init parse key defaultValue storage =
     getStorageValue parse (storage_key key) defaultValue storage"

definition useBrowserStorage_effect ::
  "('a \<Rightarrow> string) \<Rightarrow> string \<Rightarrow> 'a \<Rightarrow> (string \<times> string) list \<Rightarrow> (string \<times> string) list" where
  \<comment> \<open>the effect after a render with a new value\<close>
  "useBrowserStorage_effect stringify key v storage =
     AList.update (storage_key key) (stringify v) storage"

text \<open>
  Browser storage is a round trip: a mount after any writes reads the last value written
  under its own key and the default where none was, whatever was written under other keys.
\<close>
theorem useBrowserStorage_roundtrip:
  assumes "\<And>v. parse (stringify v) = Some v" and "\<And>v. stringify v \<noteq> ''''"
  shows "useBrowserStorage_init parse key d
           (fold (\<lambda>(k, v). useBrowserStorage_effect stringify k v) writes [])
         = Some (case find (\<lambda>(k, v). k = key) (rev writes) of Some (k, v) \<Rightarrow> v | None \<Rightarrow> d)"
proof -
  have "map_of (fold (\<lambda>(k, v). useBrowserStorage_effect stringify k v) writes []) (storage_key key)
          = map_option (stringify \<circ> snd) (find (\<lambda>(k, v). k = key) (rev writes))"
    by (induction writes rule: rev_induct) (auto simp: useBrowserStorage_effect_def storage_key_def)
  then show ?thesis
    using assms by (cases "find (\<lambda>(k, v). k = key) (rev writes)")
      (auto simp: useBrowserStorage_init_def getStorageValue_def)
qed

theorem useBrowserStorage_roundtrip_witness:
  "useBrowserStorage_init (\<lambda>s. Some (length s - 1)) ''grid'' 9
           (fold (\<lambda>(k, v). useBrowserStorage_effect (\<lambda>n. replicate (n + 1) (CHR ''x'')) k v)
             [(''grid'', 3), (''cols'', 5)] [])
         = Some (case find (\<lambda>(k, v). k = ''grid'') (rev [(''grid'', 3), (''cols'', 5 :: nat)]) of
             Some (k, v) \<Rightarrow> v | None \<Rightarrow> 9)"
  by (rule useBrowserStorage_roundtrip) simp_all

subsection \<open>Chart periods\<close>

datatype time_interval = Minutes | Hours | Days

text \<open>
  An entry of chartTimeData. getOffset is d3-time's offset of an interval by a number of steps;
  it is kept as that pair, and d3-time is an argument where the date is computed.
\<close>

record chart_period =
  cp_type :: string
  expectedInterval :: int
  cp_label :: string
  cp_format :: time_style
  cp_ticks :: "nat option"
  getOffset :: "time_interval \<times> int"
  minVersion :: "string option"

fun chartTimeData :: "chart_time \<Rightarrow> chart_period" where
  "chartTimeData T1m = \<lparr>cp_type = ''1m'', expectedInterval = 2000, cp_label = ''1 minute'',
     cp_format = HourSeconds, cp_ticks = Some 3, getOffset = (Minutes, - 1), minVersion = Some ''0.13.0''\<rparr>"
| "chartTimeData T1h = \<lparr>cp_type = ''1m'', expectedInterval = 60000, cp_label = ''1 hour'',
     cp_format = HourMinutes, cp_ticks = None, getOffset = (Hours, - 1), minVersion = None\<rparr>"
| "chartTimeData T12h = \<lparr>cp_type = ''10m'', expectedInterval = 60000 * 10, cp_label = ''12 hours'',
     cp_format = HourMinutes, cp_ticks = Some 12, getOffset = (Hours, - 12), minVersion = None\<rparr>"
| "chartTimeData T24h = \<lparr>cp_type = ''20m'', expectedInterval = 60000 * 20, cp_label = ''24 hours'',
     cp_format = HourMinutes, cp_ticks = None, getOffset = (Hours, - 24), minVersion = None\<rparr>"
| "chartTimeData T1w = \<lparr>cp_type = ''120m'', expectedInterval = 60000 * 120, cp_label = ''1 week'',
     cp_format = Day, cp_ticks = Some 7, getOffset = (Days, - 7), minVersion = None\<rparr>"
| "chartTimeData T30d = \<lparr>cp_type = ''480m'', expectedInterval = 60000 * 480, cp_label = ''30 days'',
     cp_format = Day, cp_ticks = Some 30, getOffset = (Days, - 30), minVersion = None\<rparr>"

type_synonym d3_offset = "time_interval \<Rightarrow> int \<Rightarrow> int \<Rightarrow> int"

definition offset_date :: "d3_offset \<Rightarrow> chart_time \<Rightarrow> int \<Rightarrow> int" where
  \<comment> \<open>chartTimeData[ct].getOffset(endTime)\<close>
  "offset_date d3 ct endTime = (case getOffset (chartTimeData ct) of (i, n) \<Rightarrow> d3 i endTime n)"

fun interval_ms :: "time_interval \<Rightarrow> int" where
  "interval_ms Minutes = 60000"
| "interval_ms Hours = 3600000"
| "interval_ms Days = 86400000"

text \<open>
  d3-time documents: minutes and hours have a fixed length; days follow local midnight, so a
  change of daylight saving time shifts the result by an hour.
\<close>

definition d3_documented :: "d3_offset \<Rightarrow> bool" where
  "d3_documented d3 \<longleftrightarrow>
     (\<forall>t n. d3 Minutes t n = t + n * 60000) \<and> (\<forall>t n. d3 Hours t n = t + n * 3600000)
     \<and> (\<forall>t n. \<bar>d3 Days t n - (t + n * 86400000)\<bar> \<le> 3600000)"

definition nominal_window :: "chart_time \<Rightarrow> int" where
  "nominal_window ct = (case getOffset (chartTimeData ct) of (i, n) \<Rightarrow> - n * interval_ms i)"

definition points_per_window :: "chart_time \<Rightarrow> int" where
  "points_per_window ct = nominal_window ct div expectedInterval (chartTimeData ct)"

lemma offset_date_before: "d3_documented d3 \<Longrightarrow> offset_date d3 ct t < t"
proof -
  assume d: "d3_documented d3"
  have "\<bar>d3 Days t n - (t + n * 86400000)\<bar> \<le> 3600000" for n
    using d by (simp add: d3_documented_def)
  from this [of "-7"] this [of "-30"] d show ?thesis
    by (cases ct) (auto simp: offset_date_def d3_documented_def)
qed

lemma points_per_window_le: "points_per_window ct \<le> 90" "0 < points_per_window ct"
  by (cases ct; simp add: points_per_window_def nominal_window_def)+

lemma expectedInterval_divides: "expectedInterval (chartTimeData ct) dvd nominal_window ct"
  by (cases ct) (simp_all add: nominal_window_def)

lemma expectedInterval_pos: "0 < expectedInterval (chartTimeData ct)"
  by (cases ct) simp_all

subsection \<open>PocketBase timestamps\<close>

text \<open>A date by its UTC fields; the month counts from 0 as in JavaScript.\<close>

record utc_date =
  utcFullYear :: nat
  utcMonth :: nat
  utcDate :: nat
  utcHours :: nat
  utcMinutes :: nat
  utcSeconds :: nat

definition padStart2 :: "string \<Rightarrow> string" where
  "padStart2 s = replicate (2 - length s) (CHR ''0'') @ s"

definition getPbTimestamp :: "(chart_time \<Rightarrow> utc_date) \<Rightarrow> chart_time \<Rightarrow> utc_date option \<Rightarrow> string" where
  \<comment> \<open>offset_now gives the default date, the period's offset from the current time\<close>
  "getPbTimestamp offset_now timeString d0 =
     (let d = orelse d0 (offset_now timeString);
          year = nat_str (utcFullYear d);
          month = padStart2 (nat_str (utcMonth d + 1));
          day = padStart2 (nat_str (utcDate d));
          hours = padStart2 (nat_str (utcHours d));
          minutes = padStart2 (nat_str (utcMinutes d));
          seconds = padStart2 (nat_str (utcSeconds d))
      in year @ ''-'' @ month @ ''-'' @ day @ '' '' @ hours @ '':'' @ minutes @ '':'' @ seconds)"

definition read_pb_timestamp :: "string \<Rightarrow> utc_date" where
  \<comment> \<open>the reading: the fields at their fixed positions\<close>
  "read_pb_timestamp s =
     (let f = (\<lambda>i n. digits_val (take n (drop i s)))
      in \<lparr>utcFullYear = f 0 4, utcMonth = f 5 2 - 1, utcDate = f 8 2, utcHours = f 11 2,
          utcMinutes = f 14 2, utcSeconds = f 17 2\<rparr>)"

lemma length_nat_str_2: "n < 100 \<Longrightarrow> length (nat_str n) = (if n < 10 then 1 else 2)"
  by (subst nat_str.simps) (auto simp: nat_str.simps [of "n div 10"])

lemma length_nat_str_4: "1000 \<le> n \<Longrightarrow> n < 10000 \<Longrightarrow> length (nat_str n) = 4"
proof -
  assume n: "1000 \<le> n" "n < 10000"
  have "n div 10 div 10 < 100" "10 \<le> n div 10 div 10"
    using n by (simp_all add: div_less_iff_less_mult less_eq_div_iff_mult_less_eq flip: div_mult2_eq)
  then have "length (nat_str (n div 10 div 10)) = 2"
    by (simp add: length_nat_str_2)
  with n show ?thesis
    by (subst nat_str.simps) (simp add: nat_str.simps [of "n div 10"])
qed

lemma length_padStart2: "n < 100 \<Longrightarrow> length (padStart2 (nat_str n)) = 2"
  by (simp add: padStart2_def length_nat_str_2)

lemma digits_val_padStart2: "digits_val (padStart2 (nat_str n)) = n"
proof -
  have "digits_val (replicate k (CHR ''0'') @ s) = digits_val s" for k s
    by (induction k) (simp_all add: digits_val_def)
  then show ?thesis by (simp add: padStart2_def digits_val_nat_str)
qed

lemma read_fixed_width:
  assumes "length y = 4" "length mo = 2" "length d = 2" "length h = 2" "length mi = 2" "length se = 2"
  shows "read_pb_timestamp (y @ ''-'' @ mo @ ''-'' @ d @ '' '' @ h @ '':'' @ mi @ '':'' @ se) =
     \<lparr>utcFullYear = digits_val y, utcMonth = digits_val mo - 1, utcDate = digits_val d,
      utcHours = digits_val h, utcMinutes = digits_val mi, utcSeconds = digits_val se\<rparr>"
proof -
  obtain a b c e where y: "y = [a, b, c, e]" using assms(1) by (auto simp: length_Suc_conv numeral_eq_Suc)
  have two: "\<exists>p q. xs = [p, q]" if "length xs = 2" for xs :: string
    using that by (auto simp: length_Suc_conv numeral_eq_Suc)
  from two assms(2-) obtain m1 m2 d1 d2 h1 h2 i1 i2 s1 s2 where
    "mo = [m1, m2]" "d = [d1, d2]" "h = [h1, h2]" "mi = [i1, i2]" "se = [s1, s2]" by metis
  with y show ?thesis by (simp add: read_pb_timestamp_def Let_def)
qed

text \<open>
  C29. A timestamp sent to PocketBase is a faithful fixed-width rendering: it has 19 characters
  and reading the fields at their positions gives the date back.
\<close>
theorem getPbTimestamp_roundtrip:
  assumes "1000 \<le> utcFullYear d" and "utcFullYear d < 10000" and "utcMonth d < 12"
    and "utcDate d < 32" and "utcHours d < 24" and "utcMinutes d < 60" and "utcSeconds d < 60"
  shows "length (getPbTimestamp off ct (Some d)) = 19
     \<and> read_pb_timestamp (getPbTimestamp off ct (Some d)) = d"
  using assms
  by (simp add: getPbTimestamp_def length_nat_str_4 length_padStart2 Let_def
      read_fixed_width [simplified] digits_val_nat_str digits_val_padStart2)

theorem getPbTimestamp_roundtrip_witness:
  "length (getPbTimestamp (\<lambda>_. undefined) T1h (Some \<lparr>utcFullYear = 2025, utcMonth = 0, utcDate = 9,
       utcHours = 7, utcMinutes = 30, utcSeconds = 5\<rparr>)) = 19
   \<and> read_pb_timestamp (getPbTimestamp (\<lambda>_. undefined) T1h (Some \<lparr>utcFullYear = 2025, utcMonth = 0,
       utcDate = 9, utcHours = 7, utcMinutes = 30, utcSeconds = 5\<rparr>))
     = \<lparr>utcFullYear = 2025, utcMonth = 0, utcDate = 9, utcHours = 7, utcMinutes = 30, utcSeconds = 5\<rparr>"
  by (rule getPbTimestamp_roundtrip) simp_all

subsection \<open>Hub address and clipboard\<close>

definition getHubURL :: "string option \<Rightarrow> string \<Rightarrow> string" where
  \<comment> \<open>the configured HUB_URL, if any, or the origin of the page\<close>
  "getHubURL HUB_URL origin = or_str HUB_URL origin"

record copy_effects =
  shown_toast :: "(string \<times> nat) option"
  copyContent :: string

definition copyToClipboard :: "bool \<Rightarrow> string \<Rightarrow> string \<Rightarrow> copy_effects" where
  \<comment> \<open>written tells whether the clipboard took the text; the last argument is the store $copyContent\<close>
  "copyToClipboard written content copy_store =
     (let duration = 1500
      in if written then \<lparr>shown_toast = Some (''Copied to clipboard'', duration), copyContent = copy_store\<rparr>
         else \<lparr>shown_toast = None, copyContent = content\<rparr>)"

end
