(* ===== verification/Systems_Manager.thy ===== *)
theory Systems_Manager
  imports Realtime_Feed Nanostores Lib_Settings
begin

section \<open>The systems manager: lib/systemsManager.ts and its stores in lib/stores.ts\<close>

text \<open>
  The five system stores, the longest name length and the favicon are one state record. The
  stores are nanostores maps; setKey is an argument with its documented laws, and a change of the
  by-id store calls the listener that init attaches. The lemmas show that the listener keeps the
  status stores a partition of the by-id store by status, that the by-id store replays the
  realtime events, and what the by-name index holds.
\<close>

type_synonym system_store = "(string \<times> system_record) list"
type_synonym system_set_key = "(string, system_record) set_key"

record sm_state =
  allSystemsByName :: system_store
  allSystemsById :: system_store
  upSystems :: system_store
  downSystems :: system_store
  pausedSystems :: system_store
  longestSystemNameLen :: rat
  favicon :: "int \<times> string option"
  initialized :: bool

definition sm_initial :: sm_state where
  "sm_initial = \<lparr>allSystemsByName = [], allSystemsById = [], upSystems = [], downSystems = [],
     pausedSystems = [], longestSystemNameLen = 8, favicon = (0, None), initialized = False\<rparr>"

subsection \<open>Operations\<close>

definition MAX_SYSTEM_NAME_LENGTH :: rat where "MAX_SYSTEM_NAME_LENGTH = 22"

definition onSystemsChanged :: "system_record option \<Rightarrow> sm_state \<Rightarrow> sm_state" where
  "onSystemsChanged changedSystem s =
     (let longestName = longestSystemNameLen s;
          name = or_str (map_option sys_name changedSystem) '''';
          nameLen = min MAX_SYSTEM_NAME_LENGTH (getVisualStringWidth (code_points name));
          s = (if longestName < nameLen then s\<lparr>longestSystemNameLen := nameLen\<rparr> else s)
      in s\<lparr>favicon := updateFavicon (int (length (obj_values (downSystems s)))) (favicon s)\<rparr>)"

definition validSystemInfo :: "system_record \<Rightarrow> bool" where
  \<comment> \<open>validateSystemInfo does not throw\<close>
  "validSystemInfo system \<longleftrightarrow> si_cpu (sys_info system) \<noteq> None"

definition status_listener :: "system_set_key \<Rightarrow> system_record \<Rightarrow> sm_state \<Rightarrow> sm_state" where
  \<comment> \<open>the branches of the listener on the new status\<close>
  "status_listener set_key r s =
     (let id = sys_id r in
      case sys_status r of
        Up \<Rightarrow> s\<lparr>upSystems := set_key id (Some r) (upSystems s),
               downSystems := set_key id None (downSystems s),
               pausedSystems := set_key id None (pausedSystems s)\<rparr>
      | Down \<Rightarrow> s\<lparr>downSystems := set_key id (Some r) (downSystems s),
               upSystems := set_key id None (upSystems s),
               pausedSystems := set_key id None (pausedSystems s)\<rparr>
      | Paused \<Rightarrow> s\<lparr>pausedSystems := set_key id (Some r) (pausedSystems s),
               upSystems := set_key id None (upSystems s),
               downSystems := set_key id None (downSystems s)\<rparr>
      | Pending \<Rightarrow> s\<lparr>upSystems := set_key id None (upSystems s),
               downSystems := set_key id None (downSystems s),
               pausedSystems := set_key id None (pausedSystems s)\<rparr>)"

definition drop_from_stores :: "system_set_key \<Rightarrow> system_record \<Rightarrow> sm_state \<Rightarrow> sm_state" where
  \<comment> \<open>the removals of a deleted system; the removal by id is in systems_listener\<close>
  "drop_from_stores set_key old s =
     s\<lparr>upSystems := set_key (sys_id old) None (upSystems s),
       downSystems := set_key (sys_id old) None (downSystems s),
       pausedSystems := set_key (sys_id old) None (pausedSystems s)\<rparr>"

definition is_removed :: "system_record option \<Rightarrow> system_record option \<Rightarrow> bool" where
  \<comment> \<open>oldSystem and not newSystem?.id\<close>
  "is_removed oldSystem newSystem \<longleftrightarrow>
     oldSystem \<noteq> None \<and> \<not> str_truthy (map_option sys_id newSystem)"

definition systems_listener ::
  "system_set_key \<Rightarrow> system_record option \<Rightarrow> system_record option \<Rightarrow> sm_state \<Rightarrow> sm_state" where
  \<comment> \<open>one run of the listener: the old and the new entry of the changed key\<close>
  "systems_listener set_key oldSystem newSystem s =
     (let s = (if is_removed oldSystem newSystem
               then (drop_from_stores set_key (the oldSystem) s)
                    \<lparr>allSystemsById := set_key (sys_id (the oldSystem)) None (allSystemsById s)\<rparr>
               else s)
      in case newSystem of
        None \<Rightarrow> onSystemsChanged None s
      | Some r \<Rightarrow> onSystemsChanged (Some r) (status_listener set_key r s))"

definition setById :: "system_set_key \<Rightarrow> string \<Rightarrow> system_record option \<Rightarrow> sm_state \<Rightarrow> sm_state" where
  \<comment> \<open>$allSystemsById.setKey: removing a missing key notifies nobody; a record is a new object, so
      storing one always notifies. When the listener itself removes an entry that is still there
      (a record with an empty id) nanostores runs it once more, after the first run.\<close>
  "setById set_key k v s =
     (let oldSystem = map_of (allSystemsById s) k;
          stored = s\<lparr>allSystemsById := set_key k v (allSystemsById s)\<rparr>
      in if v = None \<and> oldSystem = None then s
         else if \<not> initialized s then stored
         else (let first = systems_listener set_key oldSystem v stored
               in if is_removed oldSystem v \<and> map_of (allSystemsById stored) (sys_id (the oldSystem)) \<noteq> None
                  then systems_listener set_key (map_of (allSystemsById stored) (sys_id (the oldSystem))) None first
                  else first))"

definition sm_init :: "sm_state \<Rightarrow> sm_state" where
  \<comment> \<open>init: attaches the listener, once\<close>
  "sm_init s = (if initialized s then s else s\<lparr>initialized := True\<rparr>)"

definition setByName :: "system_set_key \<Rightarrow> string \<Rightarrow> system_record option \<Rightarrow> sm_state \<Rightarrow> sm_state" where
  "setByName set_key k v s = s\<lparr>allSystemsByName := set_key k v (allSystemsByName s)\<rparr>"

definition sm_add :: "system_set_key \<Rightarrow> system_record \<Rightarrow> sm_state \<Rightarrow> sm_state" where
  \<comment> \<open>add: the exception of an invalid system is caught and logged\<close>
  "sm_add set_key r s =
     (if validSystemInfo r
      then setById set_key (sys_id r) (Some r) (setByName set_key (sys_name r) (Some r) s) else s)"

definition sm_update :: "system_set_key \<Rightarrow> system_record \<Rightarrow> sm_state \<Rightarrow> sm_state" where
  \<comment> \<open>update: an unknown system has the old name undefined, which as a key is the string undefined\<close>
  "sm_update set_key r s =
     (if validSystemInfo r
      then (let oldName = map_option sys_name (map_of (allSystemsById s) (sys_id r));
                s = (if oldName \<noteq> Some (sys_name r)
                     then setByName set_key (orelse oldName ''undefined'') None s else s)
            in sm_add set_key r s)
      else s)"

definition sm_remove :: "system_set_key \<Rightarrow> system_record \<Rightarrow> sm_state \<Rightarrow> sm_state" where
  "sm_remove set_key r s =
     (let s = setByName set_key (sys_name r) None s;
          s = setById set_key (sys_id r) None s
      in drop_from_stores set_key r s)"

definition sm_event :: "system_set_key \<Rightarrow> string \<times> system_record \<Rightarrow> sm_state \<Rightarrow> sm_state" where
  \<comment> \<open>the subscription's callback: actionFns by the action, if it has one\<close>
  "sm_event set_key e s =
     (if fst e = ''create'' then sm_add set_key (snd e) s
      else if fst e = ''update'' then sm_update set_key (snd e) s
      else if fst e = ''delete'' then sm_remove set_key (snd e) s
      else s)"

definition fetchSystems :: "system_record list option \<Rightarrow> system_record list" where
  \<comment> \<open>None when the request fails\<close>
  "fetchSystems response = orelse response []"

definition sm_refresh :: "system_set_key \<Rightarrow> system_record list option \<Rightarrow> sm_state \<Rightarrow> sm_state" where
  "sm_refresh set_key response s = fold (sm_add set_key) (fetchSystems response) s"

definition systems_list :: "sm_state \<Rightarrow> system_record list" where
  \<comment> \<open>the computed store $systems\<close>
  "systems_list s = obj_values (allSystemsById s)"

subsection \<open>The invariant\<close>

definition with_status :: "system_status \<Rightarrow> sm_state \<Rightarrow> string \<Rightarrow> system_record option" where
  \<comment> \<open>the by-id store restricted to the systems of a status\<close>
  "with_status st s k = (case map_of (allSystemsById s) k of
       Some r \<Rightarrow> if sys_status r = st then Some r else None | None \<Rightarrow> None)"

definition name_width :: "system_record \<Rightarrow> rat" where
  "name_width r = min MAX_SYSTEM_NAME_LENGTH (getVisualStringWidth (code_points (sys_name r)))"

definition stores_ok :: "sm_state \<Rightarrow> bool" where
  "stores_ok s \<longleftrightarrow>
     map_of (upSystems s) = with_status Up s \<and> map_of (downSystems s) = with_status Down s
     \<and> map_of (pausedSystems s) = with_status Paused s"

definition keys_ok :: "sm_state \<Rightarrow> bool" where
  "keys_ok s \<longleftrightarrow> distinct (map fst (allSystemsById s)) \<and> distinct (map fst (downSystems s))
     \<and> (\<forall>k r. map_of (allSystemsById s) k = Some r \<longrightarrow> sys_id r = k)"

definition display_ok :: "sm_state \<Rightarrow> bool" where
  "display_ok s \<longleftrightarrow> fst (favicon s) = int (length (downSystems s))
     \<and> 8 \<le> longestSystemNameLen s \<and> longestSystemNameLen s \<le> MAX_SYSTEM_NAME_LENGTH
     \<and> (\<forall>k r. map_of (allSystemsById s) k = Some r \<longrightarrow> name_width r \<le> longestSystemNameLen s)"

definition sm_inv :: "sm_state \<Rightarrow> bool" where
  "sm_inv s \<longleftrightarrow> initialized s \<and> stores_ok s \<and> keys_ok s \<and> display_ok s"

lemma sm_inv_initial: "sm_inv (sm_init sm_initial)"
  by (simp add: sm_inv_def sm_init_def sm_initial_def stores_ok_def keys_ok_def display_ok_def
      with_status_def MAX_SYSTEM_NAME_LENGTH_def fun_eq_iff)

lemma onSystemsChanged_sel [simp]:
  "allSystemsByName (onSystemsChanged c s) = allSystemsByName s"
  "allSystemsById (onSystemsChanged c s) = allSystemsById s"
  "upSystems (onSystemsChanged c s) = upSystems s"
  "downSystems (onSystemsChanged c s) = downSystems s"
  "pausedSystems (onSystemsChanged c s) = pausedSystems s"
  "initialized (onSystemsChanged c s) = initialized s"
  "fst (favicon (onSystemsChanged c s)) = int (length (downSystems s))"
  by (simp_all add: onSystemsChanged_def Let_def)

lemma getVisualStringWidth_Nil [simp]: "getVisualStringWidth (code_points '''') = 0"
  by (simp add: getVisualStringWidth_latin)

lemma onSystemsChanged_longest_None:
  "0 \<le> longestSystemNameLen s \<Longrightarrow> longestSystemNameLen (onSystemsChanged None s) = longestSystemNameLen s"
  by (simp add: onSystemsChanged_def Let_def or_str_def MAX_SYSTEM_NAME_LENGTH_def)

lemma onSystemsChanged_longest_Some:
  "longestSystemNameLen (onSystemsChanged (Some r) s) = max (longestSystemNameLen s) (name_width r)"
  by (auto simp: onSystemsChanged_def Let_def or_str_def name_width_def max_def min_def)

lemma status_listener_sel [simp]:
  "allSystemsByName (status_listener sk r s) = allSystemsByName s"
  "allSystemsById (status_listener sk r s) = allSystemsById s"
  "longestSystemNameLen (status_listener sk r s) = longestSystemNameLen s"
  "initialized (status_listener sk r s) = initialized s"
  by (cases "sys_status r"; simp add: status_listener_def Let_def)+

lemma setById_Some:
  assumes "initialized s" and "sys_id r \<noteq> ''''"
  shows "setById sk (sys_id r) (Some r) s =
     onSystemsChanged (Some r)
       (status_listener sk r (s\<lparr>allSystemsById := sk (sys_id r) (Some r) (allSystemsById s)\<rparr>))"
  using assms by (simp add: setById_def systems_listener_def is_removed_def Let_def)

lemma setById_None:
  assumes "map_store sk" and "initialized s" and "map_of (allSystemsById s) k = Some old"
    and "sys_id old = k"
  shows "setById sk k None s =
     onSystemsChanged None
       ((drop_from_stores sk old (s\<lparr>allSystemsById := sk k None (allSystemsById s)\<rparr>))
          \<lparr>allSystemsById := sk k None (sk k None (allSystemsById s))\<rparr>)"
  using assms by (simp add: setById_def systems_listener_def is_removed_def Let_def drop_from_stores_def
      map_store.map_of_set_key)

lemma setById_absent: "map_of (allSystemsById s) k = None \<Longrightarrow> setById sk k None s = s"
  by (simp add: setById_def)

text \<open>
  The system stores over any documented setKey: the interface map_store at the type of the
  system stores.
\<close>

locale system_stores = map_store sk for sk :: system_set_key
begin

lemma setById_Some_inv:
  assumes "sm_inv s" and "sys_id r \<noteq> ''''"
  shows "sm_inv (setById sk (sys_id r) (Some r) s)"
proof -
  let ?s = "setById sk (sys_id r) (Some r) s"
  have s: "?s = onSystemsChanged (Some r)
       (status_listener sk r (s\<lparr>allSystemsById := sk (sys_id r) (Some r) (allSystemsById s)\<rparr>))"
    using assms by (intro setById_Some) (simp_all add: sm_inv_def)
  have "stores_ok ?s"
    using assms(1) unfolding s
    by (cases "sys_status r")
      (auto simp: stores_ok_def sm_inv_def with_status_def status_listener_def fun_eq_iff Let_def)
  moreover have "keys_ok ?s"
    using assms(1) unfolding s
    by (cases "sys_status r") (auto simp: sm_inv_def keys_ok_def status_listener_def Let_def)
  moreover have "display_ok ?s"
    using assms(1) unfolding s
    by (auto simp: sm_inv_def display_ok_def onSystemsChanged_longest_Some name_width_def
        intro: max.coboundedI1)
  moreover have "initialized ?s"
    using assms(1) by (simp add: s sm_inv_def)
  ultimately show ?thesis by (simp add: sm_inv_def)
qed

lemma setById_None_inv:
  assumes "sm_inv s"
  shows "sm_inv (setById sk k None s)"
proof (cases "map_of (allSystemsById s) k")
  case None
  then show ?thesis using assms by (simp add: setById_absent)
next
  case (Some old)
  let ?s = "setById sk k None s"
  have k: "sys_id old = k"
    using assms Some by (simp add: sm_inv_def keys_ok_def)
  have s: "?s = onSystemsChanged None
       ((drop_from_stores sk old (s\<lparr>allSystemsById := sk k None (allSystemsById s)\<rparr>))
          \<lparr>allSystemsById := sk k None (sk k None (allSystemsById s))\<rparr>)"
    using assms map_store_axioms Some k by (intro setById_None) (simp_all add: sm_inv_def)
  have "stores_ok ?s"
    using assms unfolding s
    by (auto simp: k stores_ok_def sm_inv_def with_status_def drop_from_stores_def fun_eq_iff)
  moreover have "keys_ok ?s"
    using assms unfolding s by (auto simp: k sm_inv_def keys_ok_def drop_from_stores_def)
  moreover have "display_ok ?s"
    using assms unfolding s
    by (auto simp: k sm_inv_def display_ok_def onSystemsChanged_longest_None drop_from_stores_def)
  moreover have "initialized ?s"
    using assms by (simp add: s sm_inv_def drop_from_stores_def)
  ultimately show ?thesis by (simp add: sm_inv_def)
qed

lemma setByName_inv [simp]: "sm_inv (setByName sk k v s) = sm_inv s"
  by (simp add: sm_inv_def setByName_def stores_ok_def keys_ok_def display_ok_def with_status_def fun_eq_iff)

lemma sm_add_inv [keeps]: "sm_inv s \<Longrightarrow> sys_id r \<noteq> '''' \<Longrightarrow> sm_inv (sm_add sk r s)"
  by (simp add: sm_add_def setById_Some_inv)

lemma sm_update_inv [keeps]: "sm_inv s \<Longrightarrow> sys_id r \<noteq> '''' \<Longrightarrow> sm_inv (sm_update sk r s)"
  by (simp add: sm_update_def sm_add_inv Let_def)

lemma setByName_sel [simp]:
  "allSystemsById (setByName sk k v s) = allSystemsById s"
  "initialized (setByName sk k v s) = initialized s"
  by (simp_all add: setByName_def)

lemma setById_Some_byId:
  "initialized s \<Longrightarrow> sys_id r \<noteq> '''' \<Longrightarrow>
     map_of (allSystemsById (setById sk (sys_id r) (Some r) s)) = (map_of (allSystemsById s))(sys_id r \<mapsto> r)"
  by (simp add: setById_Some)

lemma setById_None_byId:
  assumes "sm_inv s"
  shows "map_of (allSystemsById (setById sk k None s)) = (map_of (allSystemsById s))(k := None)"
proof (cases "map_of (allSystemsById s) k")
  case None
  then show ?thesis by (auto simp: setById_absent)
next
  case (Some old)
  then show ?thesis
    using assms map_store_axioms
    by (simp add: setById_None [of sk s k old] sm_inv_def keys_ok_def drop_from_stores_def)
qed

lemma drop_from_stores_absent:
  assumes "sm_inv s" and "map_of (allSystemsById s) (sys_id r) = None"
    and "\<And>m. map_of m (sys_id r) = None \<Longrightarrow> sk (sys_id r) None m = m"
  shows "drop_from_stores sk r s = s"
  using assms by (simp add: drop_from_stores_def sm_inv_def stores_ok_def with_status_def)

lemma keys_length:
  assumes "map_of m = map_of n" and "distinct (map fst m)" and "distinct (map fst n)"
  shows "length m = length n"
proof -
  have "set (map fst m) = set (map fst n)"
    using assms(1) by (metis dom_map_of_conv_image_fst set_map)
  then show ?thesis
    using distinct_card [OF assms(2)] distinct_card [OF assms(3)] by simp
qed

lemma drop_from_stores_inv:
  assumes "sm_inv s" and "map_of (allSystemsById s) (sys_id r) = None"
  shows "sm_inv (drop_from_stores sk r s)"
proof -
  have none: "(map_of m)(sys_id r := None) = map_of m" if "map_of m = with_status st s" for m st
    using that assms(2) by (auto simp: with_status_def)
  have "length (sk (sys_id r) None (downSystems s)) = length (downSystems s)"
    using assms none [of "downSystems s" Down]
    by (intro keys_length) (simp_all add: sm_inv_def stores_ok_def keys_ok_def)
  then show ?thesis
    using assms none
    by (simp add: sm_inv_def drop_from_stores_def stores_ok_def keys_ok_def display_ok_def
        with_status_def fun_eq_iff)
qed

lemma sm_remove_inv [keeps]: "sm_inv s \<Longrightarrow> sm_inv (sm_remove sk r s)"
  by (simp add: sm_remove_def Let_def drop_from_stores_inv setById_None_inv setById_None_byId)

lemma sm_event_inv [keeps]: "sm_inv s \<Longrightarrow> sys_id (snd e) \<noteq> '''' \<Longrightarrow> sm_inv (sm_event sk e s)"
  by (simp add: sm_event_def sm_add_inv sm_update_inv sm_remove_inv)

lemma sm_refresh_inv [keeps]:
  "sm_inv s \<Longrightarrow> \<forall>r \<in> set (fetchSystems response). sys_id r \<noteq> '''' \<Longrightarrow> sm_inv (sm_refresh sk response s)"
proof -
  have "sm_inv s \<Longrightarrow> \<forall>r \<in> set rs. sys_id r \<noteq> '''' \<Longrightarrow> sm_inv (fold (sm_add sk) rs s)" for rs
    by (induction rs arbitrary: s) (simp_all add: sm_add_inv)
  then show "sm_inv s \<Longrightarrow> \<forall>r \<in> set (fetchSystems response). sys_id r \<noteq> '''' \<Longrightarrow>
      sm_inv (sm_refresh sk response s)"
    by (simp add: sm_refresh_def)
qed

lemma sm_event_view:
  assumes "sm_inv s" and "sys_id (snd e) \<noteq> ''''"
  shows "map_of (allSystemsById (sm_event sk e s)) =
     feed_step sys_id validSystemInfo e (map_of (allSystemsById s))"
proof -
  have "initialized s" using assms(1) by (simp add: sm_inv_def)
  with assms show ?thesis
    by (auto simp: sm_event_def feed_step_def sm_add_def sm_update_def sm_remove_def Let_def
        setById_Some_byId setById_None_byId drop_from_stores_def)
qed

end

text \<open>
  The systems manager is a record feed for every documented setKey; the hypothesis on setKey is
  part of the invariant, since it is about the store.
\<close>

interpretation smf: record_feed sys_id validSystemInfo "\<lambda>e. sys_id (snd e) \<noteq> ''''"
    "sm_event sk" "\<lambda>s. set_key_documented sk \<and> sm_inv s" "\<lambda>s. map_of (allSystemsById s)"
  for sk
proof unfold_locales
  fix s and e :: "string \<times> system_record"
  assume a: "set_key_documented sk \<and> sm_inv s" and e: "sys_id (snd e) \<noteq> ''''"
  then have st: "system_stores sk"
    by (simp add: system_stores_def map_store_documented)
  show "set_key_documented sk \<and> sm_inv (sm_event sk e s)"
    using a e system_stores.sm_event_inv [OF st] by simp
  show "map_of (allSystemsById (sm_event sk e s)) =
      feed_step sys_id validSystemInfo e (map_of (allSystemsById s))"
    using a e system_stores.sm_event_view [OF st] by simp
qed

subsection \<open>Runs\<close>

datatype sm_action = Event "string \<times> system_record" | Refresh "system_record list option"

fun sm_step :: "system_set_key \<Rightarrow> sm_action \<Rightarrow> sm_state \<Rightarrow> sm_state" where
  "sm_step sk (Event e) s = sm_event sk e s"
| "sm_step sk (Refresh response) s = sm_refresh sk response s"

fun action_events :: "sm_action \<Rightarrow> (string \<times> system_record) list" where
  \<comment> \<open>a refresh counts as the creation of every record fetched\<close>
  "action_events (Event e) = [e]"
| "action_events (Refresh response) = map (Pair ''create'') (fetchSystems response)"

definition sm_run :: "system_set_key \<Rightarrow> sm_action list \<Rightarrow> sm_state" where
  "sm_run sk acts = fold (sm_step sk) acts (sm_init sm_initial)"

definition acts_events :: "sm_action list \<Rightarrow> (string \<times> system_record) list" where
  "acts_events acts = concat (map action_events acts)"

definition ids_present :: "sm_action list \<Rightarrow> bool" where
  "ids_present acts = list_all (\<lambda>e. sys_id (snd e) \<noteq> '''') (acts_events acts)"

lemma fold_map_create: "fold (sm_event sk) (map (Pair ''create'') rs) s = fold (sm_add sk) rs s"
  by (induction rs arbitrary: s) (simp_all add: sm_event_def)

lemma sm_step_events: "sm_step sk a s = fold (sm_event sk) (action_events a) s"
  by (cases a) (simp_all add: sm_refresh_def fold_map_create)

lemma sm_run_events: "sm_run sk acts = fold (sm_event sk) (acts_events acts) (sm_init sm_initial)"
proof -
  have "fold (sm_step sk) acts s = fold (sm_event sk) (acts_events acts) s" for s
    by (induction acts arbitrary: s) (simp_all add: sm_step_events acts_events_def)
  then show ?thesis by (simp add: sm_run_def)
qed

lemma sm_run_inv: "set_key_documented sk \<Longrightarrow> ids_present acts \<Longrightarrow> sm_inv (sm_run sk acts)"
  using smf.inv_run [of sk "sm_init sm_initial" "acts_events acts"]
  by (simp add: sm_run_events ids_present_def sm_inv_initial)

text \<open>
  C1. The status stores partition the systems: after any sequence of realtime events and
  refreshes, the up, down and paused stores hold exactly the by-id store's systems of that
  status, under their ids and with their current record; a pending, deleted or unknown system is
  in none of them.
\<close>
theorem status_stores_partition:
  assumes "set_key_documented sk" and "ids_present acts"
  shows "map_of (upSystems (sm_run sk acts)) = with_status Up (sm_run sk acts)
     \<and> map_of (downSystems (sm_run sk acts)) = with_status Down (sm_run sk acts)
     \<and> map_of (pausedSystems (sm_run sk acts)) = with_status Paused (sm_run sk acts)"
  using sm_run_inv [OF assms] by (simp add: sm_inv_def stores_ok_def)

definition sample_acts :: "sm_action list" where
  "sample_acts = [Refresh (Some [sample_system ''a'' ''alpha'' Up, sample_system ''b'' ''beta'' Down]),
     Event (''update'', sample_system ''a'' ''alpha'' Down), Event (''delete'', sample_system ''b'' ''beta'' Down)]"

lemma sample_acts_ids: "ids_present sample_acts"
  by (simp add: ids_present_def acts_events_def sample_acts_def fetchSystems_def sample_system_def)

theorem status_stores_partition_witness:
  "map_of (upSystems (sm_run js_set_key sample_acts)) = with_status Up (sm_run js_set_key sample_acts)
     \<and> map_of (downSystems (sm_run js_set_key sample_acts)) = with_status Down (sm_run js_set_key sample_acts)
     \<and> map_of (pausedSystems (sm_run js_set_key sample_acts)) = with_status Paused (sm_run js_set_key sample_acts)"
  by (rule status_stores_partition [OF js_set_key_documented sample_acts_ids])

text \<open>
  C2. The by-id store refines the realtime feed: after any sequence of events and refreshes it is
  the replay of the events over the empty collection, a record without CPU information being
  ignored and a refresh counting as the creation of what it fetched.
\<close>
theorem systems_replay:
  assumes "set_key_documented sk" and "ids_present acts"
  shows "map_of (allSystemsById (sm_run sk acts)) =
     feed_replay sys_id validSystemInfo (acts_events acts) (\<lambda>_. None)"
proof -
  have "map_of (allSystemsById (sm_init sm_initial)) = (\<lambda>_. None)"
    by (simp add: sm_init_def sm_initial_def)
  then show ?thesis
    using assms smf.view_run [of sk "sm_init sm_initial" "acts_events acts"]
    by (simp add: sm_run_events ids_present_def sm_inv_initial)
qed

theorem systems_replay_witness:
  "map_of (allSystemsById (sm_run js_set_key sample_acts)) =
     feed_replay sys_id validSystemInfo (acts_events sample_acts) (\<lambda>_. None)"
  by (rule systems_replay [OF js_set_key_documented sample_acts_ids])

text \<open>
  C10. What is derived from the systems stays right: the favicon shows the number of down systems,
  and the longest name length is between 8 and 22 and covers the visual width of every system's
  name, up to 22.
\<close>
theorem derived_displays_correct:
  assumes "set_key_documented sk" and "ids_present acts"
  shows "fst (favicon (sm_run sk acts)) = int (length (downSystems (sm_run sk acts)))
     \<and> 8 \<le> longestSystemNameLen (sm_run sk acts) \<and> longestSystemNameLen (sm_run sk acts) \<le> 22
     \<and> list_all (\<lambda>(k, r). min 22 (of_nat (length (sys_name r))) \<le> longestSystemNameLen (sm_run sk acts))
         (allSystemsById (sm_run sk acts))"
proof -
  have inv: "sm_inv (sm_run sk acts)" using assms by (rule sm_run_inv)
  then have k: "distinct (map fst (allSystemsById (sm_run sk acts)))"
    by (simp add: sm_inv_def keys_ok_def)
  show ?thesis
    using inv k
    by (auto simp: sm_inv_def display_ok_def MAX_SYSTEM_NAME_LENGTH_def list_all_iff name_width_def
        getVisualStringWidth_latin dest: map_of_is_SomeI)
qed

theorem derived_displays_correct_witness:
  "fst (favicon (sm_run js_set_key sample_acts)) = int (length (downSystems (sm_run js_set_key sample_acts)))
     \<and> 8 \<le> longestSystemNameLen (sm_run js_set_key sample_acts)
     \<and> longestSystemNameLen (sm_run js_set_key sample_acts) \<le> 22
     \<and> list_all (\<lambda>(k, r). min 22 (of_nat (length (sys_name r)))
            \<le> longestSystemNameLen (sm_run js_set_key sample_acts))
         (allSystemsById (sm_run js_set_key sample_acts))"
  by (rule derived_displays_correct [OF js_set_key_documented sample_acts_ids])

subsection \<open>The by-name index\<close>

definition name_index :: "(string \<Rightarrow> system_record option) \<Rightarrow> (string \<Rightarrow> system_record option) \<Rightarrow> bool" where
  \<comment> \<open>the first map indexes exactly the systems of the second by name\<close>
  "name_index N B \<longleftrightarrow> (\<forall>n r. N n = Some r \<longleftrightarrow> B (sys_id r) = Some r \<and> sys_name r = n)"

lemma name_index_put:
  assumes index: "name_index N B"
    and free: "\<And>k r'. B k = Some r' \<Longrightarrow> sys_name r' = sys_name r \<Longrightarrow> k = sys_id r"
    and same: "\<And>r'. B (sys_id r) = Some r' \<Longrightarrow> sys_name r' = sys_name r"
  shows "name_index (N(sys_name r \<mapsto> r)) (B(sys_id r \<mapsto> r))"
  unfolding name_index_def
proof (intro allI)
  fix n r2
  have N: "N n = Some r2 \<longleftrightarrow> B (sys_id r2) = Some r2 \<and> sys_name r2 = n"
    using index by (simp add: name_index_def)
  show "(N(sys_name r \<mapsto> r)) n = Some r2
      \<longleftrightarrow> (B(sys_id r \<mapsto> r)) (sys_id r2) = Some r2 \<and> sys_name r2 = n"
    using N free [of "sys_id r2" r2] same [of r2] by (cases "sys_id r2 = sys_id r") auto
qed

lemma name_index_drop:
  assumes index: "name_index N B" and "B i = Some old" and "sys_id old = i"
  shows "name_index (N(sys_name old := None)) (B(i := None))"
  unfolding name_index_def
proof (intro allI)
  fix n r2
  have N: "N n = Some r2 \<longleftrightarrow> B (sys_id r2) = Some r2 \<and> sys_name r2 = n"
    and old: "N (sys_name old) = Some old"
    using assms by (simp_all add: name_index_def)
  show "(N(sys_name old := None)) n = Some r2 \<longleftrightarrow> (B(i := None)) (sys_id r2) = Some r2 \<and> sys_name r2 = n"
    using N old assms(2,3) by (cases "n = sys_name old"; cases "sys_id r2 = i") auto
qed

lemma name_index_unnamed:
  assumes "name_index N B" and "\<And>k r. B k = Some r \<Longrightarrow> sys_name r \<noteq> n"
  shows "N(n := None) = N"
proof -
  have "N n = None" using assms by (cases "N n") (auto simp: name_index_def)
  then show ?thesis by auto
qed

definition name_free :: "string \<Rightarrow> string \<Rightarrow> sm_state \<Rightarrow> bool" where
  \<comment> \<open>no system but the one with this id has the name\<close>
  "name_free n i s = list_all (\<lambda>(k, r). sys_name r = n \<longrightarrow> k = i) (allSystemsById s)"

definition orderly :: "string \<times> system_record \<Rightarrow> sm_state \<Rightarrow> bool" where
  \<comment> \<open>names are unique, a known system is renamed by update only, a delete carries the name of
      the system, and nothing is called undefined\<close>
  "orderly e s =
     (let r = snd e; old = map_option sys_name (map_of (allSystemsById s) (sys_id r))
      in sys_id r \<noteq> '''' \<and> name_free (sys_name r) (sys_id r) s
         \<and> list_all (\<lambda>(k, r). sys_name r \<noteq> ''undefined'') (allSystemsById s)
         \<and> (fst e = ''update'' \<or> old \<in> {None, Some (sys_name r)}))"

fun orderly_run :: "system_set_key \<Rightarrow> (string \<times> system_record) list \<Rightarrow> sm_state \<Rightarrow> bool" where
  "orderly_run sk [] s = True"
| "orderly_run sk (e # es) s = (orderly e s \<and> orderly_run sk es (sm_event sk e s))"

lemma name_freeD:
  "name_free n i s \<Longrightarrow> map_of (allSystemsById s) k = Some r \<Longrightarrow> sys_name r = n \<Longrightarrow> k = i"
  by (auto simp: name_free_def list_all_iff dest: map_of_SomeD)

lemma no_undefinedD:
  "list_all (\<lambda>(k, r). sys_name r \<noteq> ''undefined'') (allSystemsById s) \<Longrightarrow>
     map_of (allSystemsById s) k = Some r \<Longrightarrow> sys_name r \<noteq> ''undefined''"
  by (auto simp: list_all_iff dest: map_of_SomeD)

lemma byName_sel [simp]:
  "allSystemsByName (setById sk k v s) = allSystemsByName s"
  "allSystemsByName (drop_from_stores sk r s) = allSystemsByName s"
  "allSystemsByName (setByName sk k v s) = sk k v (allSystemsByName s)"
  by (simp_all add: setById_def systems_listener_def drop_from_stores_def setByName_def Let_def
      split: option.splits)

definition sm_names_ok :: "sm_state \<Rightarrow> bool" where
  "sm_names_ok s = name_index (map_of (allSystemsByName s)) (map_of (allSystemsById s))"

context system_stores
begin

lemma sm_add_names:
  assumes "sm_inv s" and "sm_names_ok s" and "sys_id r \<noteq> ''''" and "validSystemInfo r"
    and free: "name_free (sys_name r) (sys_id r) s"
    and "\<And>o'. map_of (allSystemsById s) (sys_id r) = Some o' \<Longrightarrow> sys_name o' = sys_name r"
  shows "sm_names_ok (sm_add sk r s)"
proof -
  have "sm_names_ok (sm_add sk r s) =
     name_index ((map_of (allSystemsByName s))(sys_name r \<mapsto> r)) ((map_of (allSystemsById s))(sys_id r \<mapsto> r))"
    using assms by (simp add: sm_names_ok_def sm_add_def setById_Some_byId sm_inv_def)
  then show ?thesis
    using name_index_put [OF _ name_freeD [OF free] assms(6)] assms(2) by (simp add: sm_names_ok_def)
qed

lemma sm_update_rename_names:
  assumes "sm_inv s" and "sm_names_ok s" and "sys_id r \<noteq> ''''" and "validSystemInfo r"
    and free: "name_free (sys_name r) (sys_id r) s"
    and old: "map_of (allSystemsById s) (sys_id r) = Some old" and "sys_name old \<noteq> sys_name r"
  shows "sm_names_ok (sm_update sk r s)"
proof -
  have "sys_id old = sys_id r" using assms(1) old by (simp add: sm_inv_def keys_ok_def)
  then have "name_index ((map_of (allSystemsByName s))(sys_name old := None))
      ((map_of (allSystemsById s))(sys_id r := None))"
    using name_index_drop [of _ _ "sys_id r" old] assms(2) old by (simp add: sm_names_ok_def)
  then have "name_index ((map_of (allSystemsByName s))(sys_name old := None, sys_name r \<mapsto> r))
      (((map_of (allSystemsById s))(sys_id r := None))(sys_id r \<mapsto> r))"
    by (rule name_index_put) (auto split: if_splits dest: name_freeD [OF free])
  then show ?thesis
    using assms by (simp add: sm_update_def sm_add_def sm_names_ok_def setById_Some_byId sm_inv_def)
qed

lemma sm_update_new_names:
  assumes "sm_inv s" and "sm_names_ok s" and "sys_id r \<noteq> ''''" and "validSystemInfo r"
    and free: "name_free (sys_name r) (sys_id r) s"
    and "list_all (\<lambda>(k, r). sys_name r \<noteq> ''undefined'') (allSystemsById s)"
    and new: "map_of (allSystemsById s) (sys_id r) = None"
  shows "sm_names_ok (sm_update sk r s)"
proof -
  have "(map_of (allSystemsByName s))(''undefined'' := None) = map_of (allSystemsByName s)"
    using name_index_unnamed [OF _ no_undefinedD [OF assms(6)]] assms(2) by (simp add: sm_names_ok_def)
  moreover have "name_index ((map_of (allSystemsByName s))(sys_name r \<mapsto> r)) ((map_of (allSystemsById s))(sys_id r \<mapsto> r))"
    by (rule name_index_put) (use assms(2) new name_freeD [OF free] in \<open>auto simp: sm_names_ok_def\<close>)
  ultimately show ?thesis
    using assms by (simp add: sm_update_def sm_add_def sm_names_ok_def setById_Some_byId sm_inv_def)
qed

lemma sm_remove_names:
  assumes "sm_inv s" and "sm_names_ok s" and free: "name_free (sys_name r) (sys_id r) s"
    and "map_option sys_name (map_of (allSystemsById s) (sys_id r)) \<in> {None, Some (sys_name r)}"
  shows "sm_names_ok (sm_remove sk r s)"
proof (cases "map_of (allSystemsById s) (sys_id r)")
  case None
  have "(map_of (allSystemsByName s))(sys_name r := None) = map_of (allSystemsByName s)"
    using name_index_unnamed [of _ _ "sys_name r"] assms(2) name_freeD [OF free] None
    by (metis option.distinct(1) sm_names_ok_def)
  with None show ?thesis
    using assms by (simp add: sm_remove_def sm_names_ok_def setById_absent drop_from_stores_def Let_def)
next
  case (Some old)
  then have "sys_id old = sys_id r" "sys_name old = sys_name r"
    using assms by (simp_all add: sm_inv_def keys_ok_def)
  then have "name_index ((map_of (allSystemsByName s))(sys_name r := None))
      ((map_of (allSystemsById s))(sys_id r := None))"
    using name_index_drop [of _ _ "sys_id r" old] assms(2) Some by (simp add: sm_names_ok_def)
  then show ?thesis
    using assms by (simp add: sm_remove_def sm_names_ok_def setById_None_byId drop_from_stores_def Let_def)
qed

lemma sm_event_names:
  assumes inv: "sm_inv s" and names: "sm_names_ok s" and o': "orderly e s"
  shows "sm_names_ok (sm_event sk e s)"
proof -
  obtain a r where e: "e = (a, r)" by (cases e)
  have id: "sys_id r \<noteq> ''''" and free: "name_free (sys_name r) (sys_id r) s"
    and undef: "list_all (\<lambda>(k, r). sys_name r \<noteq> ''undefined'') (allSystemsById s)"
    and old: "a = ''update'' \<or> map_option sys_name (map_of (allSystemsById s) (sys_id r)) \<in> {None, Some (sys_name r)}"
    using o' by (simp_all add: orderly_def e Let_def)
  have add: "sm_names_ok (sm_add sk r s)"
    if "map_option sys_name (map_of (allSystemsById s) (sys_id r)) \<in> {None, Some (sys_name r)}"
    using sm_add_names [OF inv names id _ free] that names
    by (cases "validSystemInfo r") (auto simp: sm_add_def)
  have upd: "sm_names_ok (sm_update sk r s)"
  proof (cases "validSystemInfo r")
    case valid: True
    show ?thesis
    proof (cases "map_of (allSystemsById s) (sys_id r)")
      case None
      then show ?thesis by (rule sm_update_new_names [OF inv names id valid free undef])
    next
      case (Some o2)
      show ?thesis
      proof (cases "sys_name o2 = sys_name r")
        case True
        then show ?thesis using add Some valid by (simp add: sm_update_def)
      next
        case False
        then show ?thesis by (rule sm_update_rename_names [OF inv names id valid free Some])
      qed
    qed
  next
    case False
    then show ?thesis using names by (simp add: sm_update_def)
  qed
  have rem: "sm_names_ok (sm_remove sk r s)" if "a = ''delete''"
    using sm_remove_names [OF inv names free] old that by auto
  show ?thesis
    using add upd rem names old by (auto simp: sm_event_def e)
qed

lemma orderly_run_names:
  "sm_inv s \<Longrightarrow> sm_names_ok s \<Longrightarrow> orderly_run sk es s \<Longrightarrow> sm_names_ok (fold (sm_event sk) es s)"
proof (induction es arbitrary: s)
  case (Cons e es)
  then have "sm_inv (sm_event sk e s)"
    by (intro sm_event_inv) (simp_all add: orderly_def Let_def)
  then show ?case using Cons sm_event_names by simp
qed simp

end

lemma system_storesI: "set_key_documented sk \<Longrightarrow> system_stores sk"
  by (simp add: system_stores_def map_store_documented)

interpretation js_systems: system_stores js_set_key
  by (rule system_storesI) (rule js_set_key_documented)

text \<open>
  C9. The by-name index is exact: on a run of orderly events (unique names, renames by update,
  deletes carrying the current name, no system called undefined) the by-name store holds a record
  under a name exactly when the by-id store holds it and it has that name, so a renamed or
  deleted system leaves no entry behind.
\<close>
theorem by_name_index_exact:
  assumes "set_key_documented sk" and "orderly_run sk es (sm_init sm_initial)"
  shows "map_of (allSystemsByName (fold (sm_event sk) es (sm_init sm_initial))) n = Some r
     \<longleftrightarrow> map_of (allSystemsById (fold (sm_event sk) es (sm_init sm_initial))) (sys_id r) = Some r
         \<and> sys_name r = n"
proof -
  have "sm_names_ok (sm_init sm_initial)"
    by (simp add: sm_names_ok_def name_index_def sm_init_def sm_initial_def)
  then have "sm_names_ok (fold (sm_event sk) es (sm_init sm_initial))"
    using system_stores.orderly_run_names [OF system_storesI [OF assms(1)] sm_inv_initial _ assms(2)] by blast
  then show ?thesis by (simp add: sm_names_ok_def name_index_def)
qed

definition rename_events :: "(string \<times> system_record) list" where
  "rename_events = [(''create'', sample_system ''a'' ''alpha'' Up),
     (''update'', sample_system ''a'' ''omega'' Up), (''create'', sample_system ''b'' ''alpha'' Down)]"

lemma rename_events_orderly: "orderly_run js_set_key rename_events (sm_init sm_initial)"
  by code_simp

theorem by_name_index_exact_witness:
  "map_of (allSystemsByName (fold (sm_event js_set_key) rename_events (sm_init sm_initial))) ''alpha''
       = Some (sample_system ''b'' ''alpha'' Down)
     \<longleftrightarrow> map_of (allSystemsById (fold (sm_event js_set_key) rename_events (sm_init sm_initial)))
             (sys_id (sample_system ''b'' ''alpha'' Down)) = Some (sample_system ''b'' ''alpha'' Down)
         \<and> sys_name (sample_system ''b'' ''alpha'' Down) = ''alpha''"
  by (rule by_name_index_exact [OF js_set_key_documented rename_events_orderly])

text \<open>
  refresh does not repair the index: it stores what it fetched with add, which never removes
  an old name, so a system renamed while events were missed stays listed under its old name too.
\<close>
theorem refresh_keeps_stale_name:
  assumes "set_key_documented sk" and "map_of (allSystemsByName s) n = Some old"
    and "n \<notin> sys_name ` set (orelse response [])"
  shows "map_of (allSystemsByName (sm_refresh sk response s)) n = Some old"
proof -
  have sk: "map_of (sk k v m) = (map_of m)(k := v)" for k v m
    using assms(1) by (simp add: set_key_documented_def)
  have "n \<notin> sys_name ` set rs \<Longrightarrow> map_of (allSystemsByName s) n = Some old \<Longrightarrow>
      map_of (allSystemsByName (fold (sm_add sk) rs s)) n = Some old" for rs
    by (induction rs arbitrary: s) (simp_all add: sm_add_def sk)
  then show ?thesis using assms by (simp add: sm_refresh_def fetchSystems_def)
qed

theorem refresh_keeps_stale_name_witness:
  "map_of (allSystemsByName (sm_refresh js_set_key (Some [sample_system ''a'' ''omega'' Up])
      (sm_initial\<lparr>allSystemsByName := [(''alpha'', sample_system ''a'' ''alpha'' Up)]\<rparr>))) ''alpha''
     = Some (sample_system ''a'' ''alpha'' Up)"
  by (rule refresh_keeps_stale_name [OF js_set_key_documented]) (simp_all add: sample_system_def)

end
