(* ===== verification/Lib_Timing.thy ===== *)
theory Lib_Timing
  imports Types
begin

section \<open>Timers: debounce and runOnce of lib/utils.ts\<close>

text \<open>
  A call restarts a timer, and the timer's callback runs once no call has come for the waiting
  time: the debounce of lib/utils.ts, used by the alert settings, and the batching of realtime
  alert events in lib/alerts.ts. The interface trailing_timer states what such a timer is; its
  lemma says which calls take effect: time-ordered calls fall into bursts, and each burst is
  emitted once. The other part is runOnce and its cache.
\<close>

subsection \<open>The interface of trailing timers\<close>

text \<open>
  The run of a timer on calls with their times in milliseconds: a timer that is due by the time
  of a call fires before the call; after the last call time goes on until the timer fires.
\<close>

fun run_timer ::
  "(int \<Rightarrow> 'e \<Rightarrow> 's \<Rightarrow> 's) \<Rightarrow> ('s \<Rightarrow> 'o \<times> 's) \<Rightarrow> ('s \<Rightarrow> int option) \<Rightarrow> (int \<times> 'e) list \<Rightarrow> 's \<Rightarrow> 'o list" where
  "run_timer call fire due [] s = (case due s of None \<Rightarrow> [] | Some _ \<Rightarrow> [fst (fire s)])"
| "run_timer call fire due ((now, e) # es) s =
     (if case due s of None \<Rightarrow> False | Some d \<Rightarrow> d \<le> now
      then fst (fire s) # run_timer call fire due es (call now e (snd (fire s)))
      else run_timer call fire due es (call now e s))"

fun bursts :: "int \<Rightarrow> (int \<times> 'e) list \<Rightarrow> 'e list list" where
  \<comment> \<open>the calls cut wherever the next one is at least the waiting time later\<close>
  "bursts wait [] = []"
| "bursts wait [(t, e)] = [[e]]"
| "bursts wait ((t, e) # (t', e') # es) =
     (if t + wait \<le> t' then [e] # bursts wait ((t', e') # es)
      else (case bursts wait ((t', e') # es) of [] \<Rightarrow> [[e]] | b # bs \<Rightarrow> (e # b) # bs))"

lemma bursts_Cons_not_Nil: "bursts wait (c # es) \<noteq> []"
proof (induction es arbitrary: c)
  case Nil
  then show ?case by (cases c) simp
next
  case (Cons c' es)
  then show ?case by (cases c; cases c') (auto split: list.splits)
qed

lemma concat_bursts: "concat (bursts wait es) = map snd es"
proof (induction wait es rule: bursts.induct)
  case (3 wait t e t' e' es)
  then show ?case
    using bursts_Cons_not_Nil [of wait "(t', e')" es] by (auto split: list.splits)
qed simp_all

lemma bursts_not_empty: "b \<in> set (bursts wait es) \<Longrightarrow> b \<noteq> []"
proof (induction wait es arbitrary: b rule: bursts.induct)
  case (3 wait t e t' e' es)
  then show ?case by (auto split: if_splits list.splits)
qed simp_all

locale trailing_timer =
  fixes call :: "int \<Rightarrow> 'e \<Rightarrow> 's \<Rightarrow> 's"
    and fire :: "'s \<Rightarrow> 'o \<times> 's"
    and due :: "'s \<Rightarrow> int option"
    and idle :: 's
    and wait :: int
    and content :: "'s \<Rightarrow> 'c"
    and absorb :: "'e \<Rightarrow> 'c \<Rightarrow> 'c"
    and emit :: "'c \<Rightarrow> 'o"
  assumes due_idle: "due idle = None"
    and due_call: "due (call now e s) = Some (now + wait)"
    and content_call: "content (call now e s) = absorb e (content s)"
    and fire_out: "fst (fire s) = emit (content s)"
    and fire_idle: "snd (fire s) = idle"
begin

lemma run_after_call:
  "run_timer call fire due es (call t e s) =
     (case bursts wait ((t, e) # es) of
        [] \<Rightarrow> []
      | b # bs \<Rightarrow> emit (fold absorb b (content s))
                 # map (\<lambda>b. emit (fold absorb b (content idle))) bs)"
proof (induction es arbitrary: t e s)
  case Nil
  then show ?case by (simp add: due_call fire_out content_call)
next
  case (Cons c es)
  obtain t' e' where c: "c = (t', e')" by (cases c)
  show ?case
  proof (cases "t + wait \<le> t'")
    case True
    then show ?thesis
      using Cons.IH [of t' e' idle] bursts_Cons_not_Nil [of wait "(t', e')" es]
      by (auto simp: c due_call fire_out content_call fire_idle split: list.splits)
  next
    case False
    then show ?thesis
      using Cons.IH [of t' e' "call t e s"] bursts_Cons_not_Nil [of wait "(t', e')" es]
      by (auto simp: c due_call content_call split: list.splits)
  qed
qed

lemma run_idle:
  "run_timer call fire due es idle = map (\<lambda>b. emit (fold absorb b (content idle))) (bursts wait es)"
proof (cases es)
  case Nil
  then show ?thesis by (simp add: due_idle)
next
  case (Cons c es')
  then show ?thesis
    using run_after_call [of es' "fst c" "snd c" idle] bursts_Cons_not_Nil [of wait c es']
    by (cases c) (auto simp: due_idle split: list.splits)
qed

end

subsection \<open>debounce\<close>

text \<open>The closure's state: the pending timeout with the time it is due and the arguments it will pass.\<close>

type_synonym 'a timeout = "(int \<times> 'a) option"

definition debounce_call :: "int \<Rightarrow> int \<Rightarrow> 'a \<Rightarrow> 'a timeout \<Rightarrow> 'a timeout" where
  \<comment> \<open>clearTimeout drops the pending timeout, setTimeout starts another\<close>
  "debounce_call wait now args timeout = Some (now + wait, args)"

definition debounce_fire :: "'a timeout \<Rightarrow> 'a option \<times> 'a timeout" where
  \<comment> \<open>the callback: the arguments func is called with\<close>
  "debounce_fire timeout = (map_option snd timeout, None)"

definition debounce_due :: "'a timeout \<Rightarrow> int option" where
  "debounce_due timeout = map_option fst timeout"

definition debounced :: "int \<Rightarrow> (int \<times> 'a) list \<Rightarrow> 'a list" where
  \<comment> \<open>the arguments func is called with on the timed calls of the debounced function\<close>
  "debounced wait calls =
     List.map_filter id (run_timer (debounce_call wait) debounce_fire debounce_due calls None)"

interpretation dbn: trailing_timer "debounce_call wait" debounce_fire debounce_due None wait
    "map_option snd" "\<lambda>a _. Some a" id
  for wait
  by unfold_locales (simp_all add: debounce_call_def debounce_fire_def debounce_due_def)

lemma fold_last: "b \<noteq> [] \<Longrightarrow> fold (\<lambda>a _. Some a) b c = Some (last b)"
  by (induction b rule: rev_induct) simp_all

lemma map_filter_last: "(\<And>b. b \<in> set bs \<Longrightarrow> b \<noteq> []) \<Longrightarrow>
   List.map_filter id (map (\<lambda>b. id (fold (\<lambda>a _. Some a) b (map_option snd None))) bs) = map last bs"
  by (induction bs) (auto simp: List.map_filter_def fold_last)

text \<open>
  C24. A debounced function runs once for each burst of calls, with the arguments of the burst's
  last call: no other call ever takes effect.
\<close>
theorem debounce_last_of_burst:
  "debounced wait calls = map last (bursts wait calls)"
  unfolding debounced_def dbn.run_idle
  by (rule map_filter_last) (rule bursts_not_empty)

lemma debounced_single: "debounced wait [(t, a)] = [a]"
  by (simp add: debounced_def debounce_call_def debounce_fire_def debounce_due_def List.map_filter_def)

lemma debounced_two:
  "debounced wait [(t, a), (t', b)] = (if t + wait \<le> t' then [a, b] else [b])"
  by (simp add: debounced_def debounce_call_def debounce_fire_def debounce_due_def List.map_filter_def)

subsection \<open>runOnce\<close>

text \<open>An entry of the cache: done and result. A call that throws gives \<^term>\<open>Inl\<close> the error.\<close>

definition runOnce ::
  "('a \<Rightarrow> 'x + 'r) \<Rightarrow> 'a \<Rightarrow> (bool \<times> 'r option) option \<times> 'a list \<Rightarrow>
   ('x + 'r option) \<times> ((bool \<times> 'r option) option \<times> 'a list)" where
  \<comment> \<open>the state: fn's cache entry, and the arguments fn has been called with\<close>
  "runOnce fn args st =
     (let (cached, calls) = st;
          (is_done, res) = orelse cached (False, None)
      in if \<not> is_done then
           (case fn args of
              Inl x \<Rightarrow> (Inl x, (Some (is_done, res), calls @ [args]))
            | Inr r \<Rightarrow> (Inr (Some r), (Some (True, Some r), calls @ [args])))
         else (Inr res, (Some (is_done, res), calls)))"

fun runOnce_calls ::
  "('a \<Rightarrow> 'x + 'r) \<Rightarrow> 'a list \<Rightarrow> (bool \<times> 'r option) option \<times> 'a list \<Rightarrow> ('x + 'r option) list \<times> 'a list" where
  "runOnce_calls fn [] st = ([], snd st)"
| "runOnce_calls fn (a # as) st =
     (let (r, st') = runOnce fn a st; (rs, calls) = runOnce_calls fn as st' in (r # rs, calls))"

definition throws :: "('a \<Rightarrow> 'x + 'r) \<Rightarrow> 'a \<Rightarrow> bool" where
  "throws fn a = (case fn a of Inl _ \<Rightarrow> True | Inr _ \<Rightarrow> False)"

lemma runOnce_calls_done:
  "runOnce_calls fn as (Some (True, res), calls) = (replicate (length as) (Inr res), calls)"
  by (induction as) (simp_all add: runOnce_def)

lemma runOnce_calls_fresh:
  assumes "cached \<in> {None, Some (False, None)}"
  shows "runOnce_calls fn as (cached, calls) =
     (map (map_sum id Some \<circ> fn) (takeWhile (throws fn) as)
        @ (case dropWhile (throws fn) as of [] \<Rightarrow> []
           | a # rest \<Rightarrow> replicate (length (a # rest)) (map_sum id Some (fn a))),
      calls @ takeWhile (throws fn) as @ take 1 (dropWhile (throws fn) as))"
  using assms
proof (induction as arbitrary: cached calls)
  case Nil
  then show ?case by simp
next
  case (Cons a as)
  show ?case
  proof (cases "fn a")
    case (Inl x)
    then show ?thesis
      using Cons by (auto simp: runOnce_def throws_def)
  next
    case (Inr r)
    then show ?thesis
      using Cons.prems by (auto simp: runOnce_def throws_def runOnce_calls_done)
  qed
qed

text \<open>
  runOnce calls the function until the first call that does not throw and never again: every
  later call, whatever its arguments, returns that first result.
\<close>
theorem runOnce_at_most_one_success:
  "runOnce_calls fn as (None, []) =
     (map (map_sum id Some \<circ> fn) (takeWhile (throws fn) as)
        @ (case dropWhile (throws fn) as of [] \<Rightarrow> []
           | a # rest \<Rightarrow> replicate (length (a # rest)) (map_sum id Some (fn a))),
      takeWhile (throws fn) as @ take 1 (dropWhile (throws fn) as))"
  by (simp add: runOnce_calls_fresh)

end
