(* ===== verification/Alert_Manager.thy ===== *)
theory Alert_Manager
  imports Realtime_Feed Nanostores Lib_Timing
begin

section \<open>Alerts: lib/alerts.ts\<close>

text \<open>
  The alert types, the store $alerts (by system id, then by alert name) and the alert manager:
  add and remove, the batching of realtime events behind a 50 ms timer, and refresh. The lemmas
  show that the store is a record feed keyed by system and name, and that the batching, which
  keeps the last event of each key and applies creates, updates and deletes in groups, has the
  effect of applying every event in order.
\<close>

subsection \<open>Alert types\<close>

record alert_info =
  ai_name :: string
  ai_unit :: string
  ai_desc :: string
  ai_singleDesc :: "string option"
  ai_max :: "rat option"
  ai_min :: "rat option"
  ai_start :: "rat option"
  ai_step :: "rat option"

definition plain_alert_info :: "string \<Rightarrow> string \<Rightarrow> string \<Rightarrow> alert_info" where
  "plain_alert_info n u d = \<lparr>ai_name = n, ai_unit = u, ai_desc = d, ai_singleDesc = None,
     ai_max = None, ai_min = None, ai_start = None, ai_step = None\<rparr>"

definition load_alert_info :: "string \<Rightarrow> string \<Rightarrow> alert_info" where
  "load_alert_info n d = (plain_alert_info n '''' d)
     \<lparr>ai_max := Some 100, ai_min := Some (1 / 10), ai_start := Some 10, ai_step := Some (1 / 10)\<rparr>"

definition alertInfo :: "(string \<times> alert_info) list" where
  "alertInfo =
    [(''Status'', (plain_alert_info ''Status'' '''' ''Triggers when status switches between up and down'')
        \<lparr>ai_singleDesc := Some (''System'' @ '' '' @ ''Down'')\<rparr>),
     (''CPU'', plain_alert_info ''CPU Usage'' ''%'' ''Triggers when CPU usage exceeds a threshold''),
     (''Memory'', plain_alert_info ''Memory Usage'' ''%'' ''Triggers when memory usage exceeds a threshold''),
     (''Disk'', plain_alert_info ''Disk Usage'' ''%'' ''Triggers when usage of any disk exceeds a threshold''),
     (''Bandwidth'', (plain_alert_info ''Bandwidth'' '' MB/s'' ''Triggers when combined up/down exceeds a threshold'')
        \<lparr>ai_max := Some 250\<rparr>),
     (''GPU'', plain_alert_info ''GPU Usage'' ''%'' ''Triggers when GPU usage exceeds a threshold''),
     (''LoadAvg1'', load_alert_info ''Load Average 1m'' ''Triggers when 1 minute load average exceeds a threshold''),
     (''LoadAvg5'', load_alert_info ''Load Average 5m'' ''Triggers when 5 minute load average exceeds a threshold''),
     (''LoadAvg15'', load_alert_info ''Load Average 15m'' ''Triggers when 15 minute load average exceeds a threshold'')]"

lemma alertInfo_names: "map fst alertInfo =
   [''Status'', ''CPU'', ''Memory'', ''Disk'', ''Bandwidth'', ''GPU'', ''LoadAvg1'', ''LoadAvg5'', ''LoadAvg15'']"
  by (simp add: alertInfo_def)

subsection \<open>The store\<close>

type_synonym system_alerts = "(string \<times> alert_record) list"
type_synonym alerts_store = "(string \<times> system_alerts) list"
type_synonym alerts_set_key = "(string, system_alerts) set_key"

definition add_alert :: "alerts_set_key \<Rightarrow> alert_record \<Rightarrow> alerts_store \<Rightarrow> alerts_store" where
  "add_alert set_key alert store =
     (let systemId = al_system alert;
          systemAlerts = orelse (map_of store systemId) [];
          newAlerts = AList.update (al_name alert) alert systemAlerts
      in set_key systemId (Some newAlerts) store)"

definition alerts_add :: "alerts_set_key \<Rightarrow> alert_record list \<Rightarrow> alerts_store \<Rightarrow> alerts_store" where
  "alerts_add set_key alerts store = fold (add_alert set_key) alerts store"

definition remove_alert :: "alerts_set_key \<Rightarrow> alert_record \<Rightarrow> alerts_store \<Rightarrow> alerts_store" where
  \<comment> \<open>new Map(undefined) is an empty map\<close>
  "remove_alert set_key alert store =
     (let systemId = al_system alert;
          systemAlerts = map_of store systemId;
          newAlerts = AList.delete (al_name alert) (orelse systemAlerts [])
      in set_key systemId (Some newAlerts) store)"

definition alerts_remove :: "alerts_set_key \<Rightarrow> alert_record list \<Rightarrow> alerts_store \<Rightarrow> alerts_store" where
  "alerts_remove set_key alerts store = fold (remove_alert set_key) alerts store"

definition alerts_action :: "alerts_set_key \<Rightarrow> string \<times> alert_record list \<Rightarrow> alerts_store \<Rightarrow> alerts_store" where
  \<comment> \<open>actionFns[action]?.(records)\<close>
  "alerts_action set_key c store =
     (if fst c = ''create'' \<or> fst c = ''update'' then alerts_add set_key (snd c) store
      else if fst c = ''delete'' then alerts_remove set_key (snd c) store
      else store)"

definition alerts_refresh :: "alerts_set_key \<Rightarrow> alert_record list \<Rightarrow> alerts_store \<Rightarrow> alerts_store" where
  "alerts_refresh set_key records store = alerts_add set_key records store"

subsection \<open>Batching\<close>

text \<open>The closure's state: the batch, a map from system and name to the last event, and when the timeout is due.\<close>

record batch_state =
  batch :: "(string \<times> (string \<times> alert_record)) list"
  batch_timeout :: "int option"

definition batch_key :: "string \<times> alert_record \<Rightarrow> string" where
  "batch_key data = al_system (snd data) @ al_name (snd data)"

definition batchUpdate :: "int \<Rightarrow> string \<times> alert_record \<Rightarrow> batch_state \<Rightarrow> batch_state" where
  \<comment> \<open>called at time now with a subscription event\<close>
  "batchUpdate now data st =
     st\<lparr>batch := AList.update (batch_key data) data (batch st), batch_timeout := Some (now + 50)\<rparr>"

definition batch_groups :: "(string \<times> (string \<times> alert_record)) list \<Rightarrow> (string \<times> alert_record list) list" where
  \<comment> \<open>groups: the records by action; an action with no group is dropped\<close>
  "batch_groups b =
     map (\<lambda>action. (action, map snd (filter (\<lambda>data. fst data = action) (map snd b))))
       [''create'', ''update'', ''delete'']"

definition flush_batch :: "batch_state \<Rightarrow> (string \<times> alert_record list) list \<times> batch_state" where
  \<comment> \<open>the timeout's callback: the calls of actionFns, and the cleared batch\<close>
  "flush_batch st =
     (filter (\<lambda>g. snd g \<noteq> []) (batch_groups (batch st)), \<lparr>batch = [], batch_timeout = None\<rparr>)"

definition idle_batch :: batch_state where
  "idle_batch = \<lparr>batch = [], batch_timeout = None\<rparr>"

definition batched_store ::
  "alerts_set_key \<Rightarrow> (int \<times> (string \<times> alert_record)) list \<Rightarrow> alerts_store \<Rightarrow> alerts_store" where
  \<comment> \<open>the store once the timed events have come and the last timeout has run\<close>
  "batched_store set_key events store =
     fold (alerts_action set_key) (concat (run_timer batchUpdate flush_batch batch_timeout events idle_batch)) store"

subsection \<open>The store is a record feed\<close>

definition alert_key :: "alert_record \<Rightarrow> string \<times> string" where
  "alert_key r = (al_system r, al_name r)"

definition alert_view :: "alerts_store \<Rightarrow> string \<times> string \<Rightarrow> alert_record option" where
  "alert_view store k = (case map_of store (fst k) of Some m \<Rightarrow> map_of m (snd k) | None \<Rightarrow> None)"

definition alerts_event :: "alerts_set_key \<Rightarrow> string \<times> alert_record \<Rightarrow> alerts_store \<Rightarrow> alerts_store" where
  \<comment> \<open>one event on its own\<close>
  "alerts_event set_key e = alerts_action set_key (fst e, [snd e])"

lemma add_alert_view:
  "set_key_documented sk \<Longrightarrow> alert_view (add_alert sk r s) = (alert_view s)(alert_key r \<mapsto> r)"
  by (auto simp: add_alert_def alert_view_def alert_key_def set_key_documented_def fun_eq_iff Let_def
      split: option.splits)

lemma remove_alert_view:
  "set_key_documented sk \<Longrightarrow> alert_view (remove_alert sk r s) = (alert_view s)(alert_key r := None)"
  by (auto simp: remove_alert_def alert_view_def alert_key_def set_key_documented_def fun_eq_iff Let_def
      split: option.splits)

lemma alerts_event_view:
  "set_key_documented sk \<Longrightarrow>
     alert_view (alerts_event sk e s) = feed_step alert_key (\<lambda>_. True) e (alert_view s)"
  by (auto simp: alerts_event_def alerts_action_def alerts_add_def alerts_remove_def feed_step_def
      add_alert_view remove_alert_view)

interpretation amf: record_feed alert_key "\<lambda>_. True" "\<lambda>_. True" "alerts_event sk"
    "\<lambda>_. set_key_documented sk" alert_view for sk
  by unfold_locales (auto simp: alerts_event_view)

interpretation abatch: trailing_timer batchUpdate flush_batch batch_timeout idle_batch 50
    batch "\<lambda>e b. AList.update (batch_key e) e b" "\<lambda>b. filter (\<lambda>g. snd g \<noteq> []) (batch_groups b)"
  by unfold_locales (simp_all add: idle_batch_def batchUpdate_def flush_batch_def)

subsection \<open>Batching changes nothing\<close>

definition flush_events :: "(string \<times> (string \<times> alert_record)) list \<Rightarrow> (string \<times> alert_record) list" where
  \<comment> \<open>the events of a flushed batch in the order in which they are applied\<close>
  "flush_events b = concat (map (\<lambda>a. filter (\<lambda>d. fst d = a) (map snd b)) [''create'', ''update'', ''delete''])"

definition known_action :: "string \<times> alert_record \<Rightarrow> bool" where
  "known_action e \<longleftrightarrow> fst e \<in> {''create'', ''update'', ''delete''}"

definition batch_of :: "(string \<times> alert_record) list \<Rightarrow> (string \<times> (string \<times> alert_record)) list" where
  "batch_of es = fold (\<lambda>e b. AList.update (batch_key e) e b) es []"

lemma alerts_action_events: "alerts_action sk (a, rs) s = fold (alerts_event sk) (map (Pair a) rs) s"
proof -
  have "fold (add_alert sk) rs s = fold (alerts_event sk) (map (Pair a) rs) s"
    if "a = ''create'' \<or> a = ''update''" for s
    using that by (induction rs arbitrary: s)
      (auto simp: alerts_event_def alerts_action_def alerts_add_def)
  moreover have "fold (remove_alert sk) rs s = fold (alerts_event sk) (map (Pair a) rs) s"
    if "a = ''delete''" for s
    using that by (induction rs arbitrary: s)
      (auto simp: alerts_event_def alerts_action_def alerts_remove_def)
  moreover have "fold (alerts_event sk) (map (Pair a) rs) s = s"
    if "a \<notin> {''create'', ''update'', ''delete''}"
    using that by (induction rs arbitrary: s) (auto simp: alerts_event_def alerts_action_def)
  ultimately show ?thesis
    by (auto simp: alerts_action_def alerts_add_def alerts_remove_def)
qed

lemma pair_filter: "map (Pair a) (map snd (filter (\<lambda>d. fst d = a) xs)) = filter (\<lambda>d. fst d = a) xs"
  by (induction xs) auto

lemma flush_apply:
  "fold (alerts_action sk) (filter (\<lambda>g. snd g \<noteq> []) (batch_groups b)) s = fold (alerts_event sk) (flush_events b) s"
proof -
  have "fold (alerts_action sk) (filter (\<lambda>g. snd g \<noteq> []) (map (\<lambda>a. (a, map snd (filter (\<lambda>d. fst d = a) xs))) as)) s
      = fold (alerts_event sk) (concat (map (\<lambda>a. filter (\<lambda>d. fst d = a) xs) as)) s" for as xs s
  proof (induction as arbitrary: s)
    case (Cons a as)
    have "alerts_action sk (a, map snd (filter (\<lambda>d. fst d = a) xs)) s
        = fold (alerts_event sk) (filter (\<lambda>d. fst d = a) xs) s" for s
      unfolding alerts_action_events pair_filter ..
    moreover have "filter (\<lambda>d. fst d = a) xs = []" if "map snd (filter (\<lambda>d. fst d = a) xs) = []"
      using that by simp
    ultimately show ?case using Cons by (cases "filter (\<lambda>d. fst d = a) xs = []") simp_all
  qed simp
  then show ?thesis by (simp only: batch_groups_def flush_events_def)
qed

lemma map_of_batch_of: "map_of (batch_of es) k = at_last (filter (\<lambda>e. batch_key e = k) es)"
  by (induction es rule: rev_induct) (auto simp: batch_of_def)

lemma set_alist_update: "(k, x) \<in> set (AList.update k' v m) \<Longrightarrow> (k, x) = (k', v) \<or> (k, x) \<in> set m"
  by (induction m) (auto split: if_splits)

lemma batch_of_distinct: "distinct (map fst (batch_of es))"
  by (induction es rule: rev_induct) (auto simp: batch_of_def intro: keeps)

lemma batch_of_entries: "(k, e) \<in> set (batch_of es) \<Longrightarrow> k = batch_key e \<and> e \<in> set es"
proof (induction es arbitrary: k e rule: rev_induct)
  case Nil
  then show ?case by (simp add: batch_of_def)
next
  case (snoc e' es)
  from snoc.prems have "(k, e) \<in> set (AList.update (batch_key e') e' (batch_of es))"
    by (simp add: batch_of_def)
  from set_alist_update [OF this] show ?case using snoc.IH [of k e] by simp blast
qed

lemma filter_key: "distinct (map fst m) \<Longrightarrow>
   filter (\<lambda>x. fst x = k) m = (case map_of m k of None \<Rightarrow> [] | Some v \<Rightarrow> [(k, v)])"
proof (induction m)
  case (Cons kv m)
  have "filter (\<lambda>x. fst x = k) m = []" if "fst kv = k"
    using Cons.prems that by (fastforce simp: filter_empty_conv image_iff)
  with Cons show ?case by (cases kv) auto
qed simp

lemma batch_last:
  assumes len: "\<And>e. e \<in> set es \<Longrightarrow> length (al_system (snd e)) = n" and "length (fst k) = n"
  shows "filter (\<lambda>e. alert_key (snd e) = k) (map snd (batch_of es))
     = (case at_last (filter (\<lambda>e. alert_key (snd e) = k) es) of None \<Rightarrow> [] | Some e \<Rightarrow> [e])"
proof -
  let ?bk = "fst k @ snd k"
  have key: "alert_key (snd e) = k \<longleftrightarrow> batch_key e = ?bk" if "e \<in> set es" for e
    using len [OF that] assms(2) by (cases k) (auto simp: alert_key_def batch_key_def)
  have entry: "alert_key (snd (snd x)) = k \<longleftrightarrow> fst x = ?bk" if "x \<in> set (batch_of es)" for x
    using batch_of_entries [of "fst x" "snd x" es] key [of "snd x"] that by simp
  have "filter (\<lambda>e. alert_key (snd e) = k) (map snd (batch_of es))
      = map snd (filter (\<lambda>x. fst x = ?bk) (batch_of es))"
    unfolding filter_map o_def
    by (rule arg_cong [of _ _ "map snd"], rule filter_cong) (simp_all add: entry)
  also have "\<dots> = (case map_of (batch_of es) ?bk of None \<Rightarrow> [] | Some e \<Rightarrow> [e])"
    using batch_of_distinct [of es] by (simp add: filter_key split: option.splits)
  also have "map_of (batch_of es) ?bk = at_last (filter (\<lambda>e. alert_key (snd e) = k) es)"
    unfolding map_of_batch_of by (rule arg_cong [of _ _ at_last], rule filter_cong) (use key in auto)
  finally show ?thesis .
qed

lemma flush_last:
  assumes known: "list_all known_action es" and len: "\<And>e. e \<in> set es \<Longrightarrow> length (al_system (snd e)) = n"
  shows "at_last (filter (feed_concerns alert_key (\<lambda>_. True) k) (flush_events (batch_of es)))
     = at_last (filter (feed_concerns alert_key (\<lambda>_. True) k) es)"
proof -
  have all: "e \<in> set es" if "e \<in> snd ` set (batch_of es)" for e
    using that by (auto dest: batch_of_entries)
  have c: "feed_concerns alert_key (\<lambda>_. True) k e \<longleftrightarrow> alert_key (snd e) = k" if "e \<in> set es" for e
    using known that by (auto simp: feed_concerns_def known_action_def list_all_iff)
  have es: "filter (feed_concerns alert_key (\<lambda>_. True) k) es = filter (\<lambda>e. alert_key (snd e) = k) es"
    by (rule filter_cong) (simp_all add: c)
  have vals: "filter (\<lambda>e. fst e = a \<and> feed_concerns alert_key (\<lambda>_. True) k e) (map snd (batch_of es))
      = filter (\<lambda>e. fst e = a) (filter (\<lambda>e. alert_key (snd e) = k) (map snd (batch_of es)))" for a
    unfolding filter_filter by (rule filter_cong) (use all c in auto)
  have fl: "filter (feed_concerns alert_key (\<lambda>_. True) k) (flush_events (batch_of es))
      = concat (map (\<lambda>a. filter (\<lambda>e. fst e = a) (filter (\<lambda>e. alert_key (snd e) = k) (map snd (batch_of es))))
          [''create'', ''update'', ''delete''])"
    unfolding flush_events_def vals [symmetric]
    by (simp add: filter_filter conj_commute)
  show ?thesis
  proof (cases "length (fst k) = n")
    case True
    note last = batch_last [of es, OF len True]
    show ?thesis
    proof (cases "at_last (filter (\<lambda>e. alert_key (snd e) = k) es)")
      case None
      then show ?thesis by (simp add: fl es last del: filter_filter)
    next
      case (Some e)
      then have "e \<in> set es" by (auto simp: at_last_def split: if_splits dest: last_in_set)
      then have "fst e \<in> {''create'', ''update'', ''delete''}"
        using known by (auto simp: list_all_iff known_action_def)
      with Some show ?thesis by (auto simp: fl es last simp del: filter_filter)
    qed
  next
    case False
    then have "alert_key (snd e) \<noteq> k" if "e \<in> set es" for e
      using len [OF that] by (auto simp: alert_key_def)
    then have "filter (\<lambda>e. alert_key (snd e) = k) es = []"
      "filter (\<lambda>e. alert_key (snd e) = k) (map snd (batch_of es)) = []"
      using all by (auto simp: filter_empty_conv)
    then show ?thesis unfolding fl es by simp
  qed
qed

text \<open>
  C5. Batching is invisible: whatever the timing of the realtime events, once the timer has run
  the alert store holds what applying every event at once, in order, would leave. The system ids
  have a fixed length, so the concatenated batch keys do not collide.
\<close>
theorem batching_transparent:
  assumes "set_key_documented sk" and "list_all (\<lambda>(t, e). known_action e) events"
    and "list_all (\<lambda>(t, e). length (al_system (snd e)) = n) events"
  shows "alert_view (batched_store sk events s)
     = alert_view (fold (alerts_event sk) (map snd events) s)"
proof -
  have one: "alert_view (fold (alerts_event sk) (flush_events (batch_of es)) s)
      = alert_view (fold (alerts_event sk) es s)"
    if "list_all known_action es" "list_all (\<lambda>e. length (al_system (snd e)) = n) es" for es s
    using assms(1) that
    by (intro amf.run_same_last) (auto simp: list_all_iff intro!: flush_last [of _ n])
  define calls where "calls b = filter (\<lambda>g. snd g \<noteq> []) (batch_groups (batch_of b))" for b
  have calls: "fold (alerts_action sk) (calls b) s = fold (alerts_event sk) (flush_events (batch_of b)) s" for b s
    by (simp only: calls_def flush_apply)
  have run: "alert_view (fold (alerts_action sk) (concat (map calls bs)) s)
      = alert_view (fold (alerts_event sk) (concat bs) s)"
    if "\<forall>b \<in> set bs. list_all known_action b \<and> list_all (\<lambda>e. length (al_system (snd e)) = n) b" for bs s
    using that
  proof (induction bs arbitrary: s)
    case Nil
    then show ?case by simp
  next
    case (Cons b bs)
    have view: "alert_view (fold (alerts_event sk) es s) = feed_replay alert_key (\<lambda>_. True) es (alert_view s)"
      for es s
      using amf.view_run [where sk = sk and es = es] assms(1) by (simp add: list_all_iff)
    have "alert_view (fold (alerts_action sk) (concat (map calls (b # bs))) s)
        = alert_view (fold (alerts_event sk) (concat bs) (fold (alerts_event sk) (flush_events (batch_of b)) s))"
      using Cons by (simp add: calls)
    also have "\<dots> = alert_view (fold (alerts_event sk) (concat bs) (fold (alerts_event sk) b s))"
      using one [of b s] Cons.prems unfolding view by simp
    finally show ?case by simp
  qed
  have c: "concat (bursts 50 events) = map snd events" by (rule concat_bursts)
  have "list_all known_action b \<and> list_all (\<lambda>e. length (al_system (snd e)) = n) b"
    if "b \<in> set (bursts 50 events)" for b
  proof -
    have "set b \<subseteq> snd ` set events" using c that by (metis Union_upper image_eqI set_concat set_map)
    then show ?thesis using assms(2,3) by (fastforce simp: list_all_iff)
  qed
  then show ?thesis
    using run [of "bursts 50 events" s]
    unfolding batched_store_def abatch.run_idle c calls_def [abs_def] batch_of_def
    by (simp add: idle_batch_def)
qed

definition sample_alert :: "string \<Rightarrow> string \<Rightarrow> rat \<Rightarrow> alert_record" where
  "sample_alert sys n v = \<lparr>al_id = n, al_system = sys, al_name = n, al_triggered = False, al_value = v, al_min = 10\<rparr>"

definition sample_alert_events :: "(int \<times> (string \<times> alert_record)) list" where
  "sample_alert_events = [(0, (''delete'', sample_alert ''s'' ''CPU'' 80)), (20, (''create'', sample_alert ''s'' ''CPU'' 90)),
     (200, (''update'', sample_alert ''s'' ''CPU'' 95))]"

theorem batching_transparent_witness:
  "alert_view (batched_store js_set_key sample_alert_events [])
     = alert_view (fold (alerts_event js_set_key) (map snd sample_alert_events) [])"
  by (rule batching_transparent [where n = 1, OF js_set_key_documented])
    (simp_all add: sample_alert_events_def sample_alert_def known_action_def)

text \<open>
  C6. The alert store refines the realtime feed: after a refresh and any further events it holds,
  for each system and alert name, what replaying the fetched alerts and the events gives.
\<close>
theorem alerts_replay:
  assumes "set_key_documented sk"
  shows "alert_view (fold (alerts_event sk) es (alerts_refresh sk records []))
     = feed_replay alert_key (\<lambda>_. True) (map (Pair ''create'') records @ es) (\<lambda>_. None)"
proof -
  have "alerts_refresh sk records [] = fold (alerts_event sk) (map (Pair ''create'') records) []"
    using alerts_action_events [of sk "''create''" records "[]"]
    by (simp add: alerts_refresh_def alerts_action_def)
  moreover have "alert_view [] = (\<lambda>_. None)" by (rule ext) (simp add: alert_view_def)
  ultimately show ?thesis
    using amf.view_run [where sk = sk and s = "[]" and es = "map (Pair ''create'') records @ es"] assms
    by (simp add: list_all_iff)
qed

theorem alerts_replay_witness:
  "alert_view (fold (alerts_event js_set_key) [(''delete'', sample_alert ''s'' ''CPU'' 80)]
       (alerts_refresh js_set_key [sample_alert ''s'' ''CPU'' 80] []))
     = feed_replay alert_key (\<lambda>_. True)
         (map (Pair ''create'') [sample_alert ''s'' ''CPU'' 80] @ [(''delete'', sample_alert ''s'' ''CPU'' 80)]) (\<lambda>_. None)"
  by (rule alerts_replay) (rule js_set_key_documented)

end
