(* ===== verification/Systems_Table.thy ===== *)
theory Systems_Table
  imports Lib_Settings
begin

section \<open>The systems table: systems-table.tsx, systems-table-columns.tsx\<close>

text \<open>
  The filter of the system column with its caches, the accessors and cells of the columns, meter
  colours by thresholds, the disk cell with its indicators, the actions of a row, the data by
  status filter and the sort menu. The lemmas show when filtering throws, that its caches are
  invisible, how values are classified, and what the indicators are.
\<close>

subsection \<open>Meters\<close>

definition STATUS_COLORS :: "system_status \<Rightarrow> string" where
  "STATUS_COLORS st = (case st of Up \<Rightarrow> ''bg-green-500'' | Down \<Rightarrow> ''bg-red-500''
     | Paused \<Rightarrow> ''bg-primary/40'' | Pending \<Rightarrow> ''bg-yellow-500'')"

definition getMeterStateByThresholds :: "rat \<Rightarrow> rat \<Rightarrow> rat \<Rightarrow> meter_state" where
  "getMeterStateByThresholds v warn crit = (if crit \<le> v then Crit else if warn \<le> v then Warn else Good)"

definition color_warn :: "display_settings \<Rightarrow> rat" where "color_warn ds = orelse (ds_colorWarn ds) 65"
definition color_crit :: "display_settings \<Rightarrow> rat" where "color_crit ds = orelse (ds_colorCrit ds) 90"

definition meter_color :: "system_status \<Rightarrow> meter_state \<Rightarrow> string" where
  "meter_color status threshold =
     (if status \<noteq> Up then STATUS_COLORS Paused
      else if threshold = Good then STATUS_COLORS Up
      else if threshold = Warn then STATUS_COLORS Pending
      else STATUS_COLORS Down)"

definition TableCellWithMeter ::
  "(rat \<Rightarrow> nat \<Rightarrow> string) \<Rightarrow> display_settings \<Rightarrow> system_status \<Rightarrow> rat option \<Rightarrow> string \<times> string \<times> rat" where
  \<comment> \<open>the text, the meter's colour class and its width in percent\<close>
  "TableCellWithMeter decimal ds status v =
     (let val = or_num v 0;
          threshold = getMeterStateByThresholds val (color_warn ds) (color_crit ds)
      in (decimal val (if 10 \<le> val then 1 else 2) @ ''%'', meter_color status threshold, val))"

lemma meter_monotone:
  "warn \<le> crit \<Longrightarrow> v \<le> w \<Longrightarrow> getMeterStateByThresholds v warn crit \<le> getMeterStateByThresholds w warn crit"
  by (auto simp: getMeterStateByThresholds_def less_eq_meter_state_def)

lemma meter_states:
  "getMeterStateByThresholds v warn crit = Crit \<longleftrightarrow> crit \<le> v"
  "getMeterStateByThresholds v warn crit = Warn \<longleftrightarrow> v < crit \<and> warn \<le> v"
  "getMeterStateByThresholds v warn crit = Good \<longleftrightarrow> v < crit \<and> v < warn"
  by (auto simp: getMeterStateByThresholds_def)

lemma STATUS_COLORS_inj: "STATUS_COLORS a = STATUS_COLORS b \<Longrightarrow> a = b"
  by (cases a; cases b) (simp_all add: STATUS_COLORS_def)

subsection \<open>The disk cell\<close>

definition extraFs_sorted :: "system_info \<Rightarrow> (string \<times> rat) list" where
  "extraFs_sorted info = sort_desc snd (obj_entries (orelse (si_efs info) []))"

definition stateColors :: "meter_state \<Rightarrow> string" where
  \<comment> \<open>the array of colours at the state's number\<close>
  "stateColors st = [STATUS_COLORS Up, STATUS_COLORS Pending, STATUS_COLORS Down] ! meter_num st"

definition extraDiskIndicators :: "display_settings \<Rightarrow> system_status \<Rightarrow> system_info \<Rightarrow> string list" where
  "extraDiskIndicators ds status info =
     (if status \<noteq> Up then []
      else map stateColors (sort (unique
        (map (\<lambda>(n, pct). getMeterStateByThresholds pct (color_warn ds) (color_crit ds)) (extraFs_sorted info)))))"

record disk_cell =
  dc_text :: string
  dc_color :: string
  dc_indicators :: "string list"
  dc_extra :: "(string \<times> string \<times> string) list"

definition DiskCellWithMultiple ::
  "(rat \<Rightarrow> nat \<Rightarrow> string) \<Rightarrow> display_settings \<Rightarrow> system_status \<Rightarrow> system_info \<Rightarrow> disk_cell" where
  \<comment> \<open>the root disk, the indicators, and the tooltip's name, text and colour of every extra disk\<close>
  "DiskCellWithMultiple decimal ds status info =
     (let pct_text = (\<lambda>pct. decimal pct (if 10 \<le> pct then 1 else 2) @ ''%'');
          getIndicatorColor = (\<lambda>pct. meter_color status (getMeterStateByThresholds pct (color_warn ds) (color_crit ds)))
      in \<lparr>dc_text = pct_text (si_dp info), dc_color = getIndicatorColor (si_dp info),
          dc_indicators = extraDiskIndicators ds status info,
          dc_extra = map (\<lambda>(n, pct). (n, pct_text pct, getIndicatorColor pct)) (extraFs_sorted info)\<rparr>)"

lemma stateColors_inj: "stateColors a = stateColors b \<Longrightarrow> a = b"
  by (cases a; cases b) (simp_all add: stateColors_def STATUS_COLORS_def)

lemma distinct_meter_states: "distinct xs \<Longrightarrow> length (xs :: meter_state list) \<le> 3"
proof -
  assume "distinct xs"
  then have "length xs = card (set xs)" by (simp add: distinct_card)
  also have "\<dots> \<le> card {Good, Warn, Crit}" by (rule card_mono) (simp_all add: meter_state_finite)
  also have "\<dots> \<le> 3" by simp
  finally show ?thesis .
qed

text \<open>
  The disk indicators are at most three dots: of an up system one for each meter state that
  some extra disk is in, from good to critical; of any other system none.
\<close>
theorem disk_indicators_correct:
  "length (extraDiskIndicators ds status info) \<le> 3
   \<and> extraDiskIndicators ds status info =
       (if status \<noteq> Up then []
        else map stateColors (filter (\<lambda>st. \<exists>(n, pct) \<in> set (orelse (si_efs info) []).
               getMeterStateByThresholds pct (color_warn ds) (color_crit ds) = st) [Good, Warn, Crit]))"
proof -
  let ?st = "\<lambda>(n, pct). getMeterStateByThresholds pct (color_warn ds) (color_crit ds)"
  let ?xs = "sort (unique (map ?st (extraFs_sorted info)))"
  let ?ys = "filter (\<lambda>st. \<exists>(n, pct) \<in> set (orelse (si_efs info) []).
               getMeterStateByThresholds pct (color_warn ds) (color_crit ds) = st) [Good, Warn, Crit]"
  have "sorted [Good, Warn, Crit]" by (simp add: less_eq_meter_state_def)
  then have "sorted ?ys" by (rule sorted_wrt_filter)
  moreover have "distinct ?ys" by (rule distinct_filter) simp
  ultimately have ys: "sorted ?ys" "distinct ?ys" by blast+
  have all: "st \<in> set [Good, Warn, Crit]" for st by (cases st) simp_all
  have xs: "set ?xs = ?st ` set (orelse (si_efs info) [])"
    by (simp add: extraFs_sorted_def)
  have "set ?ys = ?st ` set (orelse (si_efs info) [])"
    unfolding set_filter using all by (auto simp: image_iff)
  with xs have "set ?ys = set ?xs" by (simp only:)
  then have "?xs = ?ys"
    using ys by (intro sorted_distinct_set_unique) simp_all
  moreover have "length ?xs \<le> 3" by (rule distinct_meter_states) simp
  ultimately show ?thesis by (simp add: extraDiskIndicators_def)
qed

subsection \<open>The filter of the system column\<close>

record filter_cache =
  filterInput :: string
  filterInputLower :: string
  nameCache :: "(string \<times> string) list"

definition empty_filter_cache :: filter_cache where
  "empty_filter_cache = \<lparr>filterInput = '''', filterInputLower = '''', nameCache = []\<rparr>"

definition statusTranslations :: "system_status \<Rightarrow> string option" where
  "statusTranslations st = (case st of Up \<Rightarrow> Some (to_lower ''Up'') | Down \<Rightarrow> Some (to_lower ''Down'')
     | Paused \<Rightarrow> Some (to_lower ''Paused'') | Pending \<Rightarrow> None)"

definition system_filter :: "system_record \<Rightarrow> string \<Rightarrow> filter_cache \<Rightarrow> (js_error + bool) \<times> filter_cache" where
  \<comment> \<open>the closure filterFn; reading includes of an undefined host throws\<close>
  "system_filter sys newFilterInput st =
     (case sys_host sys of
        None \<Rightarrow> (Inl TypeError, st)
      | Some host \<Rightarrow>
         (if str_includes host newFilterInput
             \<or> (case si_v (sys_info sys) of Some v \<Rightarrow> str_includes v newFilterInput | None \<Rightarrow> False)
          then (Inr True, st)
          else (let st = (if newFilterInput \<noteq> filterInput st
                          then st\<lparr>filterInput := newFilterInput, filterInputLower := to_lower newFilterInput\<rparr> else st);
                    (nameLower, st) = (case map_of (nameCache st) (sys_name sys) of
                        Some n \<Rightarrow> (n, st)
                      | None \<Rightarrow> (to_lower (sys_name sys),
                                 st\<lparr>nameCache := AList.update (sys_name sys) (to_lower (sys_name sys)) (nameCache st)\<rparr>))
                in if str_includes nameLower (filterInputLower st) then (Inr True, st)
                   else (case statusTranslations (sys_status sys) of
                           Some statusLower \<Rightarrow> (Inr (str_includes statusLower (filterInputLower st)), st)
                         | None \<Rightarrow> (Inr False, st)))))"

definition filter_match :: "system_record \<Rightarrow> string \<Rightarrow> js_error + bool" where
  \<comment> \<open>what the filter means, with no caches\<close>
  "filter_match sys f = (case sys_host sys of
       None \<Rightarrow> Inl TypeError
     | Some host \<Rightarrow> Inr (str_includes host f
         \<or> (case si_v (sys_info sys) of Some v \<Rightarrow> str_includes v f | None \<Rightarrow> False)
         \<or> str_includes (to_lower (sys_name sys)) (to_lower f)
         \<or> (case statusTranslations (sys_status sys) of Some s \<Rightarrow> str_includes s (to_lower f) | None \<Rightarrow> False)))"

definition filter_cache_ok :: "filter_cache \<Rightarrow> bool" where
  "filter_cache_ok st \<longleftrightarrow> filterInputLower st = to_lower (filterInput st)
     \<and> (\<forall>n l. map_of (nameCache st) n = Some l \<longrightarrow> l = to_lower n)"

fun system_filters :: "(system_record \<times> string) list \<Rightarrow> filter_cache \<Rightarrow> (js_error + bool) list" where
  \<comment> \<open>the results of a run of calls\<close>
  "system_filters [] st = []"
| "system_filters ((sys, f) # calls) st = (let (r, st) = system_filter sys f st in r # system_filters calls st)"

lemma filter_cache_okD:
  assumes "filter_cache_ok st"
  shows "filterInputLower st = to_lower (filterInput st)" and "map_of (nameCache st) n = Some l \<Longrightarrow> l = to_lower n"
  using assms by (simp_all add: filter_cache_ok_def)

lemma filter_cache_ok_input: "filter_cache_ok st \<Longrightarrow>
   filter_cache_ok (if f \<noteq> filterInput st then st\<lparr>filterInput := f, filterInputLower := to_lower f\<rparr> else st)"
  by (simp add: filter_cache_ok_def)

lemma filter_cache_ok_name: "filter_cache_ok st \<Longrightarrow>
   filter_cache_ok (st\<lparr>nameCache := AList.update n (to_lower n) (nameCache st)\<rparr>)"
  by (simp add: filter_cache_ok_def)

lemma system_filter_step:
  assumes "filter_cache_ok st"
  shows "fst (system_filter sys f st) = filter_match sys f \<and> filter_cache_ok (snd (system_filter sys f st))"
proof (cases "sys_host sys")
  case None
  then show ?thesis using assms by (simp add: system_filter_def filter_match_def)
next
  case (Some host)
  let ?early = "str_includes host f \<or> (case si_v (sys_info sys) of Some v \<Rightarrow> str_includes v f | None \<Rightarrow> False)"
  show ?thesis
  proof (cases ?early)
    case True
    then show ?thesis using assms Some by (auto simp: system_filter_def filter_match_def split: option.splits)
  next
    case False
    define st1 where "st1 = (if f \<noteq> filterInput st then st\<lparr>filterInput := f, filterInputLower := to_lower f\<rparr> else st)"
    have ok1: "filter_cache_ok st1" unfolding st1_def using assms by (rule filter_cache_ok_input)
    have f1: "filterInputLower st1 = to_lower f"
      using filter_cache_okD(1) [OF ok1] by (auto simp: st1_def split: if_splits)
    show ?thesis
    proof (cases "map_of (nameCache st1) (sys_name sys)")
      case None
      then show ?thesis
        using False Some f1 filter_cache_ok_name [OF ok1, of "sys_name sys"]
        by (simp add: system_filter_def filter_match_def st1_def [symmetric] Let_def split: option.split)
    next
      case (Some l)
      then have "l = to_lower (sys_name sys)" using filter_cache_okD(2) [OF ok1] by simp
      then show ?thesis
        using False Some \<open>sys_host sys = Some host\<close> f1 ok1
        by (simp add: system_filter_def filter_match_def st1_def [symmetric] Let_def split: option.split)
    qed
  qed
qed

text \<open>
  The caches of the table filter are invisible: any run of filter calls returns, call by call,
  whether the host, the version, the name or the status label contains the text (the last two
  ignoring case). But a system without a host makes every call throw, and the host is not among
  the fields the systems manager fetches.
\<close>
theorem system_filter_correct:
  "system_filters calls empty_filter_cache = map (\<lambda>(sys, f). filter_match sys f) calls
   \<and> (sys_host sys = None \<longrightarrow> filter_match sys f = Inl TypeError)"
proof -
  have "filter_cache_ok st \<Longrightarrow> system_filters calls st = map (\<lambda>(sys, f). filter_match sys f) calls" for st
  proof (induction calls arbitrary: st)
    case (Cons c calls)
    then show ?case
      using system_filter_step [OF Cons.prems, of "fst c" "snd c"]
      by (cases c; cases "system_filter (fst c) (snd c) st") auto
  qed simp
  then show ?thesis by (simp add: filter_cache_ok_def empty_filter_cache_def filter_match_def)
qed

theorem system_filter_correct_witness:
  "system_filters [(sample_system ''a'' ''alpha'' Up, ''alp'')] empty_filter_cache
     = map (\<lambda>(sys, f). filter_match sys f) [(sample_system ''a'' ''alpha'' Up, ''alp'')]
   \<and> filter_match (sample_system ''a'' ''alpha'' Up) ''alp'' = Inl TypeError"
  using system_filter_correct [of "[(sample_system ''a'' ''alpha'' Up, ''alp'')]" "sample_system ''a'' ''alpha'' Up" "''alp''"]
  by (simp add: sample_system_def)

subsection \<open>Accessors and the other cells\<close>

definition falsy_undefined :: "rat option \<Rightarrow> rat option" where
  \<comment> \<open>x || undefined\<close>
  "falsy_undefined x = (if num_truthy x then x else None)"

datatype system_column = Col_cpu | Col_memory | Col_disk | Col_gpu | Col_loadAverage | Col_net | Col_uptime

definition column_accessor :: "system_column \<Rightarrow> system_record \<Rightarrow> rat option" where
  "column_accessor col s = (let info = sys_info s in case col of
       Col_cpu \<Rightarrow> falsy_undefined (si_cpu info)
     | Col_memory \<Rightarrow> falsy_undefined (Some (si_mp info))
     | Col_disk \<Rightarrow> falsy_undefined (Some (si_dp info))
     | Col_gpu \<Rightarrow> falsy_undefined (si_g info)
     | Col_loadAverage \<Rightarrow> map_option sum_list (si_la info)
     | Col_net \<Rightarrow> (if sys_status s \<noteq> Up then None else si_bb info)
     | Col_uptime \<Rightarrow> falsy_undefined (Some (si_u info)))"

definition max_load :: "rat list \<Rightarrow> rat option" where
  \<comment> \<open>Math.max(...xs): None is -Infinity, of no numbers\<close>
  "max_load xs = (if xs = [] then None else Some (Max (set xs)))"

definition version_below_0_13 :: "sem_ver \<Rightarrow> bool" where
  \<comment> \<open>major < 1 && minor < 13; a comparison with NaN is false\<close>
  "version_below_0_13 v \<longleftrightarrow> (case (major v, minor v) of (Some ma, Some mi) \<Rightarrow> ma < 1 \<and> mi < 13 | _ \<Rightarrow> False)"

definition load_threshold :: "display_settings \<Rightarrow> system_info \<Rightarrow> meter_state" where
  "load_threshold ds info = (case max_load (orelse (si_la info) []) of
       None \<Rightarrow> Good
     | Some m \<Rightarrow> getMeterStateByThresholds (m / of_int (orelse (si_t info) 1) * 100) (color_warn ds) (color_crit ds))"

definition load_cell ::
  "(rat \<Rightarrow> nat \<Rightarrow> string) \<Rightarrow> display_settings \<Rightarrow> system_record \<Rightarrow> (string list \<times> string list) option" where
  \<comment> \<open>the dot's colour classes, in order, and the texts; the later class wins\<close>
  "load_cell decimal ds s =
     (let info = sys_info s; loadAverages = orelse (si_la info) [];
          v = parseSemVer (orelse (si_v info) '''')
      in if max_load loadAverages = Some 0 \<and> (sys_status s = Paused \<or> version_below_0_13 v) then None
         else (let threshold = load_threshold ds info
               in Some ((if threshold = Good then [STATUS_COLORS Up] else [])
                        @ (if threshold = Warn then [STATUS_COLORS Pending] else [])
                        @ (if threshold = Crit then [STATUS_COLORS Down] else [])
                        @ (if sys_status s \<noteq> Up then [STATUS_COLORS Paused] else []),
                        map (\<lambda>la. decimal la (if 10 \<le> la then 1 else 2)) loadAverages)))"

definition system_net_cell ::
  "(rat \<Rightarrow> nat \<Rightarrow> string) \<Rightarrow> display_settings \<Rightarrow> rat option \<Rightarrow> string option" where
  "system_net_cell decimal ds v = map_option (\<lambda>val.
     let (value', u) = formatBytes val True (orelse (ds_unitNet ds) Bytes) False
     in decimal value' (if 100 \<le> value' then 1 else 2) @ '' '' @ u) v"

definition uptime_cell :: "(int \<Rightarrow> string) \<Rightarrow> rat option \<Rightarrow> string option" where
  "uptime_cell toLocale v = (if num_truthy v then Some (secondsToUptimeString toLocale (the v)) else None)"

definition indicator_class :: "string option \<Rightarrow> system_record \<Rightarrow> string" where
  \<comment> \<open>IndicatorDot\<close>
  "indicator_class className s = or_str className (STATUS_COLORS (sys_status s))"

definition toggle_pause :: "system_status \<Rightarrow> system_status" where
  \<comment> \<open>the status the Pause or Resume action of a row sends\<close>
  "toggle_pause status = (if status = Paused then Pending else Paused)"

lemma toggle_pause_twice: "toggle_pause (toggle_pause s) = (if s = Paused then Paused else Pending)"
  by (simp add: toggle_pause_def)

lemma load_cell_dot_last:
  "load_cell decimal ds s = Some (classes, texts) \<Longrightarrow>
     last classes = (if sys_status s \<noteq> Up then STATUS_COLORS Paused
       else meter_color Up (load_threshold ds (sys_info s)))"
  by (cases "load_threshold ds (sys_info s)") (auto simp: load_cell_def Let_def meter_color_def split: if_splits)

subsection \<open>Data, sorting and views\<close>

datatype status_filter = All_systems | Only "system_status"

definition filteredData ::
  "status_filter \<Rightarrow> (string \<times> system_record) list \<Rightarrow> (string \<times> system_record) list \<Rightarrow>
   (string \<times> system_record) list \<Rightarrow> (string \<times> system_record) list \<Rightarrow> system_record list" where
  \<comment> \<open>by the by-id, up, down and paused stores\<close>
  "filteredData statusFilter byId up down paused = (case statusFilter of
       All_systems \<Rightarrow> obj_values byId
     | Only st \<Rightarrow> if st = Up then obj_values up else if st = Down then obj_values down else obj_values paused)"

definition default_view_grid :: "nat \<Rightarrow> nat \<Rightarrow> bool" where
  \<comment> \<open>the default view mode is grid\<close>
  "default_view_grid innerWidth n \<longleftrightarrow> innerWidth < 1024 \<and> n < 200"

definition sort_menu_select :: "string \<Rightarrow> (string \<times> bool) list \<Rightarrow> (string \<times> bool) list" where
  \<comment> \<open>the sorting after choosing a column: its id and whether descending\<close>
  "sort_menu_select column sorting =
     [(column, case sorting of [] \<Rightarrow> False | (c, desc) # _ \<Rightarrow> c = column \<and> \<not> desc)]"

lemma sort_menu_toggles:
  "sort_menu_select c (sort_menu_select c s) =
     [(c, \<not> snd (hd (sort_menu_select c s)))]"
  by (simp add: sort_menu_select_def)

end
