(* ===== verification/Chart_Config.thy ===== *)
theory Chart_Config
  imports Lib_Settings
begin

section \<open>Chart configurations: components/charts/hooks.ts\<close>

text \<open>
  The colours and order of container charts from the cnt usage, the data points of container
  charts with the user's filter, the network interfaces by traffic, and the width of the y axis.
  A colour is its hue with the rest of the CSS text fixed. The lemmas show that the totals are
  sums, which containers have a colour, that colours are distinct and in order of usage, and
  which points a filter dims.
\<close>

datatype hsl = Hsl rat string string

subsection \<open>Totals\<close>

record usage_totals =
  ut_cpu :: "(string \<times> rat) list"
  ut_memory :: "(string \<times> rat) list"
  ut_network :: "(string \<times> rat) list"

definition at_num :: "rat list option \<Rightarrow> nat \<Rightarrow> rat option" where
  \<comment> \<open>xs?.[i]\<close>
  "at_num xs i = (case xs of None \<Rightarrow> None | Some ys \<Rightarrow> at_idx ys i)"

definition sentBytes :: "container_stats \<Rightarrow> rat" where
  "sentBytes c = orelse (at_num (cs_b c) 0) (orelse (cs_ns c) 0 * 1024 * 1024)"

definition recvBytes :: "container_stats \<Rightarrow> rat" where
  "recvBytes c = orelse (at_num (cs_b c) 1) (orelse (cs_nr c) 0 * 1024 * 1024)"

definition bump :: "string \<Rightarrow> rat \<Rightarrow> (string \<times> rat) list \<Rightarrow> (string \<times> rat) list" where
  "bump k v m = AList.update k (orelse (map_of m k) 0 + v) m"

definition add_usage :: "string \<times> container_stats \<Rightarrow> usage_totals \<Rightarrow> usage_totals" where
  \<comment> \<open>the inner loop's body; the metadata field created is not an entry of cp_stats\<close>
  "add_usage x u = (let (containerName, c) = x
     in \<lparr>ut_cpu = bump containerName (orelse (cs_c c) 0) (ut_cpu u),
         ut_memory = bump containerName (orelse (cs_m c) 0) (ut_memory u),
         ut_network = bump containerName (sentBytes c + recvBytes c) (ut_network u)\<rparr>)"

definition totalUsage :: "container_point list \<Rightarrow> usage_totals" where
  "totalUsage containerData =
     fold (\<lambda>stats u. fold add_usage (obj_entries (cp_stats stats)) u) containerData
       \<lparr>ut_cpu = [], ut_memory = [], ut_network = []\<rparr>"

definition sum_usage :: "(container_stats \<Rightarrow> rat) \<Rightarrow> string \<Rightarrow> container_point list \<Rightarrow> rat" where
  \<comment> \<open>the sum of a measure over all entries of a container\<close>
  "sum_usage f n containerData =
     sum_list (map (\<lambda>(k, c). f c) (filter (\<lambda>(k, c). k = n) (concat (map (\<lambda>p. obj_entries (cp_stats p)) containerData))))"

definition container_names :: "container_point list \<Rightarrow> string set" where
  "container_names containerData = {n. \<exists>p \<in> set containerData. n \<in> fst ` set (cp_stats p)}"

lemma totalUsage_fold:
  "totalUsage containerData = fold add_usage (concat (map (\<lambda>p. obj_entries (cp_stats p)) containerData))
     \<lparr>ut_cpu = [], ut_memory = [], ut_network = []\<rparr>"
proof -
  have "fold (\<lambda>stats u. fold add_usage (obj_entries (cp_stats stats)) u) ps u
      = fold add_usage (concat (map (\<lambda>p. obj_entries (cp_stats p)) ps)) u" for ps u
    by (induction ps arbitrary: u) simp_all
  then show ?thesis by (simp add: totalUsage_def)
qed

lemma fold_bump: "map_of (fold (\<lambda>(k, c). bump k (f c)) xs m) n =
   (if n \<in> fst ` set xs \<or> map_of m n \<noteq> None
    then Some (orelse (map_of m n) 0 + sum_list (map (\<lambda>(k, c). f c) (filter (\<lambda>(k, c). k = n) xs))) else None)"
proof (induction xs arbitrary: m)
  case Nil
  then show ?case by (cases "map_of m n") auto
next
  case (Cons x xs)
  obtain k c where x: "x = (k, c)" by (cases x)
  show ?case
    using Cons.IH [of "bump k (f c) m"] by (cases "k = n") (auto simp: x bump_def)
qed

lemma fold_add_usage:
  "ut_cpu (fold add_usage xs u) = fold (\<lambda>(k, c). bump k (orelse (cs_c c) 0)) xs (ut_cpu u)"
  "ut_memory (fold add_usage xs u) = fold (\<lambda>(k, c). bump k (orelse (cs_m c) 0)) xs (ut_memory u)"
  "ut_network (fold add_usage xs u) = fold (\<lambda>(k, c). bump k (sentBytes c + recvBytes c)) xs (ut_network u)"
  by (induction xs arbitrary: u) (auto simp: add_usage_def)

lemma names_of_points: "n \<in> fst ` (\<Union>p \<in> set ps. set (cp_stats p)) \<longleftrightarrow> n \<in> container_names ps"
  by (simp add: container_names_def image_UN)

lemma fold_bump_distinct: "distinct (map fst m) \<Longrightarrow> distinct (map fst (fold (\<lambda>(k, c). bump k (f c)) xs m))"
  by (induction xs arbitrary: m) (simp_all add: bump_def distinct_update split: prod.split)

text \<open>
  The totals behind the container charts are the sums over all points: of CPU, of memory and
  of bytes sent and received (from the byte counters, or from megabytes for older agents), for
  exactly the containers that occur.
\<close>
theorem totalUsage_sums:
  "map_of (ut_cpu (totalUsage ps)) n =
      (if n \<in> container_names ps then Some (sum_usage (\<lambda>c. orelse (cs_c c) 0) n ps) else None)
   \<and> map_of (ut_memory (totalUsage ps)) n =
      (if n \<in> container_names ps then Some (sum_usage (\<lambda>c. orelse (cs_m c) 0) n ps) else None)
   \<and> map_of (ut_network (totalUsage ps)) n =
      (if n \<in> container_names ps then Some (sum_usage (\<lambda>c. sentBytes c + recvBytes c) n ps) else None)"
  by (simp add: totalUsage_fold fold_add_usage fold_bump names_of_points sum_usage_def)

subsection \<open>Colours\<close>

definition container_hue :: "nat \<Rightarrow> nat \<Rightarrow> rat" where
  \<comment> \<open>((i * 360) / cnt) % 360\<close>
  "container_hue i cnt = (let h = of_nat (i * 360) / of_nat cnt in h - 360 * of_int \<lfloor>h / 360\<rfloor>)"

definition chart_config :: "(string \<times> rat) list \<Rightarrow> (string \<times> hsl) list" where
  \<comment> \<open>the configuration of a chart type from its totals: label and key are the container's name\<close>
  "chart_config usageMap =
     (let sortedContainers = sort_desc snd usageMap; cnt = length sortedContainers
      in map (\<lambda>(i, (containerName, v)).
           (containerName, Hsl (container_hue i cnt) ''var(--chart-saturation)'' ''var(--chart-lightness)''))
         (enumerate 0 sortedContainers))"

definition useContainerChartConfigs ::
  "container_point list \<Rightarrow> (string \<times> hsl) list \<times> (string \<times> hsl) list \<times> (string \<times> hsl) list" where
  \<comment> \<open>cpu, memory, network\<close>
  "useContainerChartConfigs containerData =
     (let totals = totalUsage containerData
      in (chart_config (ut_cpu totals), chart_config (ut_memory totals), chart_config (ut_network totals)))"

fun hue :: "hsl \<Rightarrow> rat" where "hue (Hsl h s l) = h"

lemma container_hue_eq: "i < cnt \<Longrightarrow> container_hue i cnt = of_nat (i * 360) / of_nat cnt"
proof -
  assume i: "i < cnt"
  then have "(0 :: rat) \<le> of_nat (i * 360) / of_nat cnt / 360" by simp
  moreover have "of_nat (i * 360) / of_nat cnt / 360 < (1 :: rat)"
    using i by (simp add: field_simps)
  ultimately have "\<lfloor>of_nat (i * 360) / of_nat cnt / 360 :: rat\<rfloor> = 0" by linarith
  then show ?thesis by (simp add: container_hue_def Let_def)
qed

lemma length_chart_config [simp]: "length (chart_config m) = length m"
  by (simp add: chart_config_def Let_def)

lemma chart_config_nth: "i < length m \<Longrightarrow> chart_config m ! i =
   (fst (sort_desc snd m ! i), Hsl (of_nat (i * 360) / of_nat (length m)) ''var(--chart-saturation)'' ''var(--chart-lightness)'')"
  by (simp add: chart_config_def Let_def nth_enumerate_eq container_hue_eq split: prod.split)

lemma map_fst_chart_config: "map fst (chart_config m) = map fst (sort_desc snd m)"
  by (rule nth_equalityI) (simp_all add: chart_config_nth)

lemma chart_config_names: "set (map fst (chart_config m)) = fst ` set m"
  unfolding map_fst_chart_config by simp

text \<open>
  Every container of a chart has its own colour, spread evenly over the colour circle in order
  of cnt usage: the configuration has the totals' containers, larger totals first, and the i-th
  of n has the hue 360 i / n.
\<close>
theorem chart_config_colors:
  "set (map fst (chart_config m)) = fst ` set m
   \<and> map (hue \<circ> snd) (chart_config m) = map (\<lambda>i. of_nat (i * 360) / of_nat (length m)) [0..<length m]
   \<and> distinct (map (hue \<circ> snd) (chart_config m))
   \<and> map fst (chart_config m) = map fst (sort_desc snd m) \<and> sorted_wrt (\<lambda>x y. snd y \<le> snd x) (sort_desc snd m)"
proof -
  have hues: "map (hue \<circ> snd) (chart_config m) = map (\<lambda>i. of_nat (i * 360) / of_nat (length m)) [0..<length m]"
    by (rule nth_equalityI) (simp_all add: chart_config_nth)
  moreover have "inj_on (\<lambda>i. of_nat (i * 360) / of_nat (length m) :: rat) {0..<length m}"
    by (rule inj_onI) (auto simp: field_simps)
  then have "distinct (map (\<lambda>i. of_nat (i * 360) / of_nat (length m) :: rat) [0..<length m])"
    by (simp add: distinct_map)
  ultimately show ?thesis
    using chart_config_names [of m] map_fst_chart_config [of m] sorted_sort_desc [of snd m] by simp
qed

subsection \<open>Filtered data points\<close>

record container_data_point =
  dp_label :: string
  dp_color :: hsl
  dp_opacity :: rat
  dp_strokeOpacity :: rat
  dp_activeDot :: bool
  dp_stackId :: string

definition filterTerms :: "string \<Rightarrow> string list" where
  "filterTerms flt = (if flt \<noteq> '''' then filter (\<lambda>term. 0 < length term) (split_on (CHR '' '') (to_lower flt)) else [])"

definition isFiltered :: "string \<Rightarrow> string \<Rightarrow> bool" where
  "isFiltered flt key \<longleftrightarrow> 0 < length (filterTerms flt) \<and> \<not> list_ex (\<lambda>term. str_includes (to_lower key) term) (filterTerms flt)"

definition useContainerDataPoints ::
  "(string \<times> hsl) list \<Rightarrow> string \<Rightarrow> container_data_point list \<times> string list" where
  \<comment> \<open>the points and filteredKeys; a point's dataKey is dataFn applied to its key\<close>
  "useContainerDataPoints chartConfig flt =
     (map (\<lambda>(key, color).
        let f = isFiltered flt key
        in \<lparr>dp_label = key, dp_color = color, dp_opacity = (if f then 5 / 100 else 4 / 10),
            dp_strokeOpacity = (if f then 1 / 10 else 1), dp_activeDot = \<not> f, dp_stackId = ''a''\<rparr>) (obj_entries chartConfig),
      filter (isFiltered flt) (obj_keys chartConfig))"

lemma split_on_blank: "set s \<subseteq> {c} \<Longrightarrow> p \<in> set (split_on c s) \<Longrightarrow> p = []"
  by (induction s) auto

lemma filterTerms_blank: "set flt \<subseteq> {CHR '' ''} \<Longrightarrow> filterTerms flt = []"
proof -
  assume "set flt \<subseteq> {CHR '' ''}"
  then have "set (to_lower flt) \<subseteq> {CHR '' ''}" by (auto simp: to_lower_def lower_char_def)
  from split_on_blank [OF this] show ?thesis by (auto simp: filterTerms_def filter_empty_conv)
qed

text \<open>
  The container filter dims exactly the containers that contain none of its words: a point is
  dimmed and inactive exactly when its key is filtered, no key is filtered by an empty filter, and
  with words a key is filtered when it contains none of them, ignoring case.
\<close>
theorem container_filter_correct:
  "list_all (\<lambda>p. dp_activeDot p = (dp_label p \<notin> set (snd (useContainerDataPoints cfg flt)))
       \<and> (dp_opacity p = 5 / 100) = (dp_label p \<in> set (snd (useContainerDataPoints cfg flt))))
     (fst (useContainerDataPoints cfg flt))
   \<and> snd (useContainerDataPoints cfg '''') = []
   \<and> set (snd (useContainerDataPoints cfg flt)) =
       {k. k \<in> fst ` set cfg \<and> filterTerms flt \<noteq> []
           \<and> \<not> list_ex (\<lambda>w. str_includes (to_lower k) w) (filterTerms flt)}"
  by (force simp: useContainerDataPoints_def list_all_iff isFiltered_def filterTerms_def Let_def)

subsection \<open>Network interfaces\<close>

definition iface_traffic :: "(string \<times> rat list) list \<Rightarrow> string \<Rightarrow> rat" where
  "iface_traffic interfaces k = orelse (at_num (map_of interfaces k) 3) 0"

definition useNetworkInterfaces :: "(string \<times> rat list) list option \<Rightarrow> string list" where
  \<comment> \<open>sortedKeys\<close>
  "useNetworkInterfaces interfaces =
     (let ifs = orelse interfaces [] in sort_desc (iface_traffic ifs) (obj_keys ifs))"

definition iface_hue :: "string list \<Rightarrow> nat \<Rightarrow> rat" where
  \<comment> \<open>the hue of the i-th sorted key: 220 + i * 360 / length % 360\<close>
  "iface_hue sortedKeys i = 220 + container_hue i (length sortedKeys)"

definition iface_data :: "string list \<Rightarrow> (string \<times> hsl) list" where
  \<comment> \<open>the label and colour of each point; its value is stats.ni[key][index]\<close>
  "iface_data sortedKeys =
     map (\<lambda>(i, key). (key, Hsl (iface_hue sortedKeys i) ''70%'' ''50%'')) (enumerate 0 sortedKeys)"

definition iface_value :: "string \<Rightarrow> nat \<Rightarrow> stats_record \<Rightarrow> rat option" where
  "iface_value key index r = (case sr_stats r of None \<Rightarrow> None
     | Some x \<Rightarrow> (case st_ni x of None \<Rightarrow> None | Some ni \<Rightarrow> at_num (map_of ni key) index))"

lemma useNetworkInterfaces_sorted:
  "sorted_wrt (\<lambda>a b. iface_traffic (orelse ifs []) b \<le> iface_traffic (orelse ifs []) a) (useNetworkInterfaces ifs)"
  "set (useNetworkInterfaces ifs) = fst ` set (orelse ifs [])"
  by (simp_all add: useNetworkInterfaces_def Let_def sorted_sort_desc)

lemma iface_data_labels: "map fst (iface_data ks) = ks"
proof -
  have "map fst (map (\<lambda>(i, key). (key, Hsl (iface_hue ks i) a b)) (enumerate n xs)) = xs" for n xs a b
    by (induction xs arbitrary: n) auto
  then show ?thesis by (simp add: iface_data_def)
qed

subsection \<open>The width of the y axis\<close>

text \<open>
  useYAxisWidth is called on every rendering and makes new variables maxChars and timeout, and a
  function that captures the width of that rendering. Which function the axis calls is decided by
  the rendering that made the axis; timeouts of functions made before still fire.
\<close>

record y_axis =
  yAxisWidth :: nat
  captured :: nat
  maxChars :: nat
  pending_label :: "string option"
  old_timeouts :: "(nat \<times> string) list"  \<comment> \<open>the captured width and the label to measure\<close>

definition y_render :: "y_axis \<Rightarrow> y_axis" where
  \<comment> \<open>a rendering that makes the axis anew\<close>
  "y_render y = y\<lparr>captured := yAxisWidth y, maxChars := 0, pending_label := None,
     old_timeouts := old_timeouts y @ (case pending_label y of None \<Rightarrow> [] | Some l \<Rightarrow> [(captured y, l)])\<rparr>"

definition updateYAxisWidth :: "string \<Rightarrow> y_axis \<Rightarrow> y_axis" where
  \<comment> \<open>the label just formatted: a longer one restarts the measuring timeout\<close>
  "updateYAxisWidth str y = (if maxChars y < length str then y\<lparr>maxChars := length str, pending_label := Some str\<rparr> else y)"

definition measure_label :: "(string \<Rightarrow> nat) \<Rightarrow> nat \<Rightarrow> string \<Rightarrow> nat \<Rightarrow> nat" where
  \<comment> \<open>the timeout's function: offsetWidth is the measured width of a label\<close>
  "measure_label offsetWidth capt str w = (let width = offsetWidth str + 20 in if capt < width then width else w)"

definition y_timeout :: "(string \<Rightarrow> nat) \<Rightarrow> y_axis \<Rightarrow> y_axis" where
  \<comment> \<open>all timeouts that are due, the oldest first\<close>
  "y_timeout offsetWidth y =
     (let timeouts = old_timeouts y @ (case pending_label y of None \<Rightarrow> [] | Some l \<Rightarrow> [(captured y, l)])
      in y\<lparr>yAxisWidth := fold (\<lambda>(capt, str). measure_label offsetWidth capt str) timeouts (yAxisWidth y),
           old_timeouts := [], pending_label := None\<rparr>)"

lemma updateYAxisWidth_max: "maxChars (updateYAxisWidth l y) = max (length l) (maxChars y)"
  by (simp add: updateYAxisWidth_def)

lemma maxChars_longest: "maxChars (fold updateYAxisWidth labels y) = Max (insert (maxChars y) (length ` set labels))"
proof (induction labels arbitrary: y)
  case (Cons l labels)
  then show ?case using updateYAxisWidth_max [of l y]
    by (cases labels) (simp_all add: max.left_commute max.commute)
qed simp

lemma pending_is_longest:
  "(\<And>l. pending_label y = Some l \<Longrightarrow> length l = maxChars y) \<Longrightarrow>
     pending_label (fold updateYAxisWidth labels y) = Some l \<Longrightarrow> length l = maxChars (fold updateYAxisWidth labels y)"
proof (induction labels arbitrary: y)
  case (Cons a labels)
  have "length l = maxChars (updateYAxisWidth a y)" if "pending_label (updateYAxisWidth a y) = Some l" for l
    using that Cons.prems(1) by (auto simp: updateYAxisWidth_def split: if_splits)
  then show ?case using Cons.IH [of "updateYAxisWidth a y"] Cons.prems(2) by simp
qed simp

lemma y_timeout_wide:
  "pending_label y = Some l \<Longrightarrow> captured y < offsetWidth l + 20 \<Longrightarrow> yAxisWidth (y_timeout offsetWidth y) = offsetWidth l + 20"
  by (simp add: y_timeout_def measure_label_def Let_def)

end
