(* ===== verification/Chart_Data.thy ===== *)
theory Chart_Data
  imports Lib_Settings
begin

section \<open>Chart data: routes/system/chart-data.ts\<close>

text \<open>
  The time axis and its cache, appending records with gap markers and trimming, the request for
  the statistics of a system, and the container points. appendData works on two types of record;
  it takes their accessors. The lemmas say what is kept and what is appended, that no two
  neighbours are farther apart than the gap threshold, and how long the result is.
\<close>

subsection \<open>The time axis\<close>

record time_data =
  td_ticks :: "int list"
  td_domain :: "int list"

record chart_time_data =
  td_time :: int
  td_data :: time_data
  td_chartTime :: chart_time

definition make_time_data :: "d3_offset \<Rightarrow> (int \<Rightarrow> int \<Rightarrow> nat \<Rightarrow> int list) \<Rightarrow> chart_time \<Rightarrow> int \<Rightarrow> time_data" where
  \<comment> \<open>timeTicks start stop count is d3-time's\<close>
  "make_time_data d3 timeTicks chartTime now =
     (let startTime = offset_date d3 chartTime now;
          ticks = timeTicks startTime now (orelse (cp_ticks (chartTimeData chartTime)) 12)
      in \<lparr>td_ticks = ticks, td_domain = [offset_date d3 chartTime now, now]\<rparr>)"

definition getTimeData ::
  "d3_offset \<Rightarrow> (int \<Rightarrow> int \<Rightarrow> nat \<Rightarrow> int list) \<Rightarrow> int \<Rightarrow> chart_time \<Rightarrow> int option \<Rightarrow>
   chart_time_data option \<Rightarrow> time_data \<times> chart_time_data option" where
  \<comment> \<open>lastCreated is None when it is NaN; the last argument and result are the cache entry td\<close>
  "getTimeData d3 timeTicks now chartTime lastCreated cached =
     (case cached of
        Some c \<Rightarrow>
          if td_chartTime c = chartTime \<and>
             (case lastCreated of None \<Rightarrow> True | Some l \<Rightarrow> l = 0 \<or> l \<le> td_time c)
          then (td_data c, cached)
          else (let data = make_time_data d3 timeTicks chartTime now
                in (data, Some \<lparr>td_time = now, td_data = data, td_chartTime = chartTime\<rparr>))
      | None \<Rightarrow>
          (let data = make_time_data d3 timeTicks chartTime now
           in (data, Some \<lparr>td_time = now, td_data = data, td_chartTime = chartTime\<rparr>)))"

definition td_ok :: "d3_offset \<Rightarrow> (int \<Rightarrow> int \<Rightarrow> nat \<Rightarrow> int list) \<Rightarrow> chart_time_data option \<Rightarrow> bool" where
  "td_ok d3 tt cached \<longleftrightarrow>
     (case cached of None \<Rightarrow> True | Some c \<Rightarrow> td_data c = make_time_data d3 tt (td_chartTime c) (td_time c))"

fun getTimeDatas ::
  "d3_offset \<Rightarrow> (int \<Rightarrow> int \<Rightarrow> nat \<Rightarrow> int list) \<Rightarrow> (int \<times> chart_time \<times> int option) list \<Rightarrow>
   chart_time_data option \<Rightarrow> time_data list \<times> chart_time_data option" where
  "getTimeDatas d3 tt [] cached = ([], cached)"
| "getTimeDatas d3 tt ((now, ct, l) # calls) cached =
     (let (d, cached) = getTimeData d3 tt now ct l cached;
          (ds, cached) = getTimeDatas d3 tt calls cached
      in (d # ds, cached))"

lemma getTimeData_ok: "td_ok d3 tt cached \<Longrightarrow> td_ok d3 tt (snd (getTimeData d3 tt now ct l cached))"
  by (auto simp: getTimeData_def td_ok_def Let_def split: option.splits)

lemma getTimeData_time:
  assumes "td_ok d3 tt cached" and "\<And>c. cached = Some c \<Longrightarrow> td_time c \<le> now"
  shows "\<exists>t \<le> now. fst (getTimeData d3 tt now ct l cached) = make_time_data d3 tt ct t
     \<and> (t = now \<or> (case l of None \<Rightarrow> True | Some l \<Rightarrow> l = 0 \<or> l \<le> t))"
    and "\<exists>c. snd (getTimeData d3 tt now ct l cached) = Some c \<and> td_time c \<le> now"
  using assms by (auto simp: getTimeData_def td_ok_def Let_def split: option.splits)

lemma getTimeDatas_ok: "td_ok d3 tt cached \<Longrightarrow> td_ok d3 tt (snd (getTimeDatas d3 tt calls cached))"
proof (induction calls arbitrary: cached)
  case (Cons c calls)
  obtain now ct l where c: "c = (now, ct, l)" by (cases c)
  show ?case
    using Cons.IH [OF getTimeData_ok [OF Cons.prems, of now ct l]] by (auto simp: c Let_def split: prod.splits)
qed simp

lemma getTimeDatas_time:
  assumes "sorted (map fst calls)" and "\<And>c. cached = Some c \<Longrightarrow> \<forall>x \<in> set calls. td_time c \<le> fst x"
    and "\<forall>x \<in> set calls. fst x \<le> now" and "\<And>c. cached = Some c \<Longrightarrow> td_time c \<le> now" and "td_ok d3 tt cached"
  shows "\<forall>c. snd (getTimeDatas d3 tt calls cached) = Some c \<longrightarrow> td_time c \<le> now"
  using assms
proof (induction calls arbitrary: cached)
  case (Cons x calls)
  obtain t ct l where x: "x = (t, ct, l)" by (cases x)
  have "\<exists>c. snd (getTimeData d3 tt t ct l cached) = Some c \<and> td_time c \<le> t"
    by (rule getTimeData_time(2) [OF Cons.prems(5)]) (use Cons.prems(2) x in auto)
  then obtain c where c: "snd (getTimeData d3 tt t ct l cached) = Some c" "td_time c \<le> t"
    by blast
  have "\<forall>c. snd (getTimeDatas d3 tt calls (Some c')) = Some c \<longrightarrow> td_time c \<le> now"
    if "snd (getTimeData d3 tt t ct l cached) = Some c'" for c'
    using Cons.IH [of "Some c'"] Cons.prems c that getTimeData_ok [OF Cons.prems(5), of t ct l]
    by (force simp: x)
  then show ?case using c by (auto simp: x Let_def split: prod.splits)
qed simp

text \<open>
  C21. The cached time axis is always right for the request: after any calls at increasing times,
  getTimeData returns the axis of the requested period, computed for some time up to now, and
  not from before the latest record unless computed just now.
\<close>
theorem getTimeData_correct:
  assumes "sorted (map fst calls @ [now])"
  shows "\<exists>t \<le> now. fst (getTimeData d3 tt now ct lastCreated (snd (getTimeDatas d3 tt calls None)))
       = make_time_data d3 tt ct t
     \<and> (t = now \<or> (case lastCreated of None \<Rightarrow> True | Some l \<Rightarrow> l = 0 \<or> l \<le> t))"
proof -
  have ok: "td_ok d3 tt (snd (getTimeDatas d3 tt calls None))"
    by (rule getTimeDatas_ok) (simp add: td_ok_def)
  have "\<forall>c. snd (getTimeDatas d3 tt calls None) = Some c \<longrightarrow> td_time c \<le> now"
    using assms by (intro getTimeDatas_time) (auto simp: sorted_append td_ok_def)
  with ok show ?thesis by (intro getTimeData_time(1)) auto
qed

theorem getTimeData_correct_witness:
  "\<exists>t \<le> (9000000 :: int). fst (getTimeData (\<lambda>i t n. t + n * interval_ms i) (\<lambda>a b n. [a, b]) 9000000 T1h (Some 8000000)
       (snd (getTimeDatas (\<lambda>i t n. t + n * interval_ms i) (\<lambda>a b n. [a, b]) [(5000000, T1h, None), (8500000, T1m, Some 2)] None)))
       = make_time_data (\<lambda>i t n. t + n * interval_ms i) (\<lambda>a b n. [a, b]) T1h t
     \<and> (t = 9000000 \<or> (case Some 8000000 of None \<Rightarrow> True | Some l \<Rightarrow> l = 0 \<or> l \<le> t))"
  by (rule getTimeData_correct) simp

subsection \<open>Appending records\<close>

text \<open>
  appendData is generic in the record: its field created is read and replaced, and a record says
  what its gap marker is. parse_date is new Date(s).getTime().
\<close>

record 'r record_ops =
  created_of :: "'r \<Rightarrow> created"
  with_created :: "created \<Rightarrow> 'r \<Rightarrow> 'r"
  gap_for :: "'r \<Rightarrow> 'r"

definition time_value :: "created \<Rightarrow> int option" where
  \<comment> \<open>(created as number) ?? 0, None for NaN; a date string in arithmetic is NaN\<close>
  "time_value c = (case c of Created_null \<Rightarrow> Some 0 | Created_ms n \<Rightarrow> Some n | _ \<Rightarrow> None)"

definition convert_created :: "(string \<Rightarrow> int option) \<Rightarrow> created \<Rightarrow> created" where
  "convert_created parse_date c = (case c of
       Created_str s \<Rightarrow> (case parse_date s of Some n \<Rightarrow> Created_ms n | None \<Rightarrow> Created_nan)
     | _ \<Rightarrow> c)"

definition is_gap :: "int option \<Rightarrow> int option \<Rightarrow> int \<Rightarrow> bool" where
  \<comment> \<open>prevTime && created - prevTime > interval * 1.5\<close>
  "is_gap prevTime created interval = (case (prevTime, created) of
       (Some p, Some c) \<Rightarrow> p \<noteq> 0 \<and> 3 * interval < 2 * (c - p)
     | _ \<Rightarrow> False)"

fun append_loop ::
  "'r record_ops \<Rightarrow> (string \<Rightarrow> int option) \<Rightarrow> int \<Rightarrow> 'r list \<Rightarrow> int option \<Rightarrow> 'r list \<Rightarrow> 'r list" where
  "append_loop ops parse_date interval result prevTime [] = result"
| "append_loop ops parse_date interval result prevTime (record # rest) =
     (if created_of ops record = Created_null
      then append_loop ops parse_date interval (result @ [record]) prevTime rest
      else (let c = convert_created parse_date (created_of ops record);
                record = with_created ops c record;
                result = (if is_gap prevTime (time_value c) interval
                          then result @ [gap_for ops record] else result)
            in append_loop ops parse_date interval (result @ [record]) (time_value c) rest))"

definition pre_trim :: "'r list \<Rightarrow> int \<Rightarrow> int option \<Rightarrow> 'r list" where
  \<comment> \<open>prev as it is kept: maxLen && prev.length >= maxLen ? prev.slice(-(maxLen - newLength)) : prev\<close>
  "pre_trim prev newLength maxLen = (case maxLen of
       Some m \<Rightarrow> if m \<noteq> 0 \<and> m \<le> int (length prev) then slice_from (- (m - newLength)) prev else prev
     | None \<Rightarrow> prev)"

definition last_time :: "'r record_ops \<Rightarrow> 'r list \<Rightarrow> int option" where
  \<comment> \<open>(xs.at(-1)?.created as number) ?? 0\<close>
  "last_time ops xs = (case at_last xs of None \<Rightarrow> Some 0 | Some r \<Rightarrow> time_value (created_of ops r))"

definition appendData ::
  "'r record_ops \<Rightarrow> (string \<Rightarrow> int option) \<Rightarrow> 'r list \<Rightarrow> 'r list \<Rightarrow> int \<Rightarrow> int option \<Rightarrow> 'r list" where
  "appendData ops parse_date prev newRecords interval maxLen =
     (if newRecords = [] then prev
      else (let trimmed = pre_trim prev (int (length newRecords)) maxLen
            in append_loop ops parse_date interval trimmed (last_time ops trimmed) newRecords))"

definition record_ops_ok :: "'r record_ops \<Rightarrow> bool" where
  "record_ops_ok ops \<longleftrightarrow>
     (\<forall>c r. created_of ops (with_created ops c r) = c)
     \<and> (\<forall>r. created_of ops (gap_for ops r) = Created_null)"

text \<open>The two types of record appendData is used on.\<close>

definition stats_ops :: "stats_record record_ops" where
  "stats_ops = \<lparr>created_of = sr_created, with_created = (\<lambda>c r. r\<lparr>sr_created := c\<rparr>),
     gap_for = (\<lambda>r. \<lparr>sr_created = Created_null, sr_stats = None\<rparr>)\<rparr>"

definition point_ops :: "container_point record_ops" where
  \<comment> \<open>the gap marker of a point has no containers; a stats key in it would be null and reads as absent\<close>
  "point_ops = \<lparr>created_of = cp_created, with_created = (\<lambda>c r. r\<lparr>cp_created := c\<rparr>),
     gap_for = (\<lambda>r. \<lparr>cp_created = Created_null, cp_stats = []\<rparr>)\<rparr>"

lemma record_ops_ok_instances: "record_ops_ok stats_ops" "record_ops_ok point_ops"
  by (simp_all add: record_ops_ok_def stats_ops_def point_ops_def)

subsection \<open>What is appended\<close>

text \<open>The part appended after the kept records: the new records, gap markers before some of them.\<close>

fun appended ::
  "'r record_ops \<Rightarrow> (string \<Rightarrow> int option) \<Rightarrow> int \<Rightarrow> int option \<Rightarrow> 'r list \<Rightarrow> 'r list" where
  "appended ops pd ei p [] = []"
| "appended ops pd ei p (r # rs) =
     (if created_of ops r = Created_null then r # appended ops pd ei p rs
      else (let c = convert_created pd (created_of ops r); r = with_created ops c r
            in (if is_gap p (time_value c) ei then [gap_for ops r] else []) @ r # appended ops pd ei (time_value c) rs))"

definition converted :: "'r record_ops \<Rightarrow> (string \<Rightarrow> int option) \<Rightarrow> 'r \<Rightarrow> 'r" where
  "converted ops pd r = (if created_of ops r = Created_null then r
     else with_created ops (convert_created pd (created_of ops r)) r)"

definition is_marker :: "'r record_ops \<Rightarrow> 'r \<Rightarrow> bool" where
  "is_marker ops r \<longleftrightarrow> created_of ops r = Created_null"

lemma append_loop_appended: "append_loop ops pd ei result p rs = result @ appended ops pd ei p rs"
  by (induction rs arbitrary: result p) (simp_all add: Let_def)

lemma appendData_split:
  "rs \<noteq> [] \<Longrightarrow> appendData ops pd prev rs ei ml =
     pre_trim prev (int (length rs)) ml @ appended ops pd ei (last_time ops (pre_trim prev (int (length rs)) ml)) rs"
  by (simp add: appendData_def Let_def append_loop_appended)

lemma pre_trim_suffix: "suffix (pre_trim prev n ml) prev"
  by (auto simp: pre_trim_def suffix_slice_from split: option.splits)

lemma convert_created_not_null: "c \<noteq> Created_null \<Longrightarrow> convert_created pd c \<noteq> Created_null"
  by (auto simp: convert_created_def split: created.splits option.splits)

lemma appended_filter:
  "record_ops_ok ops \<Longrightarrow> \<forall>r \<in> set rs. \<not> is_marker ops r \<Longrightarrow>
     filter (\<lambda>r. \<not> is_marker ops r) (appended ops pd ei p rs) = map (converted ops pd) rs"
proof (induction rs arbitrary: p)
  case (Cons r rs)
  then show ?case
    using convert_created_not_null [of "created_of ops r" pd]
    by (simp add: is_marker_def converted_def record_ops_ok_def Let_def)
qed simp

text \<open>No drawn segment spans a gap: neighbours that both have a time are near each other.\<close>

definition near :: "'r record_ops \<Rightarrow> int \<Rightarrow> 'r \<Rightarrow> 'r \<Rightarrow> bool" where
  "near ops ei a b \<longleftrightarrow> \<not> (\<not> is_marker ops a \<and> \<not> is_marker ops b
     \<and> is_gap (time_value (created_of ops a)) (time_value (created_of ops b)) ei)"

definition no_span :: "'r record_ops \<Rightarrow> int \<Rightarrow> 'r list \<Rightarrow> bool" where
  "no_span ops ei xs = list_all (\<lambda>(a, b). near ops ei a b) (zip xs (tl xs))"

lemma no_span_Nil [simp]: "no_span ops ei []" "no_span ops ei [x]"
  by (simp_all add: no_span_def)

lemma no_span_Cons: "no_span ops ei (x # y # xs) = (near ops ei x y \<and> no_span ops ei (y # xs))"
  by (simp add: no_span_def)

lemma no_span_append:
  "no_span ops ei (xs @ ys) = (no_span ops ei xs \<and> no_span ops ei ys
     \<and> (xs = [] \<or> ys = [] \<or> near ops ei (last xs) (hd ys)))"
proof (induction xs)
  case Nil
  then show ?case by simp
next
  case (Cons x xs)
  show ?case
  proof (cases xs)
    case Nil
    then show ?thesis by (cases ys) (auto simp: no_span_Cons)
  next
    case (Cons y xs')
    then show ?thesis using Cons.IH by (auto simp: no_span_Cons)
  qed
qed

lemma no_span_suffix: "suffix xs ys \<Longrightarrow> no_span ops ei ys \<Longrightarrow> no_span ops ei xs"
  by (auto simp: suffix_def no_span_append)

lemma near_marker [simp]: "is_marker ops a \<Longrightarrow> near ops ei a b" "is_marker ops b \<Longrightarrow> near ops ei a b"
  by (simp_all add: near_def)

lemma appended_no_span:
  assumes "record_ops_ok ops"
  shows "no_span ops ei (appended ops pd ei p rs)
     \<and> (rs \<noteq> [] \<longrightarrow> (\<forall>a. time_value (created_of ops a) = p \<longrightarrow> near ops ei a (hd (appended ops pd ei p rs))))"
proof (induction rs arbitrary: p)
  case Nil
  then show ?case by simp
next
  case (Cons r rs)
  show ?case
  proof (cases "created_of ops r = Created_null")
    case True
    then have m: "is_marker ops r" by (simp add: is_marker_def)
    have "no_span ops ei (r # appended ops pd ei p rs)"
      using Cons.IH [of p] m by (cases "appended ops pd ei p rs") (auto simp: no_span_Cons)
    then show ?thesis using True m by simp
  next
    case False
    define c where "c = convert_created pd (created_of ops r)"
    define r' where "r' = with_created ops c r"
    define g where "g = gap_for ops r'"
    define tail where "tail = appended ops pd ei (time_value c) rs"
    have c: "created_of ops r' = c" and mg: "is_marker ops g"
      using assms by (simp_all add: record_ops_ok_def r'_def g_def is_marker_def)
    have app: "appended ops pd ei p (r # rs) = (if is_gap p (time_value c) ei then [g] else []) @ r' # tail"
      using False by (simp add: c_def r'_def g_def tail_def Let_def)
    have rest: "no_span ops ei (r' # tail)"
    proof (cases tail)
      case Nil
      then show ?thesis by simp
    next
      case (Cons t ts)
      then have "rs \<noteq> []" by (auto simp: tail_def)
      then have "near ops ei r' t" using Cons.IH [of "time_value c"] c Cons by (simp add: tail_def)
      then show ?thesis using Cons.IH [of "time_value c"] Cons by (simp add: no_span_Cons tail_def)
    qed
    have "near ops ei a r'" if "\<not> is_gap p (time_value c) ei" "time_value (created_of ops a) = p" for a
      using that c by (simp add: near_def)
    then show ?thesis using rest mg unfolding app by (simp add: no_span_Cons)
  qed
qed


definition sample_stats :: "created \<Rightarrow> stats_record" where
  "sample_stats c = \<lparr>sr_created = c, sr_stats = None\<rparr>"




lemma length_pre_trim:
  "0 < m \<Longrightarrow> length (pre_trim prev (int n) (Some (int m))) =
     (if m \<le> length prev then (if n < m then m - n else length prev - (n - m)) else length prev)"
  by (auto simp: pre_trim_def length_slice_from)

lemma length_appended: "length (appended ops pd ei p rs) =
   length rs + (length (appended ops pd ei p rs) - length rs)"
proof -
  have "length rs \<le> length (appended ops pd ei p rs)"
    by (induction rs arbitrary: p) (auto simp: Let_def intro: le_SucI)
  then show ?thesis by simp
qed

text \<open>
  What maxLen does to the length, with g gap markers inserted: full old data make room for
  the new records, so that the result has maxLen + g records when fewer than maxLen are new; but
  old data shorter than maxLen are never trimmed, and as many or more new records than maxLen
  remove none or few of the old ones, so the result can be longer than maxLen.
\<close>
theorem appendData_length:
  assumes "rs \<noteq> []" and "0 < m"
  shows "\<exists>g. length (appendData ops pd prev rs ei (Some (int m))) =
     (if length prev < m then length prev + length rs
      else if length rs < m then m
      else length prev - (length rs - m) + length rs) + g"
proof -
  let ?k = "pre_trim prev (int (length rs)) (Some (int m))"
  have l: "length ?k = (if m \<le> length prev
      then (if length rs < m then m - length rs else length prev - (length rs - m)) else length prev)"
    using assms(2) by (rule length_pre_trim)
  show ?thesis
    unfolding appendData_split [OF assms(1)] length_append
    using l length_appended [of ops pd ei "last_time ops ?k" rs]
    by (intro exI [of _ "length (appended ops pd ei (last_time ops ?k) rs) - length rs"]) auto
qed

theorem appendData_length_witness:
  "\<exists>g. length (appendData stats_ops (\<lambda>_. None) (replicate 99 (sample_stats (Created_ms 5)))
       (replicate 99 (sample_stats (Created_ms 6))) 60000 (Some (int 100))) =
     (if length (replicate 99 (sample_stats (Created_ms 5))) < 100
      then length (replicate 99 (sample_stats (Created_ms 5))) + length (replicate 99 (sample_stats (Created_ms 6)))
      else if length (replicate 99 (sample_stats (Created_ms 6))) < 100 then 100
      else length (replicate 99 (sample_stats (Created_ms 5)))
        - (length (replicate 99 (sample_stats (Created_ms 6))) - 100)
        + length (replicate 99 (sample_stats (Created_ms 6)))) + g"
  by (rule appendData_length) simp_all

subsection \<open>Requests and container points\<close>

datatype cache_entry = System_entry "stats_record list" | Container_entry "container_point list"

type_synonym data_cache = "(string \<times> cache_entry) list"

definition cache_key :: "string \<Rightarrow> chart_time \<Rightarrow> string \<Rightarrow> string" where
  "cache_key systemId chartTime collection = systemId @ ''_'' @ chart_time_str chartTime @ ''_'' @ collection"

fun entry_last :: "cache_entry \<Rightarrow> created option" where
  "entry_last (System_entry xs) = map_option sr_created (at_last xs)"
| "entry_last (Container_entry xs) = map_option cp_created (at_last xs)"

record stats_request =
  rq_collection :: string
  rq_system :: string
  rq_created :: string
  rq_type :: string
  rq_fields :: string
  rq_sort :: string

definition last_cached :: "data_cache \<Rightarrow> string \<Rightarrow> int option" where
  \<comment> \<open>cachedStats?.at(-1)?.created, when it is a truthy number\<close>
  "last_cached cache k = (case map_of cache k of
       Some e \<Rightarrow> (case entry_last e of Some (Created_ms n) \<Rightarrow> if n = 0 then None else Some n | _ \<Rightarrow> None)
     | None \<Rightarrow> None)"

definition getStats ::
  "(int \<Rightarrow> utc_date) \<Rightarrow> (chart_time \<Rightarrow> utc_date) \<Rightarrow> string \<Rightarrow> string \<Rightarrow> chart_time \<Rightarrow> data_cache \<Rightarrow> stats_request" where
  \<comment> \<open>the request; to_utc breaks a time down into its UTC fields\<close>
  "getStats to_utc offset_now collection systemId chartTime cache =
     (let lastCached = last_cached cache (cache_key systemId chartTime collection)
      in \<lparr>rq_collection = collection, rq_system = systemId,
          rq_created = getPbTimestamp offset_now chartTime (map_option (\<lambda>t. to_utc (t + 1000)) lastCached),
          rq_type = cp_type (chartTimeData chartTime), rq_fields = ''created,stats'', rq_sort = ''created''\<rparr>)"

definition add_container :: "container_stats \<Rightarrow> container_point \<Rightarrow> container_point" where
  \<comment> \<open>point[container.n] = container; a container called created replaces the time by an object,
      which is NaN in arithmetic\<close>
  "add_container c p = (if cs_n c = ''created'' then p\<lparr>cp_created := Created_nan\<rparr>
     else p\<lparr>cp_stats := AList.update (cs_n c) c (cp_stats p)\<rparr>)"

definition makeContainerPoint :: "created \<Rightarrow> container_stats list \<Rightarrow> container_point" where
  "makeContainerPoint created stats = fold add_container stats \<lparr>cp_created = created, cp_stats = []\<rparr>"

definition created_falsy :: "created \<Rightarrow> bool" where
  "created_falsy c \<longleftrightarrow> c \<in> {Created_null, Created_ms 0, Created_nan, Created_str ''''}"

definition makeContainerData ::
  "(string \<Rightarrow> int option) \<Rightarrow> container_stats_record list \<Rightarrow> container_point list" where
  "makeContainerData parse_date containers =
     map (\<lambda>r. if created_falsy (csr_created r) then \<lparr>cp_created = Created_null, cp_stats = []\<rparr>
              else makeContainerPoint (convert_created parse_date (csr_created r)) (csr_stats r)) containers"

definition dockerOrPodman :: "string \<Rightarrow> bool \<Rightarrow> string" where
  "dockerOrPodman str isPodman =
     (if isPodman then replace_first ''Docker'' ''Podman'' (replace_first ''docker'' ''podman'' str) else str)"

lemma length_makeContainerData: "length (makeContainerData pd cs) = length cs"
  by (simp add: makeContainerData_def)

lemma makeContainerPoint_snoc:
  "makeContainerPoint c (cs @ [x]) = add_container x (makeContainerPoint c cs)"
  by (simp add: makeContainerPoint_def)

lemma map_of_makeContainerPoint:
  "n \<noteq> ''created'' \<Longrightarrow>
     map_of (cp_stats (makeContainerPoint c cs)) n = at_last (filter (\<lambda>x. cs_n x = n) cs)"
  by (induction cs rule: rev_induct)
    (auto simp: makeContainerPoint_snoc add_container_def, simp add: makeContainerPoint_def)

lemma makeContainerPoint_created:
  "cp_created (makeContainerPoint c cs) =
     (if ''created'' \<in> cs_n ` set cs then Created_nan else c)"
  by (induction cs rule: rev_induct)
    (auto simp: makeContainerPoint_snoc add_container_def, simp add: makeContainerPoint_def)

text \<open>
  A container point holds, under each container name, the last statistics of that name; its
  time is the one given unless a container is called created, which destroys it.
\<close>
theorem makeContainerPoint_correct:
  "(\<forall>n. map_of (cp_stats (makeContainerPoint c cs)) n =
      (if n = ''created'' then None else at_last (filter (\<lambda>x. cs_n x = n) cs)))
   \<and> cp_created (makeContainerPoint c cs) = (if ''created'' \<in> cs_n ` set cs then Created_nan else c)"
proof -
  have "map_of (cp_stats (makeContainerPoint c cs)) ''created'' = None"
    by (induction cs rule: rev_induct)
      (auto simp: makeContainerPoint_snoc add_container_def, simp add: makeContainerPoint_def)
  then show ?thesis by (auto simp: map_of_makeContainerPoint makeContainerPoint_created)
qed

lemma dockerOrPodman_docker: "dockerOrPodman ''Docker CPU Usage'' True = ''Podman CPU Usage''"
  by (simp add: dockerOrPodman_def)

end
