(* ===== verification/Chart_View.thy ===== *)
theory Chart_View
  imports Chart_Config Chart_Data
begin

section \<open>Chart frames: ui/chart.tsx, charts/area-chart.tsx, charts/line-chart.tsx, chart-card.tsx\<close>

text \<open>
  What every chart shares: the data points and settings a chart is given, the areas or lines drawn
  from them, the tooltip (filter, order, total, label), the cached x axis, the pinned y domain, the
  data a chart shows while it is off screen, the intersection observer behind it, the card around
  it and the debounced filter bar. Element construction and CSS are left out; recharts calls the
  functions modelled here. The lemmas show what the tooltip lists and totals, that the axis
  cache is transparent, how far the pinned domain is from the data, that a visible chart shows its
  source, and that the filter bar and its store agree once its timer is over.
\<close>

subsection \<open>Data points and charts\<close>

datatype color = Palette nat | Css string | Hue hsl

record 'd data_point =
  pt_label :: string
  pt_dataKey :: "'d \<Rightarrow> rat option"
  pt_color :: color
  pt_opacity :: "rat option"
  pt_stackId :: "string option"
  pt_order :: "nat option"
  pt_strokeOpacity :: "rat option"
  pt_activeDot :: "bool option"

definition data_point :: "string \<Rightarrow> ('d \<Rightarrow> rat option) \<Rightarrow> color \<Rightarrow> rat \<Rightarrow> 'd data_point" where
  "data_point label key color opacity =
     \<lparr>pt_label = label, pt_dataKey = key, pt_color = color, pt_opacity = Some opacity, pt_stackId = None,
      pt_order = None, pt_strokeOpacity = None, pt_activeDot = None\<rparr>"

definition stacked :: "string \<Rightarrow> 'd data_point \<Rightarrow> 'd data_point" where
  "stacked s p = p\<lparr>pt_stackId := Some s\<rparr>"

definition ordered :: "nat \<Rightarrow> 'd data_point \<Rightarrow> 'd data_point" where
  "ordered n p = p\<lparr>pt_order := Some n\<rparr>"

text \<open>The upper end of a y domain (the lower is 0): a number or NaN, a function of the data's maximum.\<close>

datatype domain_end = Upto "rat option" | Of_data_max "rat \<Rightarrow> rat" | Auto

datatype item_sorter = By_order | By_value | Always_one

datatype chart_kind = Area_chart | Line_chart

record 'd chart =
  ch_kind :: chart_kind
  ch_domain :: "domain_end option"
  ch_max :: "rat option"
  ch_maxToggled :: "bool option"
  ch_points :: "'d data_point list"
  ch_tick :: "rat \<Rightarrow> string"
  ch_content :: "rat \<Rightarrow> string"
  ch_legend :: bool
  ch_showTotal :: bool
  ch_reverse :: bool
  ch_hideYAxis :: bool
  ch_filter :: "string option"
  ch_truncate :: bool
  ch_sorter :: "item_sorter option"

definition chart_of :: "chart_kind \<Rightarrow> 'd data_point list \<Rightarrow> (rat \<Rightarrow> string) \<Rightarrow> (rat \<Rightarrow> string) \<Rightarrow> 'd chart" where
  \<comment> \<open>the defaults of AreaChartDefault and LineChartDefault\<close>
  "chart_of kind points tick content =
     \<lparr>ch_kind = kind, ch_domain = None, ch_max = None, ch_maxToggled = None, ch_points = points, ch_tick = tick,
      ch_content = content, ch_legend = False, ch_showTotal = False, ch_reverse = False, ch_hideYAxis = False,
      ch_filter = None, ch_truncate = False, ch_sorter = None\<rparr>"

definition y_domain :: "'d chart \<Rightarrow> domain_end" where
  \<comment> \<open>domain ?? [0, max ?? auto]\<close>
  "y_domain c = orelse (ch_domain c) (case ch_max c of Some m \<Rightarrow> Upto (Some m) | None \<Rightarrow> Auto)"

subsection \<open>Areas and lines\<close>

definition css_color :: "color \<Rightarrow> color" where
  "css_color col = (case col of Palette n \<Rightarrow> Css (''var(--chart-'' @ nat_str n @ '')'') | _ \<Rightarrow> col)"

record 'd series =
  se_key :: string
  se_dataKey :: "'d \<Rightarrow> rat option"
  se_stroke :: color
  se_fillOpacity :: "rat option"
  se_strokeOpacity :: "rat option"
  se_stackId :: "string option"
  se_order :: nat
  se_activeDot :: bool

definition series_of :: "nat \<Rightarrow> 'd data_point \<Rightarrow> 'd series" where
  \<comment> \<open>order is dataPoint.order || i: an order of 0 gives the index\<close>
  "series_of i p =
     \<lparr>se_key = pt_label p, se_dataKey = pt_dataKey p, se_stroke = css_color (pt_color p), se_fillOpacity = pt_opacity p,
      se_strokeOpacity = pt_strokeOpacity p, se_stackId = pt_stackId p,
      se_order = (case pt_order p of Some n \<Rightarrow> if n = 0 then i else n | None \<Rightarrow> i),
      se_activeDot = orelse (pt_activeDot p) True\<rparr>"

definition areas :: "'d data_point list \<Rightarrow> 'd series list" where
  "areas dataPoints = map (\<lambda>(i, p). series_of i p) (enumerate 0 dataPoints)"

definition line_of :: "nat \<Rightarrow> 'd data_point \<Rightarrow> 'd series" where
  \<comment> \<open>a line has no fill and no stack\<close>
  "line_of i p = (series_of i p)\<lparr>se_fillOpacity := None, se_stackId := None\<rparr>"

definition chart_lines :: "'d data_point list \<Rightarrow> 'd series list" where
  "chart_lines dataPoints = map (\<lambda>(i, p). line_of i p) (enumerate 0 dataPoints)"

definition areasKey :: "(rat \<Rightarrow> string) \<Rightarrow> 'd data_point list \<Rightarrow> string" where
  \<comment> \<open>the memo key of the areas: labels and opacities only\<close>
  "areasKey num_text dataPoints =
     join [CHR 0x00] (map (\<lambda>p. pt_label p @ '':'' @ (case pt_opacity p of Some x \<Rightarrow> num_text x | None \<Rightarrow> ''undefined'')) dataPoints)"

definition linesKey :: "(rat \<Rightarrow> string) \<Rightarrow> 'd data_point list \<Rightarrow> string" where
  "linesKey num_text dataPoints =
     join [CHR 0x00] (map (\<lambda>p. pt_label p @ '':'' @ (case pt_strokeOpacity p of Some x \<Rightarrow> num_text x | None \<Rightarrow> '''')) dataPoints)"

lemma length_areas [simp]: "length (areas ps) = length ps" "length (chart_lines ps) = length ps"
  by (simp_all add: areas_def chart_lines_def)

lemma areas_nth: "i < length ps \<Longrightarrow> areas ps ! i = series_of i (ps ! i)"
  by (simp add: areas_def nth_enumerate_eq)

subsection \<open>The data a chart shows\<close>

text \<open>
  A chart takes its source data into its displayed data only while it is on screen, or when it has
  nothing to show yet. The effect runs after every change of its arguments; sourceData is compared
  by reference, so a source is given with its identity.
\<close>

record 'd frame =
  fr_data :: "nat \<times> 'd list"
  fr_maxToggled :: "bool option"

definition display_effect :: "nat \<times> 'd list \<Rightarrow> bool option \<Rightarrow> bool \<Rightarrow> 'd frame \<Rightarrow> 'd frame" where
  "display_effect sourceData maxToggled isIntersecting f =
     (let shouldPrimeData = snd sourceData \<noteq> [] \<and> snd (fr_data f) = [];
          sourceChanged = fst sourceData \<noteq> fst (fr_data f);
          shouldUpdate = shouldPrimeData \<or> (sourceChanged \<and> isIntersecting);
          f1 = (if shouldUpdate then f\<lparr>fr_data := sourceData\<rparr> else f)
      in if isIntersecting \<and> maxToggled \<noteq> fr_maxToggled f then f1\<lparr>fr_maxToggled := maxToggled\<rparr> else f1)"

definition chart_visible :: "'d frame \<Rightarrow> nat \<Rightarrow> bool \<Rightarrow> bool option" where
  \<comment> \<open>None: nothing is rendered; else whether the chart is opaque\<close>
  "chart_visible f yWidth hideYAxis = (if snd (fr_data f) = [] then None else Some (yWidth \<noteq> 0 \<or> hideYAxis))"

definition frame_ok :: "(nat \<Rightarrow> 'd list) \<Rightarrow> 'd frame \<Rightarrow> bool" where
  \<comment> \<open>an identity stands for one list\<close>
  "frame_ok heap f \<longleftrightarrow> snd (fr_data f) = heap (fst (fr_data f))"

fun frame_run :: "(nat \<times> bool option \<times> bool) list \<Rightarrow> (nat \<Rightarrow> 'd list) \<Rightarrow> 'd frame \<Rightarrow> 'd frame" where
  "frame_run [] heap f = f"
| "frame_run ((src, mx, vis) # es) heap f = frame_run es heap (display_effect (src, heap src) mx vis f)"

lemma frame_ok_effect [keeps]:
  "frame_ok heap f \<Longrightarrow> frame_ok heap (display_effect (src, heap src) mx vis f)"
  by (auto simp: frame_ok_def display_effect_def Let_def)

lemma display_effect_visible:
  "frame_ok heap f \<Longrightarrow> fr_data (display_effect (src, heap src) mx True f) = (src, heap src)
     \<and> fr_maxToggled (display_effect (src, heap src) mx True f) = mx"
  by (cases "fr_data f") (auto simp: frame_ok_def display_effect_def Let_def)

lemma display_effect_hidden:
  "snd (fr_data f) \<noteq> [] \<Longrightarrow> display_effect src mx False f = f"
  by (auto simp: display_effect_def Let_def)

lemma frame_run_append: "frame_run (es @ es') heap f = frame_run es' heap (frame_run es heap f)"
  by (induction es arbitrary: f) auto

lemma frame_run_ok: "frame_ok heap f \<Longrightarrow> frame_ok heap (frame_run es heap f)"
  by (induction es arbitrary: f) (auto simp: keeps)

lemma frame_run_hidden:
  "snd (fr_data f) \<noteq> [] \<Longrightarrow> \<not> list_ex (\<lambda>(src, mx, vis). vis) es \<Longrightarrow> frame_run es heap f = f"
  by (induction es) (auto simp: display_effect_hidden)

text \<open>
  A chart on screen shows its current source and setting, whatever it showed and skipped
  before; while it is off screen, a chart with data keeps what it shows, whatever its source does.
\<close>
theorem display_follows_when_visible:
  assumes "frame_ok heap f"
  shows "fr_data (frame_run (es @ [(src, mx, True)]) heap f) = (src, heap src)
     \<and> fr_maxToggled (frame_run (es @ [(src, mx, True)]) heap f) = mx
     \<and> (snd (fr_data f) = [] \<or> list_ex (\<lambda>(s, m, vis). vis) es \<or> frame_run es heap f = f)"
proof -
  have "frame_ok heap (frame_run es heap f)" using assms by (rule frame_run_ok)
  from display_effect_visible [OF this, of src mx] show ?thesis
    using frame_run_hidden [of f es heap] by (auto simp: frame_run_append)
qed

theorem display_follows_when_visible_witness:
  "frame_run ([(1, None, False), (2, Some True, False)] @ [(2, Some True, True)]) (\<lambda>i. [i, i + 1])
     \<lparr>fr_data = (0, [0, 1]), fr_maxToggled = None\<rparr> = \<lparr>fr_data = (2, [2, 3 :: nat]), fr_maxToggled = Some True\<rparr>"
  using display_follows_when_visible [of "\<lambda>i. [i, i + 1]" "\<lparr>fr_data = (0, [0, 1]), fr_maxToggled = None\<rparr>"
      "[(1, None, False), (2, Some True, False)]" 2 "Some True"]
  by (simp add: frame_ok_def display_effect_def)

subsection \<open>The tooltip\<close>

datatype tip_value = V_num rat | V_str string | V_null | V_undefined

record tooltip_item =
  ti_name :: "string option"
  ti_value :: tip_value
  ti_order :: nat
  ti_dataKey :: "string option"
  ti_color :: "string option"
  ti_fill :: "string option"  \<comment> \<open>the fill of the item's own payload\<close>

definition plain_item :: "string \<Rightarrow> rat \<Rightarrow> nat \<Rightarrow> tooltip_item" where
  "plain_item n v k = \<lparr>ti_name = Some n, ti_value = V_num v, ti_order = k, ti_dataKey = None, ti_color = None, ti_fill = None\<rparr>"

definition numericValue :: "tip_value \<Rightarrow> rat option" where
  \<comment> \<open>Number of a value, None for NaN: null counts as 0, undefined does not count\<close>
  "numericValue v = (case v of V_num x \<Rightarrow> Some x | V_str s \<Rightarrow> js_number s | V_null \<Rightarrow> Some 0 | V_undefined \<Rightarrow> None)"

definition tooltip_match :: "string \<Rightarrow> tooltip_item \<Rightarrow> bool" where
  "tooltip_match flt item =
     list_ex (\<lambda>term. case ti_name item of None \<Rightarrow> False | Some n \<Rightarrow> str_includes (to_lower n) term)
       (filter (\<lambda>term. 0 < length term) (split_on (CHR '' '') (to_lower flt)))"

definition apply_sorter :: "(tooltip_item list \<Rightarrow> tooltip_item list) \<Rightarrow> item_sorter \<Rightarrow> tooltip_item list \<Rightarrow> tooltip_item list" where
  \<comment> \<open>a.order - b.order and b.value - a.value are consistent comparators and the sort is stable; the
      order of the comparator that always returns 1 is the engine's\<close>
  "apply_sorter engine by xs = (case by of
       By_order \<Rightarrow> sort_key ti_order xs
     | By_value \<Rightarrow> sort_desc (\<lambda>x. orelse (numericValue (ti_value x)) 0) xs
     | Always_one \<Rightarrow> engine xs)"

definition tooltip_items ::
  "(tooltip_item list \<Rightarrow> tooltip_item list) \<Rightarrow> string \<Rightarrow> item_sorter option \<Rightarrow> tooltip_item list \<Rightarrow> tooltip_item list" where
  \<comment> \<open>the effect of the first useMemo on the payload\<close>
  "tooltip_items engine flt itemSorter payload =
     (let payload = (if flt \<noteq> '''' then filter (tooltip_match flt) payload else payload)
      in case itemSorter of Some by \<Rightarrow> apply_sorter engine by payload | None \<Rightarrow> payload)"

definition total_loop :: "tooltip_item list \<Rightarrow> rat \<times> bool" where
  \<comment> \<open>totalValue and hasNumericValue\<close>
  "total_loop payload = fold (\<lambda>item (totalValue, hasNumericValue).
     case numericValue (ti_value item) of Some x \<Rightarrow> (totalValue + x, True) | None \<Rightarrow> (totalValue, hasNumericValue))
     payload (0, False)"

datatype total_text = By_formatter string | By_content string | Plain_text string

definition totalValueDisplay ::
  "(rat \<Rightarrow> string) \<Rightarrow> bool \<Rightarrow> (rat \<Rightarrow> string) option \<Rightarrow> (rat \<Rightarrow> string) option \<Rightarrow> string option
     \<Rightarrow> tooltip_item list \<Rightarrow> total_text option" where
  "totalValueDisplay toLocale showTotal formatter content unit payload =
     (if \<not> showTotal \<or> payload = [] then None
      else let (totalValue, hasNumericValue) = total_loop payload
       in if \<not> hasNumericValue then None
          else case formatter of
              Some f \<Rightarrow> Some (By_formatter (f totalValue))
            | None \<Rightarrow> (case content of
                  Some c \<Rightarrow> Some (By_content (c totalValue))
                | None \<Rightarrow> Some (Plain_text (toLocale totalValue @ orelse unit ''''))))"

definition getPayloadConfigFromPayload ::
  "(string \<times> 'c) list \<Rightarrow> (string \<times> string option) list \<Rightarrow> (string \<times> string option) list option \<Rightarrow> string \<Rightarrow> 'c option" where
  \<comment> \<open>an object's properties with the value of those that are strings; the payload is an object and its
      own payload one or absent\<close>
  "getPayloadConfigFromPayload config payload payloadPayload key =
     (let configLabelKey = (case map_of payload key of
            Some (Some s) \<Rightarrow> s
          | _ \<Rightarrow> (case payloadPayload of
                None \<Rightarrow> key
              | Some pp \<Rightarrow> (case map_of pp key of Some (Some s) \<Rightarrow> s | _ \<Rightarrow> key)))
      in case map_of config configLabelKey of Some c \<Rightarrow> Some c | None \<Rightarrow> map_of config key)"

definition tooltipLabel :: "bool \<Rightarrow> (string option \<Rightarrow> string) option \<Rightarrow> string option \<Rightarrow> string option \<Rightarrow> tooltip_item list \<Rightarrow> string option" where
  \<comment> \<open>config is the empty object, so an item has no label of its own; label is a string label\<close>
  "tooltipLabel hideLabel labelFormatter labelKey label payload =
     (if hideLabel \<or> payload = [] then None
      else let value = (if \<not> str_truthy labelKey then label else None)
       in case labelFormatter of
           Some f \<Rightarrow> Some (f value)
         | None \<Rightarrow> if \<not> str_truthy value then None else value)"

definition legend_items :: "bool \<Rightarrow> 'a list \<Rightarrow> 'a list option" where
  "legend_items reverse payload = (if payload = [] then None else Some (if reverse then rev payload else payload))"

lemma no_item_config [simp]: "getPayloadConfigFromPayload [] p pp key = None"
  by (simp add: getPayloadConfigFromPayload_def Let_def)

lemma mset_apply_sorter: "by \<noteq> Always_one \<Longrightarrow> mset (apply_sorter engine by xs) = mset xs"
  by (cases "by") (simp_all add: apply_sorter_def)

lemma total_loop_sum:
  "total_loop payload = (sum_list (map (\<lambda>x. orelse (numericValue (ti_value x)) 0) payload),
     list_ex (\<lambda>x. numericValue (ti_value x) \<noteq> None) payload)"
proof -
  have "fold (\<lambda>item (totalValue, hasNumericValue).
       case numericValue (ti_value item) of Some x \<Rightarrow> (totalValue + x, True) | None \<Rightarrow> (totalValue, hasNumericValue))
       payload (s, b) = (s + sum_list (map (\<lambda>x. orelse (numericValue (ti_value x)) 0) payload),
         b \<or> list_ex (\<lambda>x. numericValue (ti_value x) \<noteq> None) payload)" for s b
    by (induction payload arbitrary: s b) (auto split: option.splits)
  then show ?thesis by (simp add: total_loop_def)
qed

lemma tooltip_match_name: "ti_name item = Some n \<Longrightarrow> flt \<noteq> '''' \<Longrightarrow> tooltip_match flt item \<longleftrightarrow>
    list_ex (\<lambda>w. str_includes (to_lower n) w) (filterTerms flt)"
  by (simp add: tooltip_match_def filterTerms_def)

lemma numericValue_num [simp]: "numericValue (V_num x) = Some x"
  by (simp add: numericValue_def)

text \<open>
  With a filter that has a word, the tooltip lists exactly the items the container filter keeps,
  largest value first, and its total is the sum of their values; a filter of blanks only, which
  the container filter takes for no filter, empties the tooltip.
\<close>
theorem tooltip_filtered_total:
  assumes "\<And>x. x \<in> set payload \<Longrightarrow> ti_name x \<noteq> None"
    and "filterTerms flt \<noteq> []"
  shows "mset (tooltip_items engine flt (Some By_value) payload)
         = filter_mset (\<lambda>x. \<not> isFiltered flt (the (ti_name x))) (mset payload)
     \<and> sorted_wrt (\<lambda>x y. orelse (numericValue (ti_value y)) 0 \<le> orelse (numericValue (ti_value x)) 0)
         (tooltip_items engine flt (Some By_value) payload)
     \<and> fst (total_loop (tooltip_items engine flt (Some By_value) payload))
         = sum_list (map (\<lambda>x. orelse (numericValue (ti_value x)) 0)
             (filter (\<lambda>x. \<not> isFiltered flt (the (ti_name x))) payload))
     \<and> tooltip_items engine '' '' (Some By_value) payload = []
     \<and> \<not> isFiltered '' '' key"
proof -
  have ne: "flt \<noteq> ''''" using assms(2) by (auto simp: filterTerms_def)
  have m: "filter (tooltip_match flt) payload = filter (\<lambda>x. \<not> isFiltered flt (the (ti_name x))) payload"
  proof (rule filter_cong [OF refl])
    fix x assume "x \<in> set payload"
    with assms(1) obtain n where "ti_name x = Some n" by auto
    then show "tooltip_match flt x = (\<not> isFiltered flt (the (ti_name x)))"
      using assms(2) ne by (simp add: tooltip_match_name isFiltered_def)
  qed
  have i: "tooltip_items engine flt (Some By_value) payload
      = sort_desc (\<lambda>x. orelse (numericValue (ti_value x)) 0) (filter (\<lambda>x. \<not> isFiltered flt (the (ti_name x))) payload)"
    using ne by (simp add: tooltip_items_def apply_sorter_def m)
  have b: "tooltip_items engine '' '' (Some By_value) payload = []"
    by (simp add: tooltip_items_def apply_sorter_def tooltip_match_def to_lower_def lower_char_def sort_desc_def filter_empty_conv)
  have s: "sum_list (map f (sort_desc f xs)) = sum_list (map f xs)" for f :: "tooltip_item \<Rightarrow> rat" and xs
    by (metis mset_map mset_sort_desc sum_mset_sum_list)
  have f: "\<not> isFiltered '' '' key"
    by (simp add: isFiltered_def filterTerms_blank)
  show ?thesis
    using b f by (simp add: i total_loop_sum s sorted_sort_desc)
qed

theorem tooltip_filtered_total_witness:
  "fst (total_loop (tooltip_items rev ''db'' (Some By_value)
     [plain_item ''web'' 1 0, plain_item ''DB1'' 2 3,
      plain_item ''db2'' 5 2])) = 7"
proof -
  let ?p = "[plain_item ''web'' 1 0, plain_item ''DB1'' 2 3,
      plain_item ''db2'' 5 2]"
  have n: "\<And>x. x \<in> set ?p \<Longrightarrow> ti_name x \<noteq> None" by (auto simp: plain_item_def)
  have t: "filterTerms ''db'' \<noteq> []" by code_simp
  have "isFiltered ''db'' ''web''" "\<not> isFiltered ''db'' ''DB1''" "\<not> isFiltered ''db'' ''db2''" by code_simp+
  then have "sum_list (map (\<lambda>x. orelse (numericValue (ti_value x)) 0)
      (filter (\<lambda>x. \<not> isFiltered ''db'' (the (ti_name x))) ?p)) = 7" by (simp add: plain_item_def)
  from trans [OF conjunct1 [OF conjunct2 [OF conjunct2 [OF
      tooltip_filtered_total [where payload = ?p and engine = rev, OF n t]]]] this]
  show ?thesis .
qed

subsection \<open>The x axis and the pinned y domain\<close>

record x_axis =
  ax_domain :: "int list"
  ax_ticks :: "int list"
  ax_format :: time_style

definition make_axis :: "chart_time \<times> time_data \<Rightarrow> x_axis" where
  "make_axis cd = \<lparr>ax_domain = td_domain (snd cd), ax_ticks = td_ticks (snd cd), ax_format = cp_format (chartTimeData (fst cd))\<rparr>"

definition xAxis :: "chart_time \<times> time_data \<Rightarrow> x_axis option \<Rightarrow> x_axis \<times> x_axis option" where
  \<comment> \<open>the module variable cachedAxis is the last argument and result\<close>
  "xAxis cd cachedAxis =
     (case cachedAxis of
        Some a \<Rightarrow> if at_idx (td_domain (snd cd)) 0 = at_idx (ax_domain a) 0 then (a, cachedAxis)
                  else (make_axis cd, Some (make_axis cd))
      | None \<Rightarrow> (make_axis cd, Some (make_axis cd)))"

fun xAxes :: "(chart_time \<times> time_data) list \<Rightarrow> x_axis option \<Rightarrow> x_axis list" where
  "xAxes [] c = []"
| "xAxes (cd # cds) c = (let (a, c') = xAxis cd c in a # xAxes cds c')"

lemma xAxes_cached:
  assumes "\<And>a b. a \<in> C \<Longrightarrow> b \<in> C \<Longrightarrow> at_idx (td_domain (snd a)) 0 = at_idx (td_domain (snd b)) 0 \<Longrightarrow> make_axis a = make_axis b"
  shows "set cds \<subseteq> C \<Longrightarrow> (case c of None \<Rightarrow> True | Some a \<Rightarrow> a \<in> make_axis ` C) \<Longrightarrow> xAxes cds c = map make_axis cds"
proof (induction cds arbitrary: c)
  case (Cons cd cds)
  have a: "fst (xAxis cd c) = make_axis cd"
  proof (cases c)
    case (Some a)
    with Cons.prems(2) obtain b where "b \<in> C" "a = make_axis b" by auto
    with assms [of cd b] Cons.prems(1) Some show ?thesis
      by (auto simp: xAxis_def make_axis_def)
  qed (simp add: xAxis_def)
  have s: "(case snd (xAxis cd c) of None \<Rightarrow> True | Some a \<Rightarrow> a \<in> make_axis ` C)"
    using Cons.prems by (auto simp: xAxis_def split: option.splits)
  show ?case
    using Cons.IH [OF _ s] Cons.prems(1) a by (simp add: case_prod_unfold Let_def)
qed simp

text \<open>
  The axis cache, keyed by the start of the domain alone, is harmless as long as charts whose
  domains start at the same instant have the same axis; otherwise it hands out the axis of an
  earlier chart time.
\<close>
theorem axis_cache_transparent:
  assumes "\<And>a b. a \<in> set cds \<Longrightarrow> b \<in> set cds \<Longrightarrow> at_idx (td_domain (snd a)) 0 = at_idx (td_domain (snd b)) 0
      \<Longrightarrow> make_axis a = make_axis b"
  shows "xAxes cds None = map make_axis cds"
proof (rule xAxes_cached [where C = "set cds"])
  show "make_axis a = make_axis b" if "a \<in> set cds" "b \<in> set cds"
    "at_idx (td_domain (snd a)) 0 = at_idx (td_domain (snd b)) 0" for a b
    using assms that by blast
qed simp_all

theorem axis_cache_transparent_witness:
  "map ax_format (xAxes [(T1h, \<lparr>td_ticks = [5], td_domain = [0, 9]\<rparr>), (T1w, \<lparr>td_ticks = [4], td_domain = [3, 9]\<rparr>)] None)
     = [HourMinutes, Day]"
proof -
  let ?c = "[(T1h, \<lparr>td_ticks = [5], td_domain = [0, 9]\<rparr>), (T1w, \<lparr>td_ticks = [4], td_domain = [3, 9]\<rparr>)]"
  have "xAxes ?c None = map make_axis ?c"
    by (rule axis_cache_transparent) auto
  then show ?thesis by (simp add: make_axis_def)
qed

lemma axis_cache_stale:
  "map ax_format (xAxes [(T1h, \<lparr>td_ticks = [5], td_domain = [0, 9]\<rparr>), (T1w, \<lparr>td_ticks = [4], td_domain = [0, 9]\<rparr>)] None)
     = [HourMinutes, HourMinutes]"
  by (simp add: xAxis_def make_axis_def)

definition pinnedAxisDomain :: "rat \<Rightarrow> rat" where
  \<comment> \<open>the upper end from the data's maximum; the lower is 0\<close>
  "pinnedAxisDomain dataMax =
     (if dataMax > 10 then of_int (js_round dataMax)
      else if dataMax > 1 then of_int (js_round (dataMax / (1 / 10))) * (1 / 10)
      else dataMax)"

text \<open>
  The pinned domain stays within half a unit of the data's maximum above 10, within a twentieth
  between 1 and 10 and exact below, and never turns a positive maximum into an empty domain; it can
  end below the maximum it is given.
\<close>
theorem pinned_domain_close:
  "\<bar>pinnedAxisDomain m - m\<bar> \<le> (if m > 10 then 1 / 2 else if m > 1 then 1 / 20 else 0)
   \<and> (0 < m \<longrightarrow> 0 < pinnedAxisDomain m)
   \<and> pinnedAxisDomain (104 / 10) < 104 / 10"
proof -
  have b: "\<bar>of_int (js_round m) - m\<bar> \<le> 1 / 2" using js_round_bounds [of m] by linarith
  have c: "\<bar>of_int (js_round (m * 10)) - m * 10\<bar> \<le> 1 / 2" using js_round_bounds [of "m * 10"] by linarith
  have "m > 10 \<Longrightarrow> (0 :: rat) < of_int (js_round m)" "m > 1 \<Longrightarrow> (0 :: rat) < of_int (js_round (m * 10))"
    using b c by linarith+
  then have "0 < m \<longrightarrow> 0 < pinnedAxisDomain m"
    by (simp add: pinnedAxisDomain_def)
  moreover have "\<bar>pinnedAxisDomain m - m\<bar> \<le> (if m > 10 then 1 / 2 else if m > 1 then 1 / 20 else 0)"
  proof -
    have "\<bar>of_int (js_round (m * 10)) * (1 / 10) - m\<bar> \<le> 1 / 20" using c by linarith
    with b show ?thesis by (simp add: pinnedAxisDomain_def)
  qed
  ultimately show ?thesis by (simp add: pinnedAxisDomain_def js_round_def)
qed

theorem pinned_domain_close_witness: "0 < pinnedAxisDomain (1 / 2)"
  using pinned_domain_close [of "1 / 2"] by simp

subsection \<open>On screen or not: lib/use-intersection-observer.ts\<close>

record observed =
  isIntersecting :: bool
  ob_entry :: "bool option"

definition frozen :: "bool \<Rightarrow> observed \<Rightarrow> bool" where
  \<comment> \<open>state.entry?.isIntersecting and freeze\<close>
  "frozen freeze s \<longleftrightarrow> ob_entry s = Some True \<and> freeze"

definition observe_entry :: "rat list \<Rightarrow> bool \<times> rat \<Rightarrow> observed \<Rightarrow> observed" where
  \<comment> \<open>an entry: its isIntersecting and its intersectionRatio\<close>
  "observe_entry thresholds x s =
     (case x of (hit, ratio) \<Rightarrow>
        \<lparr>isIntersecting = hit \<and> list_ex (\<lambda>threshold. threshold \<le> ratio) thresholds, ob_entry = Some hit\<rparr>)"

definition observe :: "bool \<Rightarrow> rat list \<Rightarrow> (bool \<times> rat) list \<Rightarrow> observed \<Rightarrow> observed" where
  \<comment> \<open>one callback with its entries; a frozen hook has no observer (unobserve is never assigned)\<close>
  "observe freeze thresholds entries s = (if frozen freeze s then s else fold (observe_entry thresholds) entries s)"

definition observed_initial :: "bool \<Rightarrow> observed" where
  "observed_initial initialIsIntersecting = \<lparr>isIntersecting = initialIsIntersecting, ob_entry = None\<rparr>"

definition lost_ref :: "bool \<Rightarrow> bool \<Rightarrow> observed \<Rightarrow> observed" where
  \<comment> \<open>the second effect, when the element is gone and was not handled yet\<close>
  "lost_ref freeze initialIsIntersecting s =
     (if ob_entry s \<noteq> None \<and> \<not> freeze then observed_initial initialIsIntersecting else s)"

lemma observe_frozen: "isIntersecting s \<and> ob_entry s = Some True \<Longrightarrow> fold (observe True th) bs s = s"
  by (induction bs) (auto simp: observe_def frozen_def)

lemma observe_fold:
  "entries \<noteq> [] \<Longrightarrow> fold (observe_entry th) entries s = observe_entry th (last entries) s"
  by (induction entries rule: rev_induct) (auto simp: observe_entry_def)

lemma observe_follows:
  "entries \<noteq> [] \<Longrightarrow> isIntersecting (observe False th entries s)
     = (fst (last entries) \<and> list_ex (\<lambda>t. t \<le> snd (last entries)) th)"
  by (auto simp: observe_def frozen_def observe_fold observe_entry_def case_prod_unfold)

text \<open>
  With the default settings, an element that has been on screen at the end of a callback counts
  as on screen for good, whatever comes later, so a card never unmounts its chart; with a higher
  threshold the same freezing can hold an element off screen for good.
\<close>
theorem observer_freezes:
  assumes "entries \<noteq> []" and "fst (last entries)" and "0 \<le> snd (last entries)"
  shows "isIntersecting (fold (observe True [0]) (entries # later) (observed_initial False))
     \<and> \<not> isIntersecting (fold (observe True [1 / 2]) ([(True, 1 / 10)] # later) (observed_initial False))"
proof -
  let ?s = "observe True [0] entries (observed_initial False)"
  have s: "isIntersecting ?s \<and> ob_entry ?s = Some True"
    using assms by (auto simp: observe_def frozen_def observed_initial_def observe_fold observe_entry_def case_prod_unfold)
  let ?t = "observe True [1 / 2] [(True, 1 / 10)] (observed_initial False)"
  have t: "\<not> isIntersecting ?t \<and> ob_entry ?t = Some True"
    by (simp add: observe_def frozen_def observed_initial_def observe_entry_def)
  then have "fold (observe True [1 / 2]) later ?t = ?t"
    by (induction later) (auto simp: observe_def frozen_def)
  with s t show ?thesis by (simp add: observe_frozen)
qed

theorem observer_freezes_witness:
  "isIntersecting (fold (observe True [0]) [[(False, 0), (True, 1)], [(False, 0)]] (observed_initial False))"
  using observer_freezes [of "[(False, 0), (True, 1)]" "[[(False, 0)]]"] by simp

subsection \<open>The card around a chart\<close>

datatype corner = Avg_max_select bool | Filter_bar | Cpu_sheet | Network_sheet | Disk_sheet string string

record 'd card =
  cd_title :: string
  cd_description :: string
  cd_empty :: bool
  cd_grid :: bool
  cd_legend :: bool
  cd_corner :: "corner list"
  cd_chart :: "'d chart"

definition card_of :: "bool \<Rightarrow> bool \<Rightarrow> string \<Rightarrow> string \<Rightarrow> corner list \<Rightarrow> 'd chart \<Rightarrow> 'd card" where
  "card_of isEmpty grid title description corners c =
     \<lparr>cd_title = title, cd_description = description, cd_empty = isEmpty, cd_grid = grid, cd_legend = False,
      cd_corner = corners, cd_chart = c\<rparr>"

record 'd shown_card =
  sc_full_width :: bool
  sc_spinner :: "string option"
  sc_tall :: bool
  sc_children :: "'d chart option"

definition ChartCard :: "bool \<Rightarrow> 'd card \<Rightarrow> 'd shown_card" where
  \<comment> \<open>the spinner's message and the chart, mounted once the card has been on screen\<close>
  "ChartCard onScreen c =
     \<lparr>sc_full_width = \<not> cd_grid c,
      sc_spinner = (if cd_empty c then Some ''Waiting for enough records to display'' else None),
      sc_tall = cd_legend c,
      sc_children = (if onScreen then Some (cd_chart c) else None)\<rparr>"

definition avg_max_value :: "bool \<Rightarrow> string" where
  "avg_max_value mx = (if mx then ''max'' else ''avg'')"

definition avg_max_select :: "string \<Rightarrow> bool" where
  \<comment> \<open>the value given to the store $maxValues\<close>
  "avg_max_select e \<longleftrightarrow> e = ''max''"

lemma avg_max_select_value [simp]: "avg_max_select (avg_max_value mx) = mx"
  by (simp add: avg_max_select_def avg_max_value_def)

subsection \<open>The filter bar\<close>

record filter_bar =
  inputValue :: string
  storeValue :: string
  fb_timer :: "(int \<times> string) option"

datatype filter_event = Typed string | Cleared | Store_changed string

definition filter_effect :: "int \<Rightarrow> filter_bar \<Rightarrow> filter_bar" where
  \<comment> \<open>the second effect with its cleanup: the old timeout is gone, a new one is set while input and store differ\<close>
  "filter_effect now b = (if inputValue b = storeValue b then b\<lparr>fb_timer := None\<rparr>
     else b\<lparr>fb_timer := Some (now + 80, inputValue b)\<rparr>)"

definition store_changed :: "int \<Rightarrow> string \<Rightarrow> filter_bar \<Rightarrow> filter_bar" where
  \<comment> \<open>the first effect copies a changed store value into the input; both effects run, and the second again\<close>
  "store_changed now s b = (if s = storeValue b then b
     else let b1 = filter_effect now (b\<lparr>storeValue := s\<rparr>); b2 = b1\<lparr>inputValue := s\<rparr>
          in if inputValue b1 = s then b2 else filter_effect now b2)"

definition set_input :: "int \<Rightarrow> string \<Rightarrow> filter_bar \<Rightarrow> filter_bar" where
  "set_input now v b = (if v = inputValue b then b else filter_effect now (b\<lparr>inputValue := v\<rparr>))"

fun fb_event :: "int \<Rightarrow> filter_event \<Rightarrow> filter_bar \<Rightarrow> filter_bar" where
  "fb_event now (Typed v) b = set_input now v b"
| "fb_event now Cleared b = store_changed now '''' (set_input now '''' b)"
| "fb_event now (Store_changed s) b = store_changed now s b"

definition filter_fire :: "int \<Rightarrow> filter_bar \<Rightarrow> filter_bar" where
  \<comment> \<open>the timeout, when it is due: store.set(inputValue)\<close>
  "filter_fire now b = (case fb_timer b of
       Some (due, v) \<Rightarrow> if due \<le> now then store_changed now v (b\<lparr>fb_timer := None\<rparr>) else b
     | None \<Rightarrow> b)"

fun filter_run :: "(int \<times> filter_event) list \<Rightarrow> filter_bar \<Rightarrow> filter_bar" where
  "filter_run [] b = b"
| "filter_run ((now, e) # es) b = filter_run es (fb_event now e (filter_fire now b))"

definition filter_ok :: "int \<Rightarrow> filter_bar \<Rightarrow> bool" where
  \<comment> \<open>the timer runs exactly while input and store differ, with the input, and ends within 80 ms\<close>
  "filter_ok now b \<longleftrightarrow> (case fb_timer b of
       None \<Rightarrow> inputValue b = storeValue b
     | Some (due, v) \<Rightarrow> v = inputValue b \<and> inputValue b \<noteq> storeValue b \<and> due \<le> now + 80)"

lemma filter_ok_effect: "filter_ok now (filter_effect now b)"
  by (auto simp: filter_ok_def filter_effect_def)

lemma filter_ok_store_changed: "filter_ok now b \<Longrightarrow> filter_ok now (store_changed now s b)"
  by (auto simp: filter_ok_def store_changed_def filter_effect_def Let_def)

lemma filter_ok_event: "filter_ok now b \<Longrightarrow> filter_ok now (fb_event now e b)"
  by (cases e) (auto simp: set_input_def filter_ok_effect filter_ok_store_changed)

lemma filter_ok_fire:
  assumes "filter_ok t b" and "t \<le> now"
  shows "filter_ok now (filter_fire now b)" and "inputValue (filter_fire now b) = inputValue b"
  using assms
  by (auto simp: filter_ok_def filter_fire_def store_changed_def filter_effect_def Let_def split: option.splits)

lemma filter_run_append:
  "filter_run (es @ [(now, e)]) b = fb_event now e (filter_fire now (filter_run es b))"
  by (induction es arbitrary: b) auto

lemma filter_ok_run:
  "filter_ok t b \<Longrightarrow> sorted (t # map fst es) \<Longrightarrow> filter_ok (last (t # map fst es)) (filter_run es b)"
proof (induction es rule: rev_induct)
  case (snoc x es)
  obtain now e where x: "x = (now, e)" by (cases x)
  have "last (t # map fst es) \<le> now"
    using snoc.prems(2) x by (cases es rule: rev_cases) (auto simp: sorted_append)
  moreover have "filter_ok (last (t # map fst es)) (filter_run es b)"
    using snoc by (auto simp: sorted_append)
  ultimately show ?case
    using filter_ok_fire(1) filter_ok_event by (simp add: x filter_run_append)
qed simp

text \<open>
  The filter bar's store catches up with its input: at every moment a timeout is pending exactly
  when they differ, and 80 ms after the last keystroke both hold what was typed last, with no
  timeout left, whatever was typed, cleared and changed elsewhere before.
\<close>
theorem filter_bar_settles:
  assumes "filter_ok t b" and "sorted (t # map fst es @ [now])"
  shows "filter_ok now (filter_run (es @ [(now, Typed v)]) b)
     \<and> filter_fire (now + 80) (filter_run (es @ [(now, Typed v)]) b)
       = \<lparr>inputValue = v, storeValue = v, fb_timer = None\<rparr>"
proof -
  have ok: "filter_ok now (filter_run (es @ [(now, Typed v)]) b)"
    using filter_ok_run [of t b "es @ [(now, Typed v)]"] assms by simp
  have i: "inputValue (filter_run (es @ [(now, Typed v)]) b) = v"
    by (simp add: filter_run_append set_input_def filter_effect_def)
  have settle: "filter_ok now c \<Longrightarrow> filter_fire (now + 80) c = \<lparr>inputValue = inputValue c, storeValue = inputValue c, fb_timer = None\<rparr>" for c
    by (cases c) (auto simp: filter_ok_def filter_fire_def store_changed_def filter_effect_def Let_def split: option.splits)
  show ?thesis using ok settle [OF ok] i by simp
qed

theorem filter_bar_settles_witness:
  "filter_fire 190 (filter_run ([(0, Typed ''d''), (40, Store_changed ''web''), (90, Typed ''w'')] @ [(110, Typed ''db'')])
     \<lparr>inputValue = '''', storeValue = '''', fb_timer = None\<rparr>) = \<lparr>inputValue = ''db'', storeValue = ''db'', fb_timer = None\<rparr>"
proof -
  have s: "sorted (0 # map fst [(0, Typed ''d''), (40, Store_changed ''web''), (90, Typed ''w'')] @ [110 :: int])" by simp
  have k: "filter_ok 0 \<lparr>inputValue = '''', storeValue = '''', fb_timer = None\<rparr>" by (simp add: filter_ok_def)
  from filter_bar_settles [OF k s, of "''db''"] show ?thesis by simp
qed

end
