(* ===== verification/System_Data.thy ===== *)
theory System_Data
  imports Chart_Data
begin

section \<open>The data of a system page: routes/system/use-system-data.ts\<close>

text \<open>
  The hook behind a system page. Its state: the statistics on screen, the shared cache, the
  counter of requests and the requests in flight. Its steps: selecting a system and a period
  (which may show cached data and send a request), the arrival of a response, realtime messages
  in the 1m period, and the clean-up when the page's id changes. The lemmas show that in every
  interleaving what is shown belongs to the selection, with the exception found for the 1m
  period. The rest are the pure parts: keyboard navigation, the version gate, GPU flags.
\<close>

subsection \<open>State and steps\<close>

record sd_state =
  sd_view :: "string \<times> chart_time"
  sd_cache :: data_cache
  sd_stats :: "stats_record list"
  sd_containers :: "container_point list"
  sd_loading :: bool
  sd_requestId :: nat
  sd_pending :: "(nat \<times> string \<times> chart_time) list"
  sd_isFirst :: bool

definition sd_initial :: sd_state where
  "sd_initial = \<lparr>sd_view = ('''', T1h), sd_cache = [], sd_stats = [], sd_containers = [],
     sd_loading = True, sd_requestId = 0, sd_pending = [], sd_isFirst = True\<rparr>"

definition ss_cache_key :: "string \<Rightarrow> chart_time \<Rightarrow> string" where
  "ss_cache_key systemId chartTime = cache_key systemId chartTime ''system_stats''"

definition cs_cache_key :: "string \<Rightarrow> chart_time \<Rightarrow> string" where
  "cs_cache_key systemId chartTime = cache_key systemId chartTime ''container_stats''"

definition cached_system :: "data_cache \<Rightarrow> string \<Rightarrow> stats_record list" where
  \<comment> \<open>cache.get(key) || []\<close>
  "cached_system cache k = (case map_of cache k of Some (System_entry xs) \<Rightarrow> xs | _ \<Rightarrow> [])"

definition cached_containers :: "data_cache \<Rightarrow> string \<Rightarrow> container_point list" where
  "cached_containers cache k = (case map_of cache k of Some (Container_entry xs) \<Rightarrow> xs | _ \<Rightarrow> [])"

definition recent_enough :: "int \<Rightarrow> stats_record list \<Rightarrow> chart_time \<Rightarrow> bool" where
  \<comment> \<open>lastCreated && Date.now() - lastCreated < expectedInterval * 0.9\<close>
  "recent_enough now cached chartTime = (case at_last cached of
       Some r \<Rightarrow> (case sr_created r of
           Created_ms lastCreated \<Rightarrow>
             lastCreated \<noteq> 0 \<and> 10 * (now - lastCreated) < 9 * expectedInterval (chartTimeData chartTime)
         | _ \<Rightarrow> False)
     | None \<Rightarrow> False)"

definition stats_effect :: "int \<Rightarrow> sd_state \<Rightarrow> sd_state" where
  \<comment> \<open>the effect on [system, chartTime]: now is Date.now()\<close>
  "stats_effect now st =
     (let (systemId, chartTime) = sd_view st
      in if systemId = '''' \<or> chartTime = T1m then st
         else (let requestId = sd_requestId st + 1;
                   st = st\<lparr>sd_requestId := requestId\<rparr>;
                   cachedSystemStats = cached_system (sd_cache st) (ss_cache_key systemId chartTime);
                   cachedContainerData = cached_containers (sd_cache st) (cs_cache_key systemId chartTime);
                   fetch = (\<lambda>st. st\<lparr>sd_pending := sd_pending st @ [(requestId, systemId, chartTime)]\<rparr>)
               in if cachedSystemStats \<noteq> []
                  then (let st = st\<lparr>sd_stats := cachedSystemStats, sd_containers := cachedContainerData,
                              sd_loading := False\<rparr>
                        in if recent_enough now cachedSystemStats chartTime then st else fetch st)
                  else fetch (st\<lparr>sd_loading := True\<rparr>)))"

definition stats_response ::
  "(string \<Rightarrow> int option) \<Rightarrow> nat \<times> string \<times> chart_time \<Rightarrow> stats_record list option \<Rightarrow>
   container_stats_record list option \<Rightarrow> sd_state \<Rightarrow> sd_state" where
  \<comment> \<open>the continuation of Promise.allSettled; a rejected request is None\<close>
  "stats_response parse_date request systemStats containerStats st0 =
     (let (requestId, systemId, chartTime) = request;
          interval = expectedInterval (chartTimeData chartTime);
          ss_key = ss_cache_key systemId chartTime;
          cs_key = cs_cache_key systemId chartTime;
          st = st0\<lparr>sd_pending := removeAll request (sd_pending st0)\<rparr>
      in if requestId \<noteq> sd_requestId st then st
         else (let st = st\<lparr>sd_loading := False\<rparr>;
                   systemData = cached_system (sd_cache st) ss_key;
                   (systemData, st) = (if orelse systemStats [] \<noteq> []
                     then (let d = appendData stats_ops parse_date systemData (the systemStats) interval (Some 100)
                           in (d, st\<lparr>sd_cache := AList.update ss_key (System_entry d) (sd_cache st)\<rparr>))
                     else (systemData, st));
                   st = st\<lparr>sd_stats := systemData\<rparr>;
                   containerData = cached_containers (sd_cache st) cs_key;
                   (containerData, st) = (if orelse containerStats [] \<noteq> []
                     then (let d = appendData point_ops parse_date containerData
                                     (makeContainerData parse_date (the containerStats)) interval (Some 100)
                           in (d, st\<lparr>sd_cache := AList.update cs_key (Container_entry d) (sd_cache st)\<rparr>))
                     else (containerData, st))
               in st\<lparr>sd_containers := containerData\<rparr>))"

definition rt_subscribe :: "sd_state \<Rightarrow> sd_state" where
  \<comment> \<open>the realtime effect starts a subscription: its isFirst is fresh\<close>
  "rt_subscribe st = st\<lparr>sd_isFirst := True\<rparr>"

definition rt_message :: "int \<Rightarrow> system_stats \<Rightarrow> container_stats list \<Rightarrow> sd_state \<Rightarrow> sd_state" where
  \<comment> \<open>a realtime message of the 1m period at time now\<close>
  "rt_message now stats container st =
     (let statsPoint = \<lparr>sr_created = Created_ms now, sr_stats = Some stats\<rparr>;
          containerPoint = (if container \<noteq> [] then Some (makeContainerPoint (Created_ms now) container) else None)
      in if sd_isFirst st
         then st\<lparr>sd_isFirst := False, sd_stats := [statsPoint],
                 sd_containers := (case containerPoint of Some p \<Rightarrow> [p] | None \<Rightarrow> [])\<rparr>
         else (let st = st\<lparr>sd_stats := appendData stats_ops (\<lambda>_. None) (sd_stats st) [statsPoint] 1000 (Some 60)\<rparr>
               in case containerPoint of
                    Some p \<Rightarrow> st\<lparr>sd_containers := appendData point_ops (\<lambda>_. None) (sd_containers st) [p] 1000 (Some 60)\<rparr>
                  | None \<Rightarrow> st))"

definition id_cleanup :: "sd_state \<Rightarrow> sd_state" where
  \<comment> \<open>the clean-up of the effect on [id]\<close>
  "id_cleanup st = st\<lparr>sd_stats := [], sd_containers := []\<rparr>"

definition sd_select :: "int \<Rightarrow> string \<Rightarrow> chart_time \<Rightarrow> sd_state \<Rightarrow> sd_state" where
  \<comment> \<open>a render with another system or period, and its effects\<close>
  "sd_select now systemId chartTime st =
     (let st = stats_effect now (st\<lparr>sd_view := (systemId, chartTime)\<rparr>)
      in if chartTime = T1m then rt_subscribe st else st)"

subsection \<open>What is shown belongs to the selection\<close>

text \<open>
  owner and container_owner say which system and period a measurement was taken for; a response
  to a request carries only measurements of its system and period.
\<close>

type_synonym selection = "string \<times> chart_time"

definition stats_of :: "(system_stats \<Rightarrow> selection) \<Rightarrow> selection \<Rightarrow> stats_record \<Rightarrow> bool" where
  "stats_of owner v r = (case sr_stats r of None \<Rightarrow> True | Some x \<Rightarrow> owner x = v)"

definition point_of :: "(container_stats \<Rightarrow> selection) \<Rightarrow> selection \<Rightarrow> container_point \<Rightarrow> bool" where
  "point_of owner v p = list_all (\<lambda>(n, x). owner x = v) (cp_stats p)"

definition response_of ::
  "(system_stats \<Rightarrow> selection) \<Rightarrow> (container_stats \<Rightarrow> selection) \<Rightarrow> selection \<Rightarrow>
   stats_record list option \<Rightarrow> container_stats_record list option \<Rightarrow> bool" where
  "response_of owner container_owner v ss cs \<longleftrightarrow>
     list_all (stats_of owner v) (orelse ss [])
     \<and> list_all (\<lambda>r. list_all (\<lambda>x. container_owner x = v) (csr_stats r)) (orelse cs [])"

inductive sd_step ::
  "(system_stats \<Rightarrow> selection) \<Rightarrow> (container_stats \<Rightarrow> selection) \<Rightarrow> (string \<Rightarrow> int option) \<Rightarrow>
   sd_state \<Rightarrow> sd_state \<Rightarrow> bool"
  for owner container_owner parse_date
where
  select: "\<lbrakk>systemId \<noteq> ''''; chartTime \<noteq> T1m\<rbrakk>
    \<Longrightarrow> sd_step owner container_owner parse_date st (sd_select now systemId chartTime st)"
| respond: "\<lbrakk>(n, systemId, chartTime) \<in> set (sd_pending st);
     response_of owner container_owner (systemId, chartTime) ss cs\<rbrakk>
    \<Longrightarrow> sd_step owner container_owner parse_date st
          (stats_response parse_date (n, systemId, chartTime) ss cs st)"
| cleanup: "sd_step owner container_owner parse_date st (id_cleanup st)"

inductive_cases sd_stepE: "sd_step owner container_owner parse_date st st'"

definition cache_owned ::
  "(system_stats \<Rightarrow> selection) \<Rightarrow> (container_stats \<Rightarrow> selection) \<Rightarrow> data_cache \<Rightarrow> bool" where
  "cache_owned owner container_owner cache \<longleftrightarrow>
     (\<forall>s ct. list_all (stats_of owner (s, ct)) (cached_system cache (ss_cache_key s ct))
        \<and> list_all (point_of container_owner (s, ct)) (cached_containers cache (cs_cache_key s ct)))"

definition shows_selection ::
  "(system_stats \<Rightarrow> selection) \<Rightarrow> (container_stats \<Rightarrow> selection) \<Rightarrow> sd_state \<Rightarrow> bool" where
  "shows_selection owner container_owner st \<longleftrightarrow>
     list_all (stats_of owner (sd_view st)) (sd_stats st)
     \<and> list_all (point_of container_owner (sd_view st)) (sd_containers st)"

definition sd_inv ::
  "(system_stats \<Rightarrow> selection) \<Rightarrow> (container_stats \<Rightarrow> selection) \<Rightarrow> sd_state \<Rightarrow> bool" where
  "sd_inv owner container_owner st \<longleftrightarrow>
     cache_owned owner container_owner (sd_cache st)
     \<and> (\<not> sd_loading st \<longrightarrow> shows_selection owner container_owner st)
     \<and> (\<forall>(n, v) \<in> set (sd_pending st). n \<le> sd_requestId st \<and> (n = sd_requestId st \<longrightarrow> v = sd_view st))"

lemma last_sep_inj:
  fixes s t s' t' :: string
  assumes "s @ c # t = s' @ c # t'" and "c \<notin> set t" and "c \<notin> set t'"
  shows "s = s' \<and> t = t'"
proof -
  have "length s = length s'"
    using arg_cong [OF assms(1), of "last_index_of c"] assms(2,3) by (simp add: last_index_of_split)
  then show ?thesis using assms(1) by simp
qed

lemma chart_time_str_no_sep: "CHR ''_'' \<notin> set (chart_time_str ct)"
  by (cases ct) simp_all

lemma cache_key_inj: "cache_key s ct coll = cache_key s' ct' coll \<Longrightarrow> s = s' \<and> ct = ct'"
proof -
  assume "cache_key s ct coll = cache_key s' ct' coll"
  then have "s @ CHR ''_'' # chart_time_str ct = s' @ CHR ''_'' # chart_time_str ct'"
    by (simp add: cache_key_def)
  then have "s = s' \<and> chart_time_str ct = chart_time_str ct'"
    by (rule last_sep_inj) (rule chart_time_str_no_sep)+
  then show ?thesis by (auto dest: chart_time_str_inj)
qed

lemma cache_keys_differ: "ss_cache_key s ct \<noteq> cs_cache_key s' ct'"
proof
  assume "ss_cache_key s ct = cs_cache_key s' ct'"
  then have "rev (ss_cache_key s ct) ! 6 = rev (cs_cache_key s' ct') ! 6" by simp
  then show False by (simp add: ss_cache_key_def cs_cache_key_def cache_key_def)
qed

lemma appended_all:
  assumes "\<And>c r. P r \<Longrightarrow> P (with_created ops c r)" and "\<And>r. P (gap_for ops r)"
  shows "list_all P rs \<Longrightarrow> list_all P (appended ops pd ei p rs)"
  by (induction rs arbitrary: p) (simp_all add: assms Let_def)

lemma appendData_all:
  assumes "\<And>c r. P r \<Longrightarrow> P (with_created ops c r)" and "\<And>r. P (gap_for ops r)"
    and "list_all P prev" and "list_all P rs"
  shows "list_all P (appendData ops pd prev rs ei ml)"
proof (cases "rs = []")
  case True
  then show ?thesis using assms by (simp add: appendData_def)
next
  case False
  have "list_all P (pre_trim prev n ml)" for n
    using assms(3) set_mono_suffix [OF pre_trim_suffix [of prev n ml]] by (auto simp: list_all_iff)
  then show ?thesis
    using appended_all [of P ops, OF assms(1,2)] assms(4) by (simp add: appendData_split [OF False])
qed

lemma appendData_stats_of:
  "list_all (stats_of owner v) prev \<Longrightarrow> list_all (stats_of owner v) rs \<Longrightarrow>
     list_all (stats_of owner v) (appendData stats_ops pd prev rs ei ml)"
  by (rule appendData_all) (simp_all add: stats_of_def stats_ops_def)

lemma appendData_point_of:
  "list_all (point_of owner v) prev \<Longrightarrow> list_all (point_of owner v) rs \<Longrightarrow>
     list_all (point_of owner v) (appendData point_ops pd prev rs ei ml)"
  by (rule appendData_all) (simp_all add: point_of_def point_ops_def)

lemma list_all_update: "list_all P m \<Longrightarrow> P (k, v) \<Longrightarrow> list_all P (AList.update k v m)"
  by (induction m) auto

lemma point_of_empty: "point_of owner v \<lparr>cp_created = c, cp_stats = []\<rparr>"
  by (simp add: point_of_def)

lemma makeContainerPoint_of:
  "list_all (\<lambda>x. owner x = v) cs \<Longrightarrow> point_of owner v (makeContainerPoint c cs)"
proof (induction cs rule: rev_induct)
  case Nil
  then show ?case by (simp add: makeContainerPoint_def point_of_def)
next
  case (snoc x cs)
  then show ?case
    by (simp add: makeContainerPoint_snoc add_container_def point_of_def list_all_update)
qed

lemma makeContainerData_of:
  "list_all (\<lambda>r. list_all (\<lambda>x. owner x = v) (csr_stats r)) cs \<Longrightarrow>
     list_all (point_of owner v) (makeContainerData pd cs)"
  by (induction cs) (simp_all add: makeContainerData_def makeContainerPoint_of point_of_empty)

lemma cache_owned_update_ss:
  assumes "cache_owned ow oc cache" and "list_all (stats_of ow (s, ct)) xs"
  shows "cache_owned ow oc (AList.update (ss_cache_key s ct) (System_entry xs) cache)"
proof -
  have "ss_cache_key s' ct' = ss_cache_key s ct \<Longrightarrow> s' = s \<and> ct' = ct" for s' ct'
    unfolding ss_cache_key_def by (rule cache_key_inj)
  then show ?thesis
    using assms cache_keys_differ
    by (auto simp: cache_owned_def cached_system_def cached_containers_def)
qed

lemma cache_owned_update_cs:
  assumes "cache_owned ow oc cache" and "list_all (point_of oc (s, ct)) xs"
  shows "cache_owned ow oc (AList.update (cs_cache_key s ct) (Container_entry xs) cache)"
proof -
  have "cs_cache_key s' ct' = cs_cache_key s ct \<Longrightarrow> s' = s \<and> ct' = ct" for s' ct'
    unfolding cs_cache_key_def by (rule cache_key_inj)
  then show ?thesis
    using assms cache_keys_differ
    by (auto simp: cache_owned_def cached_system_def cached_containers_def)
qed

lemma cached_containers_update_ss [simp]:
  "cached_containers (AList.update (ss_cache_key s ct) e cache) (cs_cache_key s' ct')
     = cached_containers cache (cs_cache_key s' ct')"
  using cache_keys_differ [of s ct s' ct'] by (simp add: cached_containers_def)

lemma sd_inv_initial: "sd_inv ow oc sd_initial"
  by (simp add: sd_inv_def sd_initial_def cache_owned_def cached_system_def cached_containers_def)

lemma stats_effect_cache [simp]: "sd_cache (stats_effect now st) = sd_cache st"
  "sd_view (stats_effect now st) = sd_view st"
  by (simp_all add: stats_effect_def Let_def split: prod.splits)

lemma stats_effect_shows:
  assumes "cache_owned ow oc (sd_cache st)" and "sd_view st = (s, ct)" and "s \<noteq> ''''" and "ct \<noteq> T1m"
    and "\<not> sd_loading (stats_effect now st)"
  shows "shows_selection ow oc (stats_effect now st)"
  using assms
  by (auto simp: stats_effect_def shows_selection_def cache_owned_def Let_def split: if_splits)

lemma stats_effect_requestId:
  assumes "sd_view st = (s, ct)" and "s \<noteq> ''''" and "ct \<noteq> T1m"
  shows "sd_requestId (stats_effect now st) = sd_requestId st + 1"
    and "set (sd_pending (stats_effect now st)) \<subseteq> insert (sd_requestId st + 1, s, ct) (set (sd_pending st))"
  using assms by (auto simp: stats_effect_def Let_def)

lemma sd_select_inv [keeps]:
  assumes "sd_inv ow oc st" and "s \<noteq> ''''" and "ct \<noteq> T1m"
  shows "sd_inv ow oc (sd_select now s ct st)"
proof -
  define st1 where "st1 = st\<lparr>sd_view := (s, ct)\<rparr>"
  have st1: "sd_view st1 = (s, ct)" "sd_cache st1 = sd_cache st" "sd_requestId st1 = sd_requestId st"
    "sd_pending st1 = sd_pending st"
    by (simp_all add: st1_def)
  have owned: "cache_owned ow oc (sd_cache st)" using assms(1) by (simp add: sd_inv_def)
  have shows': "\<not> sd_loading (stats_effect now st1) \<longrightarrow> shows_selection ow oc (stats_effect now st1)"
    using stats_effect_shows [of ow oc st1 s ct now] owned assms st1 by simp
  have "\<forall>(n, v) \<in> set (sd_pending (stats_effect now st1)).
      n \<le> sd_requestId st + 1 \<and> (n = sd_requestId st + 1 \<longrightarrow> v = (s, ct))"
    using stats_effect_requestId(2) [OF st1(1) assms(2,3), of now] assms(1) st1
    by (fastforce simp: sd_inv_def)
  then show ?thesis
    using shows' owned assms(3) stats_effect_requestId(1) [OF st1(1) assms(2,3), of now] st1
    by (simp add: sd_inv_def sd_select_def Let_def st1_def [symmetric])
qed

text \<open>The two halves of a response that is not stale.\<close>

definition system_data_after ::
  "(string \<Rightarrow> int option) \<Rightarrow> data_cache \<Rightarrow> string \<Rightarrow> chart_time \<Rightarrow> stats_record list option \<Rightarrow> stats_record list" where
  "system_data_after pd cache s ct ss =
     (if orelse ss [] \<noteq> []
      then appendData stats_ops pd (cached_system cache (ss_cache_key s ct)) (the ss)
             (expectedInterval (chartTimeData ct)) (Some 100)
      else cached_system cache (ss_cache_key s ct))"

definition container_data_after ::
  "(string \<Rightarrow> int option) \<Rightarrow> data_cache \<Rightarrow> string \<Rightarrow> chart_time \<Rightarrow> container_stats_record list option \<Rightarrow> container_point list" where
  "container_data_after pd cache s ct cs =
     (if orelse cs [] \<noteq> []
      then appendData point_ops pd (cached_containers cache (cs_cache_key s ct)) (makeContainerData pd (the cs))
             (expectedInterval (chartTimeData ct)) (Some 100)
      else cached_containers cache (cs_cache_key s ct))"

lemma stats_response_stale:
  "n \<noteq> sd_requestId st \<Longrightarrow>
     stats_response pd (n, s, ct) ss cs st = st\<lparr>sd_pending := removeAll (n, s, ct) (sd_pending st)\<rparr>"
  by (simp add: stats_response_def)

lemma stats_response_current:
  assumes "n = sd_requestId st"
  shows "sd_stats (stats_response pd (n, s, ct) ss cs st) = system_data_after pd (sd_cache st) s ct ss"
    and "sd_containers (stats_response pd (n, s, ct) ss cs st) = container_data_after pd (sd_cache st) s ct cs"
    and "sd_view (stats_response pd (n, s, ct) ss cs st) = sd_view st"
    and "sd_requestId (stats_response pd (n, s, ct) ss cs st) = sd_requestId st"
    and "sd_loading (stats_response pd (n, s, ct) ss cs st) = False"
    and "sd_pending (stats_response pd (n, s, ct) ss cs st) = removeAll (n, s, ct) (sd_pending st)"
  using assms
  by (simp_all add: stats_response_def system_data_after_def container_data_after_def Let_def)

lemma stats_response_cache:
  assumes "n = sd_requestId st"
  shows "sd_cache (stats_response pd (n, s, ct) ss cs st) =
     (let c = (if orelse ss [] \<noteq> [] then AList.update (ss_cache_key s ct)
                 (System_entry (system_data_after pd (sd_cache st) s ct ss)) (sd_cache st) else sd_cache st)
      in if orelse cs [] \<noteq> [] then AList.update (cs_cache_key s ct)
           (Container_entry (container_data_after pd (sd_cache st) s ct cs)) c else c)"
  using assms
  by (simp add: stats_response_def system_data_after_def container_data_after_def Let_def)

lemma data_after_owned:
  assumes "cache_owned ow oc cache" and "response_of ow oc (s, ct) ss cs"
  shows "list_all (stats_of ow (s, ct)) (system_data_after pd cache s ct ss)"
    and "list_all (point_of oc (s, ct)) (container_data_after pd cache s ct cs)"
proof -
  have "list_all (stats_of ow (s, ct)) (cached_system cache (ss_cache_key s ct))"
    "list_all (point_of oc (s, ct)) (cached_containers cache (cs_cache_key s ct))"
    using assms(1) by (simp_all add: cache_owned_def)
  then show "list_all (stats_of ow (s, ct)) (system_data_after pd cache s ct ss)"
    and "list_all (point_of oc (s, ct)) (container_data_after pd cache s ct cs)"
    using assms(2) unfolding system_data_after_def container_data_after_def response_of_def
    by (cases ss; cases cs; auto intro!: appendData_stats_of appendData_point_of makeContainerData_of)+
qed

lemma stats_response_inv [keeps]:
  assumes inv: "sd_inv ow oc st" and "(n, s, ct) \<in> set (sd_pending st)" and "response_of ow oc (s, ct) ss cs"
  shows "sd_inv ow oc (stats_response pd (n, s, ct) ss cs st)"
proof (cases "n = sd_requestId st")
  case False
  then show ?thesis using inv by (auto simp: stats_response_stale sd_inv_def shows_selection_def)
next
  case True
  have v: "sd_view st = (s, ct)" using inv assms(2) True by (auto simp: sd_inv_def)
  have owned: "cache_owned ow oc (sd_cache st)" using inv by (simp add: sd_inv_def)
  note after = data_after_owned [OF owned assms(3)]
  have "cache_owned ow oc (sd_cache (stats_response pd (n, s, ct) ss cs st))"
    using owned after
    by (simp add: stats_response_cache [OF True] Let_def cache_owned_update_ss cache_owned_update_cs)
  moreover have "shows_selection ow oc (stats_response pd (n, s, ct) ss cs st)"
    using after by (simp add: shows_selection_def stats_response_current [OF True] v)
  moreover have "\<forall>(m, v) \<in> set (sd_pending st). m \<le> sd_requestId st \<and> (m = sd_requestId st \<longrightarrow> v = sd_view st)"
    using inv by (simp add: sd_inv_def)
  ultimately show ?thesis
    by (auto simp: sd_inv_def stats_response_current [OF True])
qed

lemma id_cleanup_inv [keeps]: "sd_inv ow oc st \<Longrightarrow> sd_inv ow oc (id_cleanup st)"
  by (simp add: sd_inv_def id_cleanup_def shows_selection_def)

lemma sd_step_inv: "sd_step ow oc pd st st' \<Longrightarrow> sd_inv ow oc st \<Longrightarrow> sd_inv ow oc st'"
  by (erule sd_stepE) (auto intro: keeps)

lemma sd_reach_inv: "(sd_step ow oc pd)\<^sup>*\<^sup>* st st' \<Longrightarrow> sd_inv ow oc st \<Longrightarrow> sd_inv ow oc st'"
  by (induction rule: rtranclp_induct) (auto intro: sd_step_inv)



subsection \<open>The realtime period\<close>

text \<open>
  The effect does not count the switch to 1m as a request, so a response still in flight is not
  stale: it replaces the realtime points.
\<close>

lemma rt_message_keeps [simp]:
  "sd_requestId (rt_message now x cs st) = sd_requestId st"
  "sd_cache (rt_message now x cs st) = sd_cache st"
  "sd_pending (rt_message now x cs st) = sd_pending st"
  by (simp_all add: rt_message_def Let_def split: option.splits)

fun rt_messages :: "(int \<times> system_stats \<times> container_stats list) list \<Rightarrow> sd_state \<Rightarrow> sd_state" where
  "rt_messages [] st = st"
| "rt_messages ((now, x, cs) # ms) st = rt_messages ms (rt_message now x cs st)"

lemma rt_messages_keep [simp]:
  "sd_requestId (rt_messages ms st) = sd_requestId st"
  "sd_cache (rt_messages ms st) = sd_cache st"
  "sd_pending (rt_messages ms st) = sd_pending st"
  by (induction ms st rule: rt_messages.induct) simp_all

text \<open>
  The guard does not cover the 1m period: a response that is in flight when 1m is selected
  is applied after any number of realtime messages, and the data of its period replace them.
\<close>
theorem late_response_replaces_realtime:
  assumes "(sd_requestId st, s, ct) \<in> set (sd_pending st)"
  shows "sd_stats (stats_response pd (sd_requestId st, s, ct) ss cs (rt_messages ms (sd_select now s T1m st)))
     = system_data_after pd (sd_cache st) s ct ss"
proof -
  have "sd_requestId (sd_select now s T1m st) = sd_requestId st"
    and "sd_cache (sd_select now s T1m st) = sd_cache st"
    by (simp_all add: sd_select_def stats_effect_def rt_subscribe_def)
  then show ?thesis by (simp add: stats_response_current)
qed

theorem late_response_replaces_realtime_witness:
  "sd_stats (stats_response (\<lambda>_. Some 5) (sd_requestId (sd_select 0 ''a'' T1h sd_initial), ''a'', T1h)
       (Some [sample_stats (Created_str ''d'')]) None
       (rt_messages [] (sd_select 7 ''a'' T1m (sd_select 0 ''a'' T1h sd_initial))))
     = system_data_after (\<lambda>_. Some 5) (sd_cache (sd_select 0 ''a'' T1h sd_initial)) ''a'' T1h
         (Some [sample_stats (Created_str ''d'')])"
  by (rule late_response_replaces_realtime)
    (simp add: sd_select_def stats_effect_def sd_initial_def cached_system_def Let_def)

lemma rt_first_message:
  "sd_isFirst st \<Longrightarrow> sd_stats (rt_message now x cs st) = [\<lparr>sr_created = Created_ms now, sr_stats = Some x\<rparr>]"
  by (simp add: rt_message_def Let_def)

subsection \<open>Version gates\<close>

definition object_string :: "sem_ver \<Rightarrow> string" where
  \<comment> \<open>String(obj): a plain object's text does not depend on its fields\<close>
  "object_string v = ''[object Object]''"

definition less_objects :: "sem_ver \<Rightarrow> sem_ver \<Rightarrow> bool" where
  \<comment> \<open>a < b on objects compares their texts, code unit by code unit\<close>
  "less_objects a b = ord_class.lexordp (map (of_char :: char \<Rightarrow> nat) (object_string a)) (map of_char (object_string b))"

definition hide_1m_effect :: "string option \<Rightarrow> chart_time \<Rightarrow> chart_time" where
  \<comment> \<open>the effect on [system?.info?.v]: the new $chartTime\<close>
  "hide_1m_effect v chartTime =
     (if less_objects (parseSemVer (orelse v '''')) (parseSemVer ''0.13.0'') then T1h else chartTime)"

definition realtime_allowed :: "system_status \<Rightarrow> string option \<Rightarrow> bool" where
  \<comment> \<open>not (system.status !== Up || parseSemVer(v).minor < 13): otherwise $chartTime becomes 1h\<close>
  "realtime_allowed status v \<longleftrightarrow> status = Up
     \<and> \<not> (case minor (parseSemVer (orelse v '''')) of Some m \<Rightarrow> m < 13 | None \<Rightarrow> False)"

lemma lexordp_irrefl_nat: "\<not> ord_class.lexordp (xs :: nat list) xs"
  by (induction xs) simp_all

text \<open>
  The effect meant to leave the 1m period for agents before 0.13.0 never does anything: it
  compares version objects with <, which is false for every pair, whatever the versions.
\<close>
theorem hide_1m_never_fires: "hide_1m_effect v chartTime = chartTime"
  by (simp add: hide_1m_effect_def less_objects_def object_string_def lexordp_irrefl_nat)

lemma realtime_allowed_version:
  "realtime_allowed status (Some (version_text 0 m p)) \<longleftrightarrow> status = Up \<and> 13 \<le> m"
proof -
  have "minor (parseSemVer (version_text 0 m p)) = Some (of_nat m)"
    by (simp add: parseSemVer_def split_on_version version_text_no_dash js_number_nat_str Let_def at_idx_def)
  moreover have "(of_nat m :: rat) < 13 \<longleftrightarrow> m < 13"
    by (metis of_nat_less_iff of_nat_numeral)
  ultimately show ?thesis by (auto simp: realtime_allowed_def)
qed

subsection \<open>Keyboard navigation\<close>

record key_event =
  ke_in_text_field :: bool
  ke_modifier :: bool
  ke_shift :: bool
  ke_key :: string
  ke_in_tablist :: bool

datatype key_result = Key_ignored | Show_tab "string option" | Go_system string

definition find_index :: "('a \<Rightarrow> bool) \<Rightarrow> 'a list \<Rightarrow> int" where
  \<comment> \<open>findIndex and indexOf: -1 when there is none\<close>
  "find_index P xs = (case find (\<lambda>(i, x). P x) (enumerate 0 xs) of Some (i, _) \<Rightarrow> int i | None \<Rightarrow> - 1)"

definition handleKeyUp ::
  "key_event \<Rightarrow> bool \<Rightarrow> string list \<Rightarrow> string \<Rightarrow> system_record list \<Rightarrow> string \<Rightarrow> key_result" where
  \<comment> \<open>tabs_mode is displayMode === "tabs"; pageId is the page's system\<close>
  "handleKeyUp e tabs_mode tabs activeTab systems pageId =
     (if ke_in_text_field e \<or> ke_modifier e then Key_ignored
      else let isLeft = (ke_key e = ''ArrowLeft'' \<or> ke_key e = ''h'');
               isRight = (ke_key e = ''ArrowRight'' \<or> ke_key e = ''l'')
        in if \<not> isLeft \<and> \<not> isRight then Key_ignored
           else if tabs_mode \<and> \<not> ke_shift e then
             (if ke_in_tablist e then Key_ignored
              else let currentIdx = find_index (\<lambda>t. t = activeTab) tabs;
                       n = int (length tabs);
                       nextIdx = (if isLeft then (currentIdx - 1 + n) mod n else (currentIdx + 1) mod n)
                in Show_tab (at_idx tabs (nat nextIdx)))
           else if \<not> tabs_mode \<and> ke_shift e then Key_ignored
           else (let currentIndex = find_index (\<lambda>s. sys_id s = pageId) systems;
                     n = int (length systems)
                 in if currentIndex = - 1 \<or> length systems \<le> 1 then Key_ignored
                    else if isLeft then Go_system (sys_id (systems ! nat ((currentIndex - 1 + n) mod n)))
                    else Go_system (sys_id (systems ! nat ((currentIndex + 1) mod n)))))"

definition system_key :: "string \<Rightarrow> key_event" where
  \<comment> \<open>the key alone, outside text fields and tab lists\<close>
  "system_key k = \<lparr>ke_in_text_field = False, ke_modifier = False, ke_shift = False, ke_key = k, ke_in_tablist = False\<rparr>"

lemma find_enumerate:
  "distinct (map f xs) \<Longrightarrow> i < length xs \<Longrightarrow> find (\<lambda>(j, x). f x = f (xs ! i)) (enumerate n xs) = Some (n + i, xs ! i)"
proof (induction xs arbitrary: i n)
  case (Cons x xs)
  show ?case
  proof (cases i)
    case 0
    then show ?thesis by simp
  next
    case (Suc k)
    then have "f x \<noteq> f (xs ! k)" using Cons.prems nth_mem [of k xs] by auto
    then show ?thesis using Suc Cons.IH [of k "Suc n"] Cons.prems by simp
  qed
qed simp

lemma find_index_nth:
  "distinct (map f xs) \<Longrightarrow> i < length xs \<Longrightarrow> find_index (\<lambda>x. f x = f (xs ! i)) xs = int i"
  using find_enumerate [of f xs i 0] by (simp add: find_index_def)

lemma key_left_right:
  assumes "distinct (map sys_id systems)" and "i < length systems" and "1 < length systems"
  shows "handleKeyUp (system_key ''ArrowRight'') False tabs cur systems (sys_id (systems ! i))
      = Go_system (sys_id (systems ! ((i + 1) mod length systems)))"
    and "handleKeyUp (system_key ''ArrowLeft'') False tabs cur systems (sys_id (systems ! i))
      = Go_system (sys_id (systems ! ((i + length systems - 1) mod length systems)))"
proof -
  have "nat ((int i + 1) mod int (length systems)) = (i + 1) mod length systems"
    by (metis nat_int of_nat_1 of_nat_add zmod_int)
  moreover have "nat ((int i - 1 + int (length systems)) mod int (length systems))
      = (i + length systems - 1) mod length systems"
  proof -
    have "int i - 1 + int (length systems) = int (i + length systems - 1)" using assms(3) by simp
    then show ?thesis by (metis nat_int zmod_int)
  qed
  ultimately show "handleKeyUp (system_key ''ArrowRight'') False tabs cur systems (sys_id (systems ! i))
      = Go_system (sys_id (systems ! ((i + 1) mod length systems)))"
    and "handleKeyUp (system_key ''ArrowLeft'') False tabs cur systems (sys_id (systems ! i))
      = Go_system (sys_id (systems ! ((i + length systems - 1) mod length systems)))"
    using assms find_index_nth [OF assms(1,2)]
    by (simp_all add: handleKeyUp_def system_key_def Let_def)
qed

text \<open>
  Keyboard navigation goes around the list of systems: from the i-th of at least two, right
  leads to the next one cyclically, and left from there leads back.
\<close>
theorem keyboard_navigation_cycles:
  assumes "distinct (map sys_id systems)" and "i < length systems" and "1 < length systems"
  shows "handleKeyUp (system_key ''ArrowRight'') False tabs cur systems (sys_id (systems ! i))
        = Go_system (sys_id (systems ! ((i + 1) mod length systems)))
     \<and> handleKeyUp (system_key ''ArrowLeft'') False tabs cur systems (sys_id (systems ! ((i + 1) mod length systems)))
        = Go_system (sys_id (systems ! i))"
proof -
  let ?n = "length systems"
  have j: "(i + 1) mod ?n < ?n" by (rule mod_less_divisor) (use assms(3) in linarith)
  have "((i + 1) mod ?n + ?n - 1) mod ?n = i"
    using assms(2,3) by (cases "i + 1 = ?n") auto
  then show ?thesis
    using key_left_right(1) [OF assms] key_left_right(2) [OF assms(1) j assms(3)] by simp
qed

definition sample_systems :: "system_record list" where
  "sample_systems = [sample_system ''a'' ''alpha'' Up, sample_system ''b'' ''beta'' Up, sample_system ''c'' ''gamma'' Down]"

theorem keyboard_navigation_cycles_witness:
  "handleKeyUp (system_key ''ArrowRight'') False [''core''] ''core'' sample_systems (sys_id (sample_systems ! 2))
        = Go_system (sys_id (sample_systems ! ((2 + 1) mod length sample_systems)))
     \<and> handleKeyUp (system_key ''ArrowLeft'') False [''core''] ''core'' sample_systems
          (sys_id (sample_systems ! ((2 + 1) mod length sample_systems)))
        = Go_system (sys_id (sample_systems ! 2))"
  by (rule keyboard_navigation_cycles) (simp_all add: sample_systems_def sample_system_def)

subsection \<open>Derived values\<close>

definition isLongerChart :: "chart_time \<Rightarrow> bool" where
  "isLongerChart chartTime \<longleftrightarrow> chartTime \<notin> {T1m, T1h}"

definition showMax :: "bool \<Rightarrow> chart_time \<Rightarrow> bool" where
  "showMax maxValues chartTime \<longleftrightarrow> maxValues \<and> isLongerChart chartTime"

definition dataEmpty :: "sd_state \<Rightarrow> bool" where
  "dataEmpty st \<longleftrightarrow> \<not> sd_loading st \<and> sd_stats st = []"

definition isPodman :: "system_details \<Rightarrow> system_info \<Rightarrow> bool" where
  "isPodman details info = orelse (det_podman details) (orelse (si_p info) False)"

definition gpus_of :: "stats_record \<Rightarrow> (string \<times> gpu_data) list option" where
  \<comment> \<open>stats?.g\<close>
  "gpus_of r = (case sr_stats r of None \<Rightarrow> None | Some x \<Rightarrow> st_g x)"

definition lastGpus :: "stats_record list \<Rightarrow> (string \<times> gpu_data) list option" where
  "lastGpus systemStats = (case at_last systemStats of None \<Rightarrow> None | Some r \<Rightarrow> gpus_of r)"

fun gpu_inner :: "gpu_data list \<Rightarrow> bool \<times> bool \<Rightarrow> bool \<times> bool" where
  \<comment> \<open>the loop over the GPUs of a record: engines and power seen so far; it breaks when both are\<close>
  "gpu_inner [] acc = acc"
| "gpu_inner (g # gs) (engines, watts) =
     (let engines = (if \<not> engines \<and> gpu_e g \<noteq> None then True else engines);
          watts = (if \<not> watts \<and> (gpu_p g \<noteq> None \<or> gpu_pp g \<noteq> None) then True else watts)
      in if engines \<and> watts then (engines, watts) else gpu_inner gs (engines, watts))"

fun gpu_outer :: "stats_record list \<Rightarrow> bool \<times> bool \<Rightarrow> bool \<times> bool" where
  \<comment> \<open>the loop over the records, while one of the two is missing\<close>
  "gpu_outer [] acc = acc"
| "gpu_outer (r # rs) (engines, watts) =
     (if \<not> engines \<or> \<not> watts
      then (case gpus_of r of
              None \<Rightarrow> gpu_outer rs (engines, watts)
            | Some gpus \<Rightarrow> gpu_outer rs (gpu_inner (map snd gpus) (engines, watts)))
      else (engines, watts))"

definition gpu_flags :: "stats_record list \<Rightarrow> bool \<times> bool \<times> bool" where
  \<comment> \<open>hasGpuData, hasGpuEnginesData, hasGpuPowerData\<close>
  "gpu_flags systemStats = (case lastGpus systemStats of
       None \<Rightarrow> (False, False, False)
     | Some gpus \<Rightarrow> (let (engines, watts) = gpu_outer systemStats (False, False)
                     in (gpus \<noteq> [], engines, watts)))"

definition some_gpu :: "(gpu_data \<Rightarrow> bool) \<Rightarrow> stats_record list \<Rightarrow> bool" where
  "some_gpu P systemStats = list_ex (\<lambda>r. list_ex (\<lambda>(n, g). P g) (orelse (gpus_of r) [])) systemStats"

definition has_power :: "gpu_data \<Rightarrow> bool" where
  "has_power g \<longleftrightarrow> gpu_p g \<noteq> None \<or> gpu_pp g \<noteq> None"

lemma gpu_inner_exists:
  "gpu_inner gs (e, p) = (e \<or> list_ex (\<lambda>g. gpu_e g \<noteq> None) gs, p \<or> list_ex has_power gs)"
  by (induction gs arbitrary: e p) (auto simp: has_power_def Let_def)

lemma list_ex_snd: "list_ex P (map snd gpus) = list_ex (\<lambda>(n, g). P g) gpus"
  by (induction gpus) auto

lemma gpu_outer_exists:
  "gpu_outer rs (e, p) = (e \<or> some_gpu (\<lambda>g. gpu_e g \<noteq> None) rs, p \<or> some_gpu has_power rs)"
  by (induction rs arbitrary: e p)
    (auto simp: some_gpu_def gpu_inner_exists list_ex_snd split: option.splits)

text \<open>
  The early exits of the GPU scan lose nothing: when the last record has GPU data, the flags
  say whether any GPU of any record has engine data, and whether any has power data.
\<close>
theorem gpu_flags_exact:
  "gpu_flags systemStats = (case lastGpus systemStats of
     None \<Rightarrow> (False, False, False)
   | Some gpus \<Rightarrow> (gpus \<noteq> [], some_gpu (\<lambda>g. gpu_e g \<noteq> None) systemStats, some_gpu has_power systemStats))"
  by (simp add: gpu_flags_def gpu_outer_exists split: option.splits)

end
