(* ===== verification/Charts.thy ===== *)
theory Charts
  imports Chart_View System_Data "HOL-Library.List_Lexorder" "HOL-Library.Char_ord"
begin

section \<open>The charts of a system: routes/system/charts and the chart sheets\<close>

text \<open>
  Each chart component as the card it renders, or nothing: title, description, corner elements, and
  the chart with its domain, data points, formatters and flags; and the sheets with more charts. A
  number's text and decimalString are arguments; last records without stats, on which the code
  throws, are errors. The lemmas show which values the data points read, that the sums the charts
  show are the sums of their parts, and when a chart or a section is shown.
\<close>

type_synonym num_text = "rat \<Rightarrow> string"
type_synonym dec_text = "rat \<Rightarrow> nat \<Rightarrow> string"

definition byte_text :: "(rat \<Rightarrow> string) \<Rightarrow> rat \<times> string \<Rightarrow> string" where
  \<comment> \<open>a converted value and its unit\<close>
  "byte_text f vu = f (fst vu) @ '' '' @ snd vu"

definition stat :: "(system_stats \<Rightarrow> 'a option) \<Rightarrow> stats_record \<Rightarrow> 'a option" where
  \<comment> \<open>stats?.x\<close>
  "stat f r = Option.bind (sr_stats r) f"

definition last_stat :: "(system_stats \<Rightarrow> 'a option) \<Rightarrow> stats_record list \<Rightarrow> js_error + 'a option" where
  \<comment> \<open>systemStats.at(-1)?.stats.x: a last record whose stats are null throws\<close>
  "last_stat f systemStats = (case at_last systemStats of
       None \<Rightarrow> Inr None
     | Some r \<Rightarrow> (case sr_stats r of None \<Rightarrow> Inl TypeError | Some st \<Rightarrow> Inr (f st)))"

definition mib :: "rat option \<Rightarrow> rat" where
  \<comment> \<open>(x ?? 0) * 1024 * 1024\<close>
  "mib x = orelse x 0 * 1024 * 1024"

lemma last_stat_Nil [simp]: "last_stat f [] = Inr None"
  by (simp add: last_stat_def)

lemma last_stat_snoc [simp]: "sr_stats r = Some st \<Longrightarrow> last_stat f (rs @ [r]) = Inr (f st)"
  by (simp add: last_stat_def)

subsection \<open>What a chart component gets\<close>

record chart_args =
  ca_stats :: "stats_record list"
  ca_containers :: "container_point list"
  ca_agentVersion :: sem_ver
  ca_grid :: bool
  ca_dataEmpty :: bool
  ca_showMax :: bool
  ca_isLongerChart :: bool
  ca_maxValues :: bool
  ca_isPodman :: bool
  ca_settings :: display_settings
  ca_filter :: string

definition maxValSelect :: "chart_args \<Rightarrow> corner list" where
  "maxValSelect a = (if ca_isLongerChart a then [Avg_max_select (ca_maxValues a)] else [])"

definition arg_card :: "chart_args \<Rightarrow> string \<Rightarrow> string \<Rightarrow> corner list \<Rightarrow> 'd chart \<Rightarrow> 'd card" where
  "arg_card a = card_of (ca_dataEmpty a) (ca_grid a)"

definition unitNet :: "chart_args \<Rightarrow> unit_choice" where
  \<comment> \<open>formatBytes defaults an absent unit to bytes\<close>
  "unitNet a = orelse (ds_unitNet (ca_settings a)) Bytes"

definition unitDisk :: "chart_args \<Rightarrow> unit_choice" where
  "unitDisk a = orelse (ds_unitDisk (ca_settings a)) Bytes"

definition percent_tick :: "num_text \<Rightarrow> rat \<Rightarrow> string" where
  "percent_tick num_text v = num_text (toFixedFloat v 2) @ ''%''"

definition percent_content :: "dec_text \<Rightarrow> rat \<Rightarrow> string" where
  "percent_content dec v = dec v 2 @ ''%''"

definition rate_tick :: "num_text \<Rightarrow> bool \<Rightarrow> unit_choice \<Rightarrow> rat \<Rightarrow> string" where
  \<comment> \<open>the tick formatter of the throughput charts\<close>
  "rate_tick num_text perSecond unit val =
     byte_text (\<lambda>v. num_text (toFixedFloat v (if v \<ge> 10 then 0 else 1))) (formatBytes val perSecond unit False)"

definition rate_content :: "dec_text \<Rightarrow> bool \<Rightarrow> unit_choice \<Rightarrow> rat \<Rightarrow> string" where
  "rate_content dec perSecond unit val =
     byte_text (\<lambda>v. dec v (if v \<ge> 100 then 1 else 2)) (formatBytes val perSecond unit False)"

subsection \<open>Disk data: diskDataFns\<close>

definition efs :: "string \<Rightarrow> (extra_fs_stats \<Rightarrow> 'a option) \<Rightarrow> stats_record \<Rightarrow> 'a option" where
  \<comment> \<open>stats?.efs?.[name]?.x\<close>
  "efs name f r = Option.bind (stat st_efs r) (\<lambda>m. Option.bind (map_of m name) f)"

definition dios :: "nat \<Rightarrow> stats_record \<Rightarrow> rat" where
  "dios i r = orelse (at_num (stat st_dios r) i) 0"

definition diosMax :: "nat \<Rightarrow> stats_record \<Rightarrow> rat" where
  "diosMax i r = orelse (at_num (stat st_diosm r) i) 0"

definition extraDios :: "string \<Rightarrow> nat \<Rightarrow> stats_record \<Rightarrow> rat" where
  "extraDios name i r = orelse (at_num (efs name fs_dios r) i) 0"

definition extraDiosMax :: "string \<Rightarrow> nat \<Rightarrow> stats_record \<Rightarrow> rat" where
  "extraDiosMax name i r = orelse (at_num (efs name fs_diosm r) i) 0"

datatype disk_fn = Usage | Read | Write | ReadTime | WriteTime | Util | RAwait | WAwait | WeightedIO

fun rootDataFn :: "disk_fn \<Rightarrow> bool \<Rightarrow> stats_record \<Rightarrow> rat" where
  \<comment> \<open>the functions of the root filesystem, the flag choosing the Max variant (usage has none)\<close>
  "rootDataFn Usage mx r = orelse (stat st_du r) 0"
| "rootDataFn Read mx r = (if mx then orelse (at_num (stat st_diom r) 0) (mib (stat st_drm r))
     else orelse (at_num (stat st_dio r) 0) (mib (stat st_dr r)))"
| "rootDataFn Write mx r = (if mx then orelse (at_num (stat st_diom r) 1) (mib (stat st_dwm r))
     else orelse (at_num (stat st_dio r) 1) (mib (stat st_dw r)))"
| "rootDataFn ReadTime mx r = (if mx then diosMax 0 r else dios 0 r)"
| "rootDataFn WriteTime mx r = (if mx then diosMax 1 r else dios 1 r)"
| "rootDataFn Util mx r = (if mx then diosMax 2 r else dios 2 r)"
| "rootDataFn RAwait mx r = (if mx then diosMax 3 r else dios 3 r)"
| "rootDataFn WAwait mx r = (if mx then diosMax 4 r else dios 4 r)"
| "rootDataFn WeightedIO mx r = (if mx then diosMax 5 r else dios 5 r) / 100"

fun extraDataFn :: "string \<Rightarrow> disk_fn \<Rightarrow> bool \<Rightarrow> stats_record \<Rightarrow> rat" where
  \<comment> \<open>the extra functions of a named filesystem\<close>
  "extraDataFn name Usage mx r = orelse (efs name fs_du r) 0"
| "extraDataFn name Read mx r = (if mx then orelse (efs name fs_rbm r) (mib (efs name fs_rm r))
     else orelse (efs name fs_rb r) (mib (efs name fs_r r)))"
| "extraDataFn name Write mx r = (if mx then orelse (efs name fs_wbm r) (mib (efs name fs_wm r))
     else orelse (efs name fs_wb r) (mib (efs name fs_w r)))"
| "extraDataFn name ReadTime mx r = (if mx then extraDiosMax name 0 r else extraDios name 0 r)"
| "extraDataFn name WriteTime mx r = (if mx then extraDiosMax name 1 r else extraDios name 1 r)"
| "extraDataFn name Util mx r = (if mx then extraDiosMax name 2 r else extraDios name 2 r)"
| "extraDataFn name RAwait mx r = (if mx then extraDiosMax name 3 r else extraDios name 3 r)"
| "extraDataFn name WAwait mx r = (if mx then extraDiosMax name 4 r else extraDios name 4 r)"
| "extraDataFn name WeightedIO mx r = (if mx then extraDiosMax name 5 r else extraDios name 5 r) / 100"

definition diskFn :: "string \<Rightarrow> disk_fn \<Rightarrow> bool \<Rightarrow> stats_record \<Rightarrow> rat" where
  \<comment> \<open>the choice the charts make: extraFsName is falsy when absent or empty\<close>
  "diskFn extraFsName fn mx = (if extraFsName \<noteq> '''' then extraDataFn extraFsName fn mx else rootDataFn fn mx)"

definition disk_key :: "string \<Rightarrow> disk_fn \<Rightarrow> bool \<Rightarrow> stats_record \<Rightarrow> rat option" where
  "disk_key extraFsName fn mx r = Some (diskFn extraFsName fn mx r)"

definition no_stats :: system_stats where
  \<comment> \<open>a record with no measurement, for examples\<close>
  "no_stats =
    \<lparr>st_cpu = None, st_cpum = None, st_cpub = None, st_cpus = None, st_la = None, st_m = None,
     st_mu = None, st_mb = None, st_mm = None, st_mz = None, st_s = None, st_su = None,
     st_d = None, st_du = None, st_dr = None, st_dw = None, st_drm = None, st_dwm = None,
     st_dio = None, st_diom = None, st_dios = None, st_diosm = None, st_ns = None, st_nr = None,
     st_b = None, st_nsm = None, st_nrm = None, st_bm = None, st_efs = None, st_g = None,
     st_ni = None\<rparr>"

definition no_fs :: extra_fs_stats where
  "no_fs =
    \<lparr>fs_d = None, fs_du = None, fs_r = None, fs_w = None, fs_rm = None, fs_wm = None,
     fs_rb = None, fs_wb = None, fs_rbm = None, fs_wbm = None, fs_dios = None, fs_diosm = None\<rparr>"

lemma stat_none [simp]: "sr_stats r = None \<Longrightarrow> stat f r = None"
  by (simp add: stat_def)

lemma stat_some [simp]: "sr_stats r = Some st \<Longrightarrow> stat f r = f st"
  by (simp add: stat_def)

lemma efs_none [simp]: "sr_stats r = None \<Longrightarrow> efs name f r = None"
  by (simp add: efs_def)

lemma efs_some [simp]: "sr_stats r = Some st \<Longrightarrow> efs name f r
    = Option.bind (st_efs st) (\<lambda>m. Option.bind (map_of m name) f)"
  by (simp add: efs_def)

lemma at_num_None [simp]: "at_num None i = None"
  by (simp add: at_num_def)

lemma disk_fn_gap: "sr_stats r = None \<Longrightarrow> diskFn n fn mx r = 0"
  by (cases fn) (simp_all add: diskFn_def dios_def diosMax_def extraDios_def extraDiosMax_def mib_def)

text \<open>
  Every disk chart reads its own filesystem: the value of an extra filesystem depends only on its
  own entry (records that agree on the entry give the same value, whatever the root and the other
  filesystems hold), the value of the root never on the extra ones, and a gap reads as 0.
\<close>
theorem disk_fns_read_own_filesystem:
  "(efs n (\<lambda>x. Some x) r = efs n (\<lambda>x. Some x) r' \<and> n \<noteq> '''' \<longrightarrow> diskFn n fn mx r = diskFn n fn mx r')
   \<and> diskFn '''' fn mx \<lparr>sr_created = c, sr_stats = Some (st\<lparr>st_efs := e\<rparr>)\<rparr>
       = diskFn '''' fn mx \<lparr>sr_created = c', sr_stats = Some st\<rparr>
   \<and> diskFn n fn mx \<lparr>sr_created = c, sr_stats = None\<rparr> = 0"
proof (intro conjI impI)
  assume a: "efs n (\<lambda>x. Some x) r = efs n (\<lambda>x. Some x) r' \<and> n \<noteq> ''''"
  have b: "efs n f q = Option.bind (efs n (\<lambda>x. Some x) q) f" for f :: "extra_fs_stats \<Rightarrow> 'b option" and q
    by (cases "stat st_efs q"; cases "map_of (the (stat st_efs q)) n") (simp_all add: efs_def)
  have eq: "efs n f r = efs n f r'" for f :: "extra_fs_stats \<Rightarrow> 'b option"
    using a b [of f r] b [of f r'] by simp
  show "diskFn n fn mx r = diskFn n fn mx r'"
    using a by (cases fn) (simp_all add: diskFn_def extraDios_def extraDiosMax_def eq)
next
  show "diskFn '''' fn mx \<lparr>sr_created = c, sr_stats = Some (st\<lparr>st_efs := e\<rparr>)\<rparr>
       = diskFn '''' fn mx \<lparr>sr_created = c', sr_stats = Some st\<rparr>"
    by (cases fn) (simp_all add: diskFn_def dios_def diosMax_def stat_def)
qed (rule disk_fn_gap, simp)

theorem disk_fns_read_own_filesystem_witness:
  "diskFn ''sda'' Util False \<lparr>sr_created = Created_ms 1, sr_stats = None\<rparr> = diskFn ''sda'' Util False \<lparr>sr_created = Created_ms 2, sr_stats = None\<rparr>"
  using disk_fns_read_own_filesystem [of "''sda''" "\<lparr>sr_created = Created_ms 1, sr_stats = None\<rparr>"
      "\<lparr>sr_created = Created_ms 2, sr_stats = None\<rparr>" Util False] by simp

subsection \<open>Disk charts\<close>

definition round_disk :: "rat option \<Rightarrow> rat option" where
  \<comment> \<open>round to nearest GB from 100 on; NaN is not at least 100\<close>
  "round_disk d = (case d of Some x \<Rightarrow> if x \<ge> 100 then Some (of_int (js_round x)) else Some x | None \<Rightarrow> None)"

definition disk_size :: "string \<Rightarrow> stats_record list \<Rightarrow> js_error + rat option" where
  \<comment> \<open>diskSize; None is NaN. The root's size is read first, so a null last record throws either way\<close>
  "disk_size extraFsName systemStats =
     (case last_stat st_d systemStats of
        Inl e \<Rightarrow> Inl e
      | Inr rootSize \<Rightarrow>
          if extraFsName \<noteq> '''' then
            (case last_stat st_efs systemStats of
               Inl e \<Rightarrow> Inl e
             | Inr m \<Rightarrow> Inr (round_disk (Option.bind m (\<lambda>m. Option.bind (map_of m extraFsName) fs_d))))
          else Inr (round_disk rootSize))"

definition gb_tick :: "num_text \<Rightarrow> rat \<Rightarrow> string" where
  "gb_tick num_text val =
     byte_text (\<lambda>v. num_text (toFixedFloat v (if v \<ge> 10 then 0 else 1))) (formatBytes (val * 1024) False Bytes True)"

definition gb_content :: "dec_text \<Rightarrow> rat \<Rightarrow> string" where
  "gb_content dec value = byte_text (\<lambda>v. dec v 2) (formatBytes (value * 1024) False Bytes True)"

definition DiskUsageChart :: "num_text \<Rightarrow> dec_text \<Rightarrow> chart_args \<Rightarrow> string \<Rightarrow> js_error + stats_record card" where
  "DiskUsageChart num_text dec a extraFsName =
     (case disk_size extraFsName (ca_stats a) of
        Inl e \<Rightarrow> Inl e
      | Inr diskSize \<Rightarrow>
          Inr (arg_card a
            (if extraFsName \<noteq> '''' then extraFsName @ '' Usage'' else ''Disk Usage'')
            (if extraFsName \<noteq> '''' then ''Disk usage of '' @ extraFsName else ''Usage of root partition'') []
            ((chart_of Area_chart
               [data_point ''Disk Usage'' (disk_key extraFsName Usage False) (Palette 4) (4 / 10)]
               (gb_tick num_text) (gb_content dec))\<lparr>ch_domain := Some (Upto diskSize)\<rparr>)))"

definition hasMoreIOMetrics :: "stats_record list \<Rightarrow> bool" where
  \<comment> \<open>some record whose dios[0] is truthy\<close>
  "hasMoreIOMetrics systemStats = list_ex (\<lambda>r. num_truthy (at_num (stat st_dios r) 0)) systemStats"

definition DiskIOChart :: "num_text \<Rightarrow> dec_text \<Rightarrow> chart_args \<Rightarrow> string \<Rightarrow> stats_record card option" where
  "DiskIOChart num_text dec a extraFsName =
     (if ca_stats a = [] then None
      else
       let title = (if extraFsName \<noteq> '''' then extraFsName @ '' I/O'' else ''Disk I/O'');
           description = (if extraFsName \<noteq> '''' then ''Throughput of '' @ extraFsName else ''Throughput of root filesystem'');
           cornerEl = maxValSelect a @ (if hasMoreIOMetrics (ca_stats a) then [Disk_sheet title description] else [])
       in Some (arg_card a title description cornerEl
            ((chart_of Area_chart
               [data_point ''Write'' (disk_key extraFsName Write (ca_showMax a)) (Palette 3) (3 / 10),
                data_point ''Read'' (disk_key extraFsName Read (ca_showMax a)) (Palette 1) (3 / 10)]
               (rate_tick num_text True (unitDisk a)) (rate_content dec True (unitDisk a)))
              \<lparr>ch_maxToggled := Some (ca_showMax a), ch_showTotal := True\<rparr>)))"

definition DiskUtilizationChart :: "num_text \<Rightarrow> dec_text \<Rightarrow> chart_args \<Rightarrow> string \<Rightarrow> stats_record card option" where
  "DiskUtilizationChart num_text dec a extraFsName =
     (if ca_stats a = [] then None
      else Some (arg_card a ''I/O Utilization'' ''Percent of time the disk is busy with I/O'' (maxValSelect a)
        ((chart_of Area_chart
           [data_point ''Utilization'' (disk_key extraFsName Util (ca_showMax a)) (Palette 1) (4 / 10)]
           (percent_tick num_text) (percent_content dec))
          \<lparr>ch_domain := Some (Of_data_max pinnedAxisDomain), ch_maxToggled := Some (ca_showMax a)\<rparr>)))"

definition ExtraFsCharts ::
  "num_text \<Rightarrow> dec_text \<Rightarrow> chart_args \<Rightarrow> js_error + (string \<times> (js_error + stats_record card) \<times> stats_record card option) list" where
  \<comment> \<open>a usage and an I/O chart per filesystem of the last record, keyed by its name\<close>
  "ExtraFsCharts num_text dec a =
     (case last_stat st_efs (ca_stats a) of
        Inl e \<Rightarrow> Inl e
      | Inr None \<Rightarrow> Inr []
      | Inr (Some m) \<Rightarrow> Inr (map (\<lambda>n. (n, DiskUsageChart num_text dec a n, DiskIOChart num_text dec a n)) (obj_keys m)))"

subsection \<open>disk-io-sheet.tsx\<close>

fun io_flags :: "stats_record list \<Rightarrow> bool \<times> bool \<times> bool \<Rightarrow> bool \<times> bool \<times> bool" where
  \<comment> \<open>hasUtilization, hasAwait, hasWeightedIO, with the loop's break\<close>
  "io_flags [] acc = acc"
| "io_flags (r # rs) (hasUtilization, hasAwait, hasWeightedIO) =
     (let d = stat st_dios r;
          hasUtilization = (if orelse (at_num d 2) 0 > 0 then True else hasUtilization);
          hasAwait = (if orelse (at_num d 3) 0 > 0 then True else hasAwait);
          hasWeightedIO = (if orelse (at_num d 5) 0 > 0 then True else hasWeightedIO)
      in if hasUtilization \<and> hasAwait \<and> hasWeightedIO then (hasUtilization, hasAwait, hasWeightedIO)
         else io_flags rs (hasUtilization, hasAwait, hasWeightedIO))"

definition io_chart ::
  "chart_args \<Rightarrow> string \<Rightarrow> string \<Rightarrow> stats_record data_point list \<Rightarrow> (rat \<Rightarrow> string) \<Rightarrow> (rat \<Rightarrow> string) \<Rightarrow> stats_record card" where
  \<comment> \<open>the settings the sheet's charts share\<close>
  "io_chart a title description points tick content =
     arg_card a title description (maxValSelect a)
       ((chart_of Area_chart points tick content)
         \<lparr>ch_domain := Some (Of_data_max pinnedAxisDomain), ch_maxToggled := Some (ca_showMax a)\<rparr>)"

definition with_total :: "'d card \<Rightarrow> 'd card" where
  \<comment> \<open>showTotal, itemSorter by order, reverseStackOrder\<close>
  "with_total c = c\<lparr>cd_chart := (cd_chart c)\<lparr>ch_showTotal := True, ch_sorter := Some By_order, ch_reverse := True\<rparr>\<rparr>"

definition DiskIOSheet ::
  "num_text \<Rightarrow> dec_text \<Rightarrow> chart_args \<Rightarrow> string \<Rightarrow> string \<Rightarrow> string \<Rightarrow> stats_record card list" where
  \<comment> \<open>the charts of the opened sheet, in order\<close>
  "DiskIOSheet num_text dec a extraFsName title description =
     (let fn = (\<lambda>f. disk_key extraFsName f (ca_showMax a));
          (hasUtilization, hasAwait, hasWeightedIO) = io_flags (ca_stats a) (False, False, False)
      in [with_total (io_chart a title description
            [ordered 0 (stacked ''0'' (data_point ''Write'' (fn Write) (Palette 3) (4 / 10))),
             ordered 1 (stacked ''0'' (data_point ''Read'' (fn Read) (Palette 1) (4 / 10)))]
            (rate_tick num_text True (unitDisk a)) (rate_content dec True (unitDisk a)))]
         @ (if hasUtilization
            then (case DiskUtilizationChart num_text dec a extraFsName of Some c \<Rightarrow> [c] | None \<Rightarrow> []) else [])
         @ [with_total (io_chart a ''I/O Time'' ''Total time spent on read/write (can exceed 100%)''
             [ordered 0 (stacked ''0'' (data_point ''Write'' (fn WriteTime) (Palette 3) (4 / 10))),
              ordered 1 (stacked ''0'' (data_point ''Read'' (fn ReadTime) (Palette 1) (4 / 10)))]
             (percent_tick num_text) (percent_content dec))]
         @ (if hasWeightedIO
            then [io_chart a ''Queue Depth'' ''Average number of I/O operations waiting to be serviced''
                    [data_point ''Queue Depth'' (fn WeightedIO) (Palette 1) (4 / 10)]
                    (\<lambda>v. num_text (toFixedFloat v 2)) (\<lambda>v. dec v (if v < 10 then 3 else 2))] else [])
         @ (if hasAwait
            then [io_chart a ''I/O Await'' ''Average queue to completion time per operation''
                    [data_point ''Write'' (fn WAwait) (Palette 3) (3 / 10),
                     data_point ''Read'' (fn RAwait) (Palette 1) (3 / 10)]
                    (\<lambda>v. num_text (toFixedFloat v 2) @ '' ms'') (\<lambda>v. dec v 2 @ '' ms'')] else []))"

definition some_dios :: "nat \<Rightarrow> stats_record list \<Rightarrow> bool" where
  "some_dios i rs = list_ex (\<lambda>r. orelse (at_num (stat st_dios r) i) 0 > 0) rs"

lemma io_flags_exists: "io_flags rs (u, w, q) = (u \<or> some_dios 2 rs, w \<or> some_dios 3 rs, q \<or> some_dios 5 rs)"
  by (induction rs arbitrary: u w q) (auto simp: some_dios_def Let_def)

lemma titles [simp]:
  "cd_title (arg_card a t d cs c) = t" "cd_title (with_total x) = cd_title x" "cd_title (io_chart a t d ps tk ct) = t"
  by (simp_all add: arg_card_def card_of_def with_total_def io_chart_def)

lemma sheet_titles:
  "map cd_title (DiskIOSheet nt dec a fs t d) = [t]
     @ (if some_dios 2 (ca_stats a) then [''I/O Utilization''] else []) @ [''I/O Time'']
     @ (if some_dios 5 (ca_stats a) then [''Queue Depth''] else [])
     @ (if some_dios 3 (ca_stats a) then [''I/O Await''] else [])"
proof -
  have "some_dios 2 (ca_stats a) \<Longrightarrow> ca_stats a \<noteq> []" by (auto simp: some_dios_def)
  then show ?thesis
    by (auto simp: DiskIOSheet_def io_flags_exists DiskUtilizationChart_def Let_def)
qed

text \<open>
  The break of the I/O metrics loop loses nothing: the sheet has its utilization, queue depth and
  await charts exactly when some record has the metric. But the records are asked for the root's
  metrics whichever filesystem the sheet is for: with none of the root's, an extra filesystem
  shows neither its sheet nor any of these charts, whatever metrics of its own it has.
\<close>
theorem disk_sheet_sections:
  "map cd_title (DiskIOSheet nt dec a fs t d) = [t]
     @ (if some_dios 2 (ca_stats a) then [''I/O Utilization''] else []) @ [''I/O Time'']
     @ (if some_dios 5 (ca_stats a) then [''Queue Depth''] else [])
     @ (if some_dios 3 (ca_stats a) then [''I/O Await''] else [])
   \<and> (list_all (\<lambda>r. stat st_dios r = None) (ca_stats a) \<longrightarrow>
        map cd_title (DiskIOSheet nt dec a fs t d) = [t, ''I/O Time'']
        \<and> (case DiskIOChart nt dec a fs of None \<Rightarrow> True | Some c \<Rightarrow> cd_corner c = maxValSelect a))"
proof -
  have "list_all (\<lambda>r. stat st_dios r = None) rs \<Longrightarrow> \<not> some_dios i rs \<and> \<not> hasMoreIOMetrics rs" for i rs
    by (induction rs) (auto simp: some_dios_def hasMoreIOMetrics_def)
  then show ?thesis
    by (auto simp: sheet_titles DiskIOChart_def arg_card_def card_of_def Let_def)
qed

definition example_chart :: "stats_record list \<Rightarrow> chart_args" where
  \<comment> \<open>the arguments of a chart of a current agent, for the witnesses\<close>
  "example_chart rs =
     \<lparr>ca_stats = rs, ca_containers = [], ca_agentVersion = version 0 18 0, ca_grid = True, ca_dataEmpty = False,
      ca_showMax = False, ca_isLongerChart = False, ca_maxValues = False, ca_isPodman = False,
      ca_settings = \<lparr>ds_chartTime = T1h, ds_unitNet = None, ds_unitDisk = None, ds_colorWarn = None,
        ds_colorCrit = None, ds_hourFormat = None\<rparr>, ca_filter = []\<rparr>"

theorem disk_sheet_sections_witness:
  "map cd_title (DiskIOSheet (\<lambda>_. []) (\<lambda>_ _. [])
     (example_chart [\<lparr>sr_created = Created_ms 1,
        sr_stats = Some (no_stats\<lparr>st_efs := Some [(''sdb'', no_fs\<lparr>fs_dios := Some [1, 1, 50, 3, 3, 9]\<rparr>)]\<rparr>)\<rparr>])
     ''sdb'' ''sdb I/O'' []) = [''sdb I/O'', ''I/O Time'']"
  by (rule conjunct1 [OF mp [OF conjunct2 [OF disk_sheet_sections]]]) (simp add: no_stats_def example_chart_def)

subsection \<open>Charts of all containers\<close>

definition container_data_points ::
  "(string \<times> hsl) list \<Rightarrow> string \<Rightarrow> (string \<Rightarrow> container_point \<Rightarrow> rat option) \<Rightarrow> container_point data_point list" where
  \<comment> \<open>useContainerDataPoints with its dataFn\<close>
  "container_data_points chartConfig flt dataFn =
     map (\<lambda>p. \<lparr>pt_label = dp_label p, pt_dataKey = dataFn (dp_label p), pt_color = Hue (dp_color p),
        pt_opacity = Some (dp_opacity p), pt_stackId = Some (dp_stackId p), pt_order = None,
        pt_strokeOpacity = Some (dp_strokeOpacity p), pt_activeDot = Some (dp_activeDot p)\<rparr>)
       (fst (useContainerDataPoints chartConfig flt))"

definition container_measure :: "(container_stats \<Rightarrow> rat option) \<Rightarrow> string \<Rightarrow> container_point \<Rightarrow> rat option" where
  \<comment> \<open>data[key]?.x ?? null\<close>
  "container_measure f key data = Option.bind (map_of (cp_stats data) key) f"

definition network_measure :: "string \<Rightarrow> container_point \<Rightarrow> rat option" where
  "network_measure key data = map_option (\<lambda>c. sentBytes c + recvBytes c) (map_of (cp_stats data) key)"

definition container_card ::
  "chart_args \<Rightarrow> string \<Rightarrow> string \<Rightarrow> (string \<times> hsl) list \<Rightarrow> (string \<Rightarrow> container_point \<Rightarrow> rat option)
     \<Rightarrow> (rat \<Rightarrow> string) \<Rightarrow> (rat \<Rightarrow> string) \<Rightarrow> container_point card" where
  \<comment> \<open>the settings the three container charts share\<close>
  "container_card a title description config dataFn tick content =
     arg_card a title description [Filter_bar]
       ((chart_of Area_chart (container_data_points config (ca_filter a) dataFn) tick content)
         \<lparr>ch_domain := Some (Of_data_max pinnedAxisDomain), ch_showTotal := True, ch_reverse := True,
          ch_filter := Some (ca_filter a), ch_truncate := True, ch_sorter := Some By_value\<rparr>)"

definition ContainerCpuChart :: "num_text \<Rightarrow> dec_text \<Rightarrow> chart_args \<Rightarrow> (string \<times> hsl) list \<Rightarrow> container_point card" where
  "ContainerCpuChart num_text dec a cpuConfig =
     container_card a (dockerOrPodman ''Docker CPU Usage'' (ca_isPodman a)) ''Average CPU utilization of containers''
       cpuConfig (container_measure cs_c) (percent_tick num_text) (percent_content dec)"

definition ContainerMemoryChart :: "num_text \<Rightarrow> dec_text \<Rightarrow> chart_args \<Rightarrow> (string \<times> hsl) list \<Rightarrow> container_point card" where
  \<comment> \<open>the tick's digits go by the value in MB, before its conversion\<close>
  "ContainerMemoryChart num_text dec a memoryConfig =
     container_card a (dockerOrPodman ''Docker Memory Usage'' (ca_isPodman a))
       (dockerOrPodman ''Memory usage of docker containers'' (ca_isPodman a)) memoryConfig (container_measure cs_m)
       (\<lambda>val. byte_text (\<lambda>v. num_text (toFixedFloat v (if val \<ge> 10 then 0 else 1))) (formatBytes val False Bytes True))
       (\<lambda>val. byte_text (\<lambda>v. dec v 2) (formatBytes val False Bytes True))"

text \<open>The network chart's tooltip text is the received and the sent bytes of an item or of the total.\<close>

definition getRxTxBytes :: "container_stats option \<Rightarrow> rat \<times> rat" where
  \<comment> \<open>sent and received\<close>
  "getRxTxBytes record = (case Option.bind record cs_b of
       Some b \<Rightarrow> if length b \<ge> 2 then (b ! 0, b ! 1)
                 else (mib (Option.bind record cs_ns), mib (Option.bind record cs_nr))
     | None \<Rightarrow> (mib (Option.bind record cs_ns), mib (Option.bind record cs_nr)))"

definition formatRxTx :: "dec_text \<Rightarrow> unit_choice \<Rightarrow> rat \<Rightarrow> rat \<Rightarrow> string \<times> string" where
  \<comment> \<open>the texts before rx and tx\<close>
  "formatRxTx dec unit recv sent =
     (byte_text (\<lambda>v. dec v 2) (formatBytes recv True unit False), byte_text (\<lambda>v. dec v 2) (formatBytes sent True unit False))"

definition rx_tx_totals :: "string list \<Rightarrow> container_point \<Rightarrow> rat \<times> rat" where
  \<comment> \<open>totalSent and totalRecv over the entries of the payload that are objects\<close>
  "rx_tx_totals filteredKeys payload =
     fold (\<lambda>(containerKey, v) (totalSent, totalRecv).
        if containerKey \<in> set filteredKeys then (totalSent, totalRecv)
        else let (sent, recv) = getRxTxBytes (Some v) in (totalSent + sent, totalRecv + recv))
       (obj_entries (cp_stats payload)) (0, 0)"

definition network_content :: "dec_text \<Rightarrow> unit_choice \<Rightarrow> string list \<Rightarrow> container_point \<Rightarrow> string \<Rightarrow> string \<times> string" where
  "network_content dec unit filteredKeys payload key =
     (if key = ''__total__''
      then (case rx_tx_totals filteredKeys payload of (totalSent, totalRecv) \<Rightarrow> formatRxTx dec unit totalRecv totalSent)
      else (case getRxTxBytes (map_of (cp_stats payload) key) of (sent, recv) \<Rightarrow> formatRxTx dec unit recv sent))"

definition ContainerNetworkChart ::
  "num_text \<Rightarrow> dec_text \<Rightarrow> chart_args \<Rightarrow> (string \<times> hsl) list \<Rightarrow> container_point card \<times> (container_point \<Rightarrow> string \<Rightarrow> string \<times> string)" where
  \<comment> \<open>the card and its content formatter, which depends on the item's payload\<close>
  "ContainerNetworkChart num_text dec a networkConfig =
     (container_card a (dockerOrPodman ''Docker Network I/O'' (ca_isPodman a))
        (dockerOrPodman ''Network traffic of docker containers'' (ca_isPodman a)) networkConfig network_measure
        (rate_tick num_text True (unitNet a)) (rate_content dec True (unitNet a)),
      network_content dec (unitNet a) (snd (useContainerDataPoints networkConfig (ca_filter a))))"

lemma getRxTxBytes_eq: "cs_b c \<noteq> Some [] \<and> length (the (cs_b c)) \<noteq> 1 \<or> cs_b c = None \<or> cs_b c = Some []
    \<Longrightarrow> getRxTxBytes (Some c) = (sentBytes c, recvBytes c)"
  by (cases "cs_b c") (auto simp: getRxTxBytes_def sentBytes_def recvBytes_def mib_def at_num_def at_idx_def not_le
      less_Suc_eq numeral_2_eq_2 orelse_def)

lemma rx_tx_fold:
  "fold (\<lambda>(containerKey, v) (totalSent, totalRecv).
        if containerKey \<in> set fk then (totalSent, totalRecv)
        else let (sent, recv) = getRxTxBytes (Some v) in (totalSent + sent, totalRecv + recv)) es (s, r)
     = (s + sum_list (map (\<lambda>(k, v). fst (getRxTxBytes (Some v))) (filter (\<lambda>(k, v). k \<notin> set fk) es)),
        r + sum_list (map (\<lambda>(k, v). snd (getRxTxBytes (Some v))) (filter (\<lambda>(k, v). k \<notin> set fk) es)))"
  by (induction es arbitrary: s r) (auto simp: case_prod_unfold Let_def)

text \<open>
  The network tooltip's total agrees with what the chart draws: received plus sent of the total
  line is the sum of the drawn values of the containers the filter keeps, provided no container
  reports a byte array of length 1; and each line's received plus sent is its drawn value.
\<close>
theorem network_total_is_sum_of_drawn:
  assumes d: "distinct (map fst (cp_stats p))"
    and b: "\<And>n c. (n, c) \<in> set (cp_stats p) \<Longrightarrow> cs_b c = None \<or> length (the (cs_b c)) \<noteq> 1"
  shows "fst (rx_tx_totals fk p) + snd (rx_tx_totals fk p)
      = sum_list (map (\<lambda>n. the (network_measure n p)) (filter (\<lambda>n. n \<notin> set fk) (obj_keys (cp_stats p))))
    \<and> (\<forall>(n, c) \<in> set (cp_stats p). network_measure n p = Some (fst (getRxTxBytes (Some c)) + snd (getRxTxBytes (Some c))))"
proof -
  have m: "network_measure n p = Some (fst (getRxTxBytes (Some c)) + snd (getRxTxBytes (Some c)))"
    if "(n, c) \<in> set (cp_stats p)" for n c
  proof -
    have "getRxTxBytes (Some c) = (sentBytes c, recvBytes c)"
      by (rule getRxTxBytes_eq) (use b [OF that] in auto)
    with that d show ?thesis by (simp add: network_measure_def map_of_eq_Some_iff)
  qed
  let ?es = "filter (\<lambda>(n, c). n \<notin> set fk) (obj_entries (cp_stats p))"
  have "fst (rx_tx_totals fk p) + snd (rx_tx_totals fk p)
      = sum_list (map (\<lambda>(n, c). fst (getRxTxBytes (Some c)) + snd (getRxTxBytes (Some c))) ?es)"
    unfolding rx_tx_totals_def rx_tx_fold by (simp add: case_prod_unfold sum_list_addf)
  also have "\<dots> = sum_list (map (\<lambda>x. the (network_measure (fst x) p)) ?es)"
    by (rule arg_cong [where f = sum_list], rule map_cong [OF refl]) (use m in \<open>auto simp: case_prod_unfold\<close>)
  also have "\<dots> = sum_list (map (\<lambda>n. the (network_measure n p)) (filter (\<lambda>n. n \<notin> set fk) (obj_keys (cp_stats p))))"
    by (simp add: obj_keys_def filter_map o_def case_prod_unfold)
  finally show ?thesis using m by auto
qed

theorem network_total_is_sum_of_drawn_witness:
  "rx_tx_totals [''web''] \<lparr>cp_created = Created_ms 1, cp_stats =
     [(''db'', \<lparr>cs_n = ''db'', cs_c = None, cs_m = None, cs_ns = Some 1, cs_nr = Some 2, cs_b = None\<rparr>),
      (''web'', \<lparr>cs_n = ''web'', cs_c = None, cs_m = None, cs_ns = None, cs_nr = None, cs_b = Some [7, 8]\<rparr>)]\<rparr>
   = (1048576, 2097152)
   \<and> network_measure ''db'' \<lparr>cp_created = Created_ms 1, cp_stats =
     [(''db'', \<lparr>cs_n = ''db'', cs_c = None, cs_m = None, cs_ns = Some 1, cs_nr = Some 2, cs_b = None\<rparr>)]\<rparr>
   = Some (1048576 + 2097152)"
proof -
  let ?db = "\<lparr>cs_n = ''db'', cs_c = None, cs_m = None, cs_ns = Some 1, cs_nr = Some 2, cs_b = None\<rparr>"
  have "network_measure ''db'' \<lparr>cp_created = Created_ms 1, cp_stats = [(''db'', ?db)]\<rparr>
      = Some (fst (getRxTxBytes (Some ?db)) + snd (getRxTxBytes (Some ?db)))"
    using network_total_is_sum_of_drawn [of "\<lparr>cp_created = Created_ms 1, cp_stats = [(''db'', ?db)]\<rparr>" "[]"] by simp
  moreover have "getRxTxBytes (Some ?db) = (1048576, 2097152)"
    by (simp add: getRxTxBytes_def mib_def)
  moreover have "rx_tx_totals [''web''] \<lparr>cp_created = Created_ms 1, cp_stats = [(''db'', ?db),
      (''web'', \<lparr>cs_n = ''web'', cs_c = None, cs_m = None, cs_ns = None, cs_nr = None, cs_b = Some [7, 8]\<rparr>)]\<rparr> = (1048576, 2097152)"
    by code_simp
  ultimately show ?thesis by simp
qed

subsection \<open>CPU, memory, swap, load and bandwidth\<close>

definition CpuChart :: "num_text \<Rightarrow> dec_text \<Rightarrow> chart_args \<Rightarrow> stats_record card" where
  "CpuChart num_text dec a =
     arg_card a ''CPU Usage'' ''Average system-wide CPU utilization'' (maxValSelect a @ [Cpu_sheet])
       ((chart_of Area_chart
          [data_point ''CPU Usage'' (\<lambda>r. if ca_showMax a then stat st_cpum r else stat st_cpu r) (Palette 1) (4 / 10)]
          (percent_tick num_text) (percent_content dec))
         \<lparr>ch_domain := Some (Of_data_max pinnedAxisDomain), ch_maxToggled := Some (ca_showMax a)\<rparr>)"

definition memory_tick :: "num_text \<Rightarrow> rat \<Rightarrow> string" where
  \<comment> \<open>the digits go by the value in GB, before its conversion\<close>
  "memory_tick num_text val =
     byte_text (\<lambda>v. num_text (toFixedFloat v (if val \<ge> 10 then 0 else 1))) (formatBytes (val * 1024) False Bytes True)"

definition memory_content :: "dec_text \<Rightarrow> rat \<Rightarrow> string" where
  "memory_content dec val = byte_text (\<lambda>v. dec v (if v \<ge> 100 then 1 else 2)) (formatBytes (val * 1024) False Bytes True)"

definition memory_points :: "bool \<Rightarrow> stats_record data_point list" where
  "memory_points mx =
     [ordered 3 (stacked ''1'' (data_point ''Used'' (\<lambda>r. if mx then stat st_mm r else stat st_mu r) (Palette 2) (4 / 10))),
      ordered 2 (data_point ''ZFS ARC'' (\<lambda>r. if mx then None else stat st_mz r) (Css ''hsla(175 60% 45% / 0.8)'') (5 / 10)),
      ordered 1 (stacked ''1'' (data_point ''Cache / Buffers'' (\<lambda>r. if mx then None else stat st_mb r)
        (Css ''hsla(160 60% 45% / 0.5)'') (4 / 10)))]"

definition MemoryChart :: "num_text \<Rightarrow> dec_text \<Rightarrow> chart_args \<Rightarrow> js_error + stats_record card" where
  "MemoryChart num_text dec a =
     (case last_stat st_m (ca_stats a) of
        Inl e \<Rightarrow> Inl e
      | Inr m \<Rightarrow>
          (let totalMem = toFixedFloat (orelse m 0) 1
           in Inr (arg_card a ''Memory Usage'' ''Precise utilization at the recorded time'' (maxValSelect a)
                ((chart_of Area_chart (memory_points (ca_showMax a)) (memory_tick num_text) (memory_content dec))
                  \<lparr>ch_domain := Some (Upto (Some totalMem)), ch_sorter := Some By_order,
                   ch_maxToggled := Some (ca_showMax a), ch_showTotal := True\<rparr>))))"

definition SwapChart :: "num_text \<Rightarrow> dec_text \<Rightarrow> chart_args \<Rightarrow> js_error + stats_record card option" where
  "SwapChart num_text dec a =
     (case last_stat st_su (ca_stats a) of
        Inl e \<Rightarrow> Inl e
      | Inr su \<Rightarrow>
          if \<not> orelse su 0 > 0 then Inr None
          else (case last_stat st_s (ca_stats a) of
              Inl e \<Rightarrow> Inl e
            | Inr s \<Rightarrow>
                Inr (Some (arg_card a ''Swap Usage'' ''Swap space used by the system'' []
                  ((chart_of Area_chart [data_point ''Used'' (stat st_su) (Palette 2) (4 / 10)]
                     (memory_tick num_text) (memory_content dec))
                    \<lparr>ch_domain := Some (Upto (Some (toFixedFloat (orelse s (4 / 100)) 2)))\<rparr>)))))"

definition load_key :: "nat \<Rightarrow> stats_record \<Rightarrow> rat option" where
  "load_key i r = at_num (stat st_la r) i"

definition line_point :: "string \<Rightarrow> ('d \<Rightarrow> rat option) \<Rightarrow> color \<Rightarrow> 'd data_point" where
  \<comment> \<open>a line has no opacity\<close>
  "line_point label key col = (data_point label key col 0)\<lparr>pt_opacity := None\<rparr>"

definition no_load_support :: "sem_ver \<Rightarrow> bool" where
  "no_load_support v \<longleftrightarrow> major v = Some 0 \<and> (case minor v of Some m \<Rightarrow> m \<le> 12 | None \<Rightarrow> False)"

definition LoadAverageChart :: "num_text \<Rightarrow> dec_text \<Rightarrow> chart_args \<Rightarrow> stats_record card option" where
  "LoadAverageChart num_text dec a =
     (if no_load_support (ca_agentVersion a) then None
      else Some ((arg_card a ''Load Average'' ''System load averages over time'' []
        ((chart_of Line_chart
           [line_point ''1 min'' (load_key 0) (Css ''hsl(271, 81%, 60%)''),
            line_point ''5 min'' (load_key 1) (Css ''hsl(217, 91%, 60%)''),
            line_point ''15 min'' (load_key 2) (Css ''hsl(25, 95%, 53%)'')]
           (\<lambda>v. num_text (toFixedFloat v 2)) (\<lambda>v. dec v 2))\<lparr>ch_legend := True\<rparr>))\<lparr>cd_legend := True\<rparr>))"

definition bandwidth_key :: "bool \<Rightarrow> nat \<Rightarrow> (system_stats \<Rightarrow> rat option) \<Rightarrow> (system_stats \<Rightarrow> rat option) \<Rightarrow> stats_record \<Rightarrow> rat option" where
  \<comment> \<open>the byte counts, or the older megabyte values\<close>
  "bandwidth_key mx i old oldMax r =
     Some (if mx then orelse (at_num (stat st_bm r) i) (mib (stat oldMax r))
           else orelse (at_num (stat st_b r) i) (mib (stat old r)))"

definition bandwidth_order :: "stats_record list \<Rightarrow> js_error + rat" where
  \<comment> \<open>what the comparator returns on every pair: received minus sent of the last record\<close>
  "bandwidth_order systemStats = (case last_stat st_b systemStats of
       Inl e \<Rightarrow> Inl e
     | Inr b \<Rightarrow> Inr (orelse (at_num b 1) 0 - orelse (at_num b 0) 0))"

definition BandwidthChart ::
  "(rat \<Rightarrow> stats_record data_point list \<Rightarrow> stats_record data_point list) \<Rightarrow> num_text \<Rightarrow> dec_text \<Rightarrow> chart_args
     \<Rightarrow> js_error + stats_record card" where
  \<comment> \<open>constSort k is the engine's sort with a comparator that always returns k\<close>
  "BandwidthChart constSort num_text dec a =
     (case bandwidth_order (ca_stats a) of
        Inl e \<Rightarrow> Inl e
      | Inr k \<Rightarrow>
          Inr (arg_card a ''Bandwidth'' ''Network traffic of public interfaces'' (maxValSelect a @ [Network_sheet])
            ((chart_of Area_chart
               (constSort k
                 [data_point ''Sent'' (bandwidth_key (ca_showMax a) 0 st_ns st_nsm) (Palette 5) (2 / 10),
                  data_point ''Received'' (bandwidth_key (ca_showMax a) 1 st_nr st_nrm) (Palette 2) (2 / 10)])
               (rate_tick num_text True (unitNet a)) (rate_content dec True (unitNet a)))
              \<lparr>ch_maxToggled := Some (ca_showMax a), ch_showTotal := True\<rparr>)))"

text \<open>
  C38. A null last record is the only way a chart of the page throws: with stats in the last record, or
  no record, the memory, swap, disk and bandwidth components all render, and with a last record whose
  stats are null all of them throw.
\<close>
theorem charts_throw_only_on_null_last:
  "if ca_stats a = [] \<or> sr_stats (last (ca_stats a)) \<noteq> None
   then \<not> isl (MemoryChart nt dec a) \<and> \<not> isl (SwapChart nt dec a) \<and> \<not> isl (DiskUsageChart nt dec a n)
     \<and> \<not> isl (BandwidthChart cs nt dec a) \<and> \<not> isl (ExtraFsCharts nt dec a)
   else MemoryChart nt dec a = Inl TypeError \<and> SwapChart nt dec a = Inl TypeError \<and> DiskUsageChart nt dec a n = Inl TypeError
     \<and> BandwidthChart cs nt dec a = Inl TypeError \<and> ExtraFsCharts nt dec a = Inl TypeError"
proof (cases "ca_stats a = [] \<or> sr_stats (last (ca_stats a)) \<noteq> None")
  case True
  then have l: "\<exists>x. last_stat f (ca_stats a) = Inr x" for f :: "system_stats \<Rightarrow> 'b option"
    by (auto simp: last_stat_def at_last_def)
  obtain m su s b where "last_stat st_m (ca_stats a) = Inr m" "last_stat st_su (ca_stats a) = Inr su"
    "last_stat st_s (ca_stats a) = Inr s" "last_stat st_b (ca_stats a) = Inr b"
    using l by meson
  moreover have "\<exists>x. last_stat st_efs (ca_stats a) = Inr x" "\<exists>x. last_stat st_d (ca_stats a) = Inr x"
    using True by (auto simp: last_stat_def at_last_def)
  ultimately show ?thesis using True
    by (auto simp: MemoryChart_def SwapChart_def DiskUsageChart_def disk_size_def BandwidthChart_def bandwidth_order_def
        ExtraFsCharts_def Let_def split: option.splits)
next
  case False
  then have e: "last_stat f (ca_stats a) = Inl TypeError" for f :: "system_stats \<Rightarrow> 'b option"
    by (auto simp: last_stat_def at_last_def)
  show ?thesis unfolding if_not_P [OF False]
    by (simp add: e MemoryChart_def SwapChart_def DiskUsageChart_def disk_size_def BandwidthChart_def bandwidth_order_def
        ExtraFsCharts_def)
qed

theorem charts_throw_only_on_null_last_witness:
  "MemoryChart (\<lambda>_. []) (\<lambda>_ _. []) (example_chart [\<lparr>sr_created = Created_ms 1, sr_stats = None\<rparr>]) = Inl TypeError
   \<and> \<not> isl (MemoryChart (\<lambda>_. []) (\<lambda>_ _. []) (example_chart [\<lparr>sr_created = Created_ms 1, sr_stats = Some no_stats\<rparr>]))"
  using charts_throw_only_on_null_last [of "example_chart [\<lparr>sr_created = Created_ms 1, sr_stats = None\<rparr>]" "\<lambda>_. []" "\<lambda>_ _. []"]
    charts_throw_only_on_null_last [of "example_chart [\<lparr>sr_created = Created_ms 1, sr_stats = Some no_stats\<rparr>]" "\<lambda>_. []" "\<lambda>_ _. []"]
  by (simp add: example_chart_def)

subsection \<open>cpu-sheet.tsx\<close>

definition minAgentVersion :: sem_ver where
  "minAgentVersion = parseSemVer ''0.15.3''"

definition supportsBreakdown :: "sem_ver \<Rightarrow> bool" where
  \<comment> \<open>compareSemVer(agentVersion, minAgentVersion) >= 0; NaN is not\<close>
  "supportsBreakdown v = (case compareSemVer v minAgentVersion of Some d \<Rightarrow> d \<ge> 0 | None \<Rightarrow> False)"

definition core_value :: "nat \<Rightarrow> stats_record \<Rightarrow> rat option" where
  "core_value i r = at_num (stat st_cpus r) i"

fun raise_core :: "nat \<Rightarrow> stats_record list \<Rightarrow> rat \<Rightarrow> rat" where
  \<comment> \<open>the inner loop of highestCpuCorePct\<close>
  "raise_core i [] h = h"
| "raise_core i (r # rs) h = raise_core i rs (let pct = orelse (core_value i r) 0 in if pct > h then pct else h)"

definition highestCpuCorePct :: "nat \<Rightarrow> stats_record list \<Rightarrow> rat" where
  \<comment> \<open>once the sheet has been opened\<close>
  "highestCpuCorePct numCores systemStats = fold (\<lambda>i. raise_core i systemStats) [0..<numCores] 1"

definition other_cpu :: "stats_record \<Rightarrow> rat option" where
  "other_cpu r = (let t = orelse (map_option sum_list (stat st_cpub r)) 0 in if t > 0 then Some (100 - t) else None)"

definition breakdownDataPoints :: "stats_record data_point list" where
  "breakdownDataPoints =
     map (stacked ''a'')
      [data_point ''System'' (\<lambda>r. at_num (stat st_cpub r) 1) (Palette 3) (35 / 100),
       data_point ''User'' (\<lambda>r. at_num (stat st_cpub r) 0) (Palette 1) (35 / 100),
       data_point ''IOWait'' (\<lambda>r. at_num (stat st_cpub r) 2) (Palette 4) (35 / 100),
       data_point ''Steal'' (\<lambda>r. at_num (stat st_cpub r) 3) (Palette 5) (35 / 100),
       data_point ''Idle'' (\<lambda>r. at_num (stat st_cpub r) 4) (Palette 2) (35 / 100),
       data_point ''Other'' other_cpu (Css ''hsl(80, 65%, 52%)'') (35 / 100)]"

definition all_core_key :: "nat \<Rightarrow> stats_record \<Rightarrow> rat option" where
  \<comment> \<open>stats?.cpus?.[i] ?? 1 / (stats?.cpus?.length ?? 1): an empty list gives Infinity, no number\<close>
  "all_core_key i r = (case core_value i r of
       Some v \<Rightarrow> Some v
     | None \<Rightarrow> (case stat st_cpus r of None \<Rightarrow> Some 1 | Some [] \<Rightarrow> None | Some xs \<Rightarrow> Some (1 / of_nat (length xs))))"

definition core_hue :: "nat \<Rightarrow> nat \<Rightarrow> rat" where
  "core_hue i numCores = 226 + container_hue i (max 1 numCores)"

definition core_chart :: "num_text \<Rightarrow> chart_args \<Rightarrow> nat \<Rightarrow> rat \<Rightarrow> nat \<Rightarrow> stats_record card" where
  "core_chart num_text a numCores highest i =
     arg_card a (''CPU '' @ nat_str i) ''Per-core average utilization'' []
       ((chart_of Area_chart
          [data_point ''Usage'' (core_value i) (Hue (Hsl (core_hue i numCores) ''65%'' ''52%'')) (35 / 100)]
          (\<lambda>v. num_text v @ ''%'') (\<lambda>v. num_text v @ ''%''))
         \<lparr>ch_domain := Some (Upto (Some highest)), ch_maxToggled := Some (ca_maxValues a)\<rparr>)"

definition CpuCoresSheet :: "num_text \<Rightarrow> dec_text \<Rightarrow> chart_args \<Rightarrow> stats_record card list option" where
  \<comment> \<open>nothing at all for old agents; else the charts of the opened sheet\<close>
  "CpuCoresSheet num_text dec a =
     (if \<not> supportsBreakdown (ca_agentVersion a) then None
      else
       let latest = at_last (ca_stats a);
           cpus = (case latest of None \<Rightarrow> [] | Some r \<Rightarrow> orelse (stat st_cpus r) []);
           numCores = length cpus;
           hasBreakdown = (case latest of None \<Rightarrow> False | Some r \<Rightarrow> length (orelse (stat st_cpub r) []) > 0);
           highest = highestCpuCorePct numCores (ca_stats a)
       in Some
         ((if hasBreakdown
           then [(arg_card a ''CPU Time Breakdown'' ''Percentage of time spent in each state'' []
                   ((chart_of Area_chart breakdownDataPoints (percent_tick num_text) (percent_content dec))
                     \<lparr>ch_maxToggled := Some (ca_maxValues a), ch_legend := True, ch_reverse := True,
                      ch_sorter := Some Always_one, ch_domain := Some (Upto (Some 100))\<rparr>))\<lparr>cd_legend := True\<rparr>] else [])
          @ (if numCores > 0
             then [(arg_card a ''CPU Cores'' ''Per-core average utilization'' []
                   ((chart_of Area_chart
                      (map (\<lambda>i. stacked ''a'' (data_point (''CPU '' @ nat_str i) (all_core_key i)
                          (Hue (Hsl (core_hue i numCores) ''var(--chart-saturation)'' ''var(--chart-lightness)'')) (35 / 100)))
                        [0..<numCores])
                      (\<lambda>v. num_text v @ ''%'') (\<lambda>v. num_text v @ ''%''))
                     \<lparr>ch_hideYAxis := True, ch_maxToggled := Some (ca_maxValues a), ch_legend := numCores < 10,
                      ch_reverse := True, ch_sorter := Some Always_one\<rparr>))\<lparr>cd_legend := numCores < 10\<rparr>] else [])
          @ map (core_chart num_text a numCores highest) [0..<numCores]))"

lemma raise_core_bounds:
  "h \<le> raise_core i rs h \<and> (\<forall>r \<in> set rs. orelse (core_value i r) 0 \<le> raise_core i rs h)
   \<and> (raise_core i rs h = h \<or> (\<exists>r \<in> set rs. raise_core i rs h = orelse (core_value i r) 0))"
proof (induction rs arbitrary: h)
  case (Cons r rs)
  let ?v = "orelse (core_value i r) 0"
  have "raise_core i (r # rs) h = raise_core i rs (max h ?v)" by (simp add: Let_def max_def)
  then show ?case using Cons.IH [of "max h ?v"] by (auto simp: max_def split: if_splits)
qed simp

lemma raise_cores_bounds:
  "h \<le> fold (\<lambda>i. raise_core i rs) is h
   \<and> (\<forall>i \<in> set is. \<forall>r \<in> set rs. orelse (core_value i r) 0 \<le> fold (\<lambda>i. raise_core i rs) is h)
   \<and> (fold (\<lambda>i. raise_core i rs) is h = h
      \<or> (\<exists>i \<in> set is. \<exists>r \<in> set rs. fold (\<lambda>i. raise_core i rs) is h = orelse (core_value i r) 0))"
proof (induction "is" arbitrary: h)
  case (Cons j js)
  let ?h = "raise_core j rs h"
  note B = raise_core_bounds [of h j rs]
  note IH = Cons.IH [of ?h]
  have "orelse (core_value j r) 0 \<le> fold (\<lambda>i. raise_core i rs) js ?h" if "r \<in> set rs" for r
    using B IH that order_trans by blast
  then show ?case using B IH by (auto intro: order_trans)
qed simp

text \<open>
  The common domain of the per-core charts is exact: it covers every value of every shown core in
  every record, and it is 1 or one of these values.
\<close>
theorem core_domain_exact:
  "(\<forall>i < n. \<forall>r \<in> set rs. orelse (core_value i r) 0 \<le> highestCpuCorePct n rs) \<and> 1 \<le> highestCpuCorePct n rs
   \<and> highestCpuCorePct n rs \<in> {1} \<union> {orelse (core_value i r) 0 | i r. i < n \<and> r \<in> set rs}"
  using raise_cores_bounds [of 1 rs "[0..<n]"] by (auto simp: highestCpuCorePct_def)

theorem core_domain_exact_witness:
  "40 \<le> highestCpuCorePct 2 [\<lparr>sr_created = Created_ms 1, sr_stats = Some (no_stats\<lparr>st_cpus := Some [10, 40]\<rparr>)\<rparr>]"
proof -
  let ?r = "\<lparr>sr_created = Created_ms 1, sr_stats = Some (no_stats\<lparr>st_cpus := Some [10, 40]\<rparr>)\<rparr>"
  have "orelse (core_value 1 ?r) 0 \<le> highestCpuCorePct 2 [?r]"
    using core_domain_exact [of 2 "[?r]"] by simp
  then show ?thesis by (simp add: core_value_def stat_def at_num_def at_idx_def)
qed

text \<open>The values of the six stacked areas of the breakdown add up to 100, whenever there is any.\<close>

lemma breakdown_total:
  assumes "stat st_cpub r = Some [u, s, io, stl, idl]" and "u + s + io + stl + idl > 0"
  shows "sum_list (map (\<lambda>p. orelse (pt_dataKey p r) 0) breakdownDataPoints) = 100"
  using assms
  by (simp add: breakdownDataPoints_def stacked_def data_point_def other_cpu_def at_num_def at_idx_def Let_def)

lemma supportsBreakdown_version:
  "supportsBreakdown (version a b c) \<longleftrightarrow> \<not> (a < 0 \<or> a = 0 \<and> (b < 15 \<or> b = 15 \<and> c < 3))"
proof -
  have m: "minAgentVersion = version 0 15 3" by code_simp
  show ?thesis
    by (auto simp: m supportsBreakdown_def compareSemVer_def version_def strict_eq_num_def num_diff_def)
qed

lemma sheet_of_old_agent: "b < 15 \<Longrightarrow> CpuCoresSheet nt dec (a\<lparr>ca_agentVersion := version 0 b c\<rparr>) = None"
  by (simp add: CpuCoresSheet_def supportsBreakdown_version)

subsection \<open>network-sheet.tsx\<close>

definition netInterfaces :: "stats_record list \<Rightarrow> string list" where
  "netInterfaces systemStats = useNetworkInterfaces (case at_last systemStats of None \<Rightarrow> Some [] | Some r \<Rightarrow> stat st_ni r)"

definition net_points :: "string list \<Rightarrow> nat \<Rightarrow> stats_record data_point list" where
  \<comment> \<open>netInterfaces.data(index)\<close>
  "net_points sortedKeys i =
     map (\<lambda>(key, col). data_point key (iface_value key i) (Hue col) (3 / 10)) (iface_data sortedKeys)"

definition net_card :: "num_text \<Rightarrow> dec_text \<Rightarrow> chart_args \<Rightarrow> string list \<Rightarrow> bool \<Rightarrow> string \<Rightarrow> string \<Rightarrow> nat \<Rightarrow> stats_record card" where
  "net_card num_text dec a ifs perSecond title description i =
     (let showNetLegend = 0 < length ifs \<and> length ifs < 15
      in (arg_card a title description []
            ((chart_of Area_chart (net_points ifs i)
               (rate_tick num_text perSecond (unitNet a)) (rate_content dec perSecond (unitNet a)))
              \<lparr>ch_legend := showNetLegend\<rparr>))\<lparr>cd_legend := showNetLegend\<rparr>)"

definition live_net_card :: "chart_args \<Rightarrow> stats_record card \<Rightarrow> stats_record card" where
  \<comment> \<open>the per-second charts also take the average or maximum flag and sort their tooltip\<close>
  "live_net_card a c =
     c\<lparr>cd_chart := (cd_chart c)\<lparr>ch_maxToggled := Some (ca_maxValues a), ch_sorter := Some By_value\<rparr>\<rparr>"

definition NetworkSheet :: "num_text \<Rightarrow> dec_text \<Rightarrow> chart_args \<Rightarrow> stats_record card list option" where
  "NetworkSheet num_text dec a =
     (let ifs = netInterfaces (ca_stats a); card = net_card num_text dec a ifs
      in if ifs = [] then None
         else Some
          [live_net_card a (card True ''Download'' ''Network traffic of public interfaces'' 1),
           live_net_card a (card True ''Upload'' ''Network traffic of public interfaces'' 0),
           card False ''Cumulative Download'' ''Total data received for each interface'' 3,
           card False ''Cumulative Upload'' ''Total data sent for each interface'' 2])"

lemma net_points_labels: "map pt_label (net_points ks i) = ks"
proof -
  have "pt_label (case x of (key, col) \<Rightarrow> data_point key (iface_value key i) (Hue col) (3 / 10)) = fst x" for x
    by (cases x) (simp add: data_point_def)
  then show ?thesis using iface_data_labels [of ks] by (simp add: net_points_def o_def)
qed

subsection \<open>gpu-charts.tsx\<close>

definition packageKey :: string where "packageKey = '' package''"

definition gpu_parts :: "(string \<times> gpu_data) list \<Rightarrow> string list" where
  "gpu_parts gpus = concat (map (\<lambda>(i, gpu).
     (if gpu_p gpu \<noteq> None then [i @ '':'' @ gpu_n gpu] else [])
     @ (if gpu_pp gpu \<noteq> None then [i @ '':'' @ gpu_n gpu @ packageKey] else [])) (obj_entries gpus))"

definition gpuPowerKey :: "stats_record list \<Rightarrow> string" where
  \<comment> \<open>from the last record that has GPU data\<close>
  "gpuPowerKey systemStats = (case find (\<lambda>r. gpus_of r \<noteq> None) (rev systemStats) of
       None \<Rightarrow> ''''
     | Some r \<Rightarrow> join [CHR 0x00] (sort (gpu_parts (the (gpus_of r)))))"

record power_entry =
  pe_label :: string
  pe_gpuId :: string
  pe_isPackage :: bool
  pe_total :: rat

definition add_power :: "string \<Rightarrow> string \<Rightarrow> bool \<Rightarrow> rat \<Rightarrow> (string \<times> power_entry) list \<Rightarrow> (string \<times> power_entry) list" where
  \<comment> \<open>an existing entry keeps the GPU it was made for\<close>
  "add_power key gpuId isPackage x totals = (case map_of totals key of
       Some e \<Rightarrow> AList.update key (e\<lparr>pe_total := pe_total e + x\<rparr>) totals
     | None \<Rightarrow> AList.update key \<lparr>pe_label = key, pe_gpuId = gpuId, pe_isPackage = isPackage, pe_total = x\<rparr> totals)"

definition add_gpu_power :: "string \<times> gpu_data \<Rightarrow> (string \<times> power_entry) list \<Rightarrow> (string \<times> power_entry) list" where
  "add_gpu_power x totals = (let (i, gpu) = x;
       totals = add_power (gpu_n gpu) i False (orelse (gpu_p gpu) 0) totals
     in case gpu_pp gpu of
          Some pp \<Rightarrow> add_power (gpu_n gpu @ packageKey) i True pp totals
        | None \<Rightarrow> totals)"

definition power_totals :: "stats_record list \<Rightarrow> (string \<times> power_entry) list" where
  "power_totals systemStats = fold (\<lambda>r totals. case gpus_of r of
       None \<Rightarrow> totals | Some gpus \<Rightarrow> fold add_gpu_power (obj_entries gpus) totals) systemStats []"

definition gpu_power_key :: "power_entry \<Rightarrow> stats_record \<Rightarrow> rat option" where
  "gpu_power_key e r = (let gpu = Option.bind (gpus_of r) (\<lambda>m. map_of m (pe_gpuId e))
     in Some (orelse (Option.bind gpu (if pe_isPackage e then gpu_pp else gpu_p)) 0))"

definition gpu_power_points :: "stats_record list \<Rightarrow> stats_record data_point list" where
  "gpu_power_points systemStats =
     (if gpuPowerKey systemStats = '''' then []
      else let sorted_entries = sort_desc pe_total (map snd (power_totals systemStats))
       in map (\<lambda>(i, e). data_point (pe_label e) (gpu_power_key e)
              (Hue (Hsl (226 + container_hue i (length sorted_entries)) ''65%'' ''52%'')) 1)
            (enumerate 0 sorted_entries))"

definition GpuPowerChart :: "num_text \<Rightarrow> dec_text \<Rightarrow> chart_args \<Rightarrow> stats_record card" where
  "GpuPowerChart num_text dec a =
     (let dataPoints = gpu_power_points (ca_stats a)
      in arg_card a ''GPU Power Draw'' ''Average power consumption of GPUs'' []
           ((chart_of Line_chart dataPoints (\<lambda>v. num_text (toFixedFloat v 2) @ ''W'') (\<lambda>v. dec v 2 @ ''W''))
             \<lparr>ch_legend := length dataPoints > 1, ch_sorter := Some By_value\<rparr>))"

definition gpu_value :: "string \<Rightarrow> (gpu_data \<Rightarrow> rat option) \<Rightarrow> stats_record \<Rightarrow> rat option" where
  \<comment> \<open>stats?.g?.[id]?.x ?? 0\<close>
  "gpu_value i f r = Some (orelse (Option.bind (gpus_of r) (\<lambda>m. Option.bind (map_of m i) f)) 0)"

definition find_engines :: "stats_record list \<Rightarrow> (string \<times> string list) option" where
  \<comment> \<open>enginesKey: going back over the records, the first GPU with engine data and its engine names\<close>
  "find_engines systemStats =
     (case find (\<lambda>r. list_ex (\<lambda>(i, g). gpu_e g \<noteq> None) (obj_entries (orelse (gpus_of r) []))) (rev systemStats) of
        None \<Rightarrow> None
      | Some r \<Rightarrow> (case find (\<lambda>(i, g). gpu_e g \<noteq> None) (obj_entries (orelse (gpus_of r) [])) of
            None \<Rightarrow> None
          | Some (i, g) \<Rightarrow> Some (i, sort (obj_keys (orelse (gpu_e g) [])))))"

definition enginesKey :: "stats_record list \<Rightarrow> string" where
  "enginesKey systemStats = (case find_engines systemStats of
       None \<Rightarrow> '''' | Some (i, names) \<Rightarrow> i @ [CHR 0x00] @ join [CHR 0x00] names)"

definition engine_value :: "string \<Rightarrow> string \<Rightarrow> stats_record \<Rightarrow> rat option" where
  "engine_value gId engine r =
     gpu_value gId (\<lambda>g. Option.bind (gpu_e g) (\<lambda>e. map_of e engine)) r"

definition GpuEnginesChart :: "num_text \<Rightarrow> dec_text \<Rightarrow> chart_args \<Rightarrow> stats_record chart option" where
  \<comment> \<open>the key is split again at its separators; an empty GPU id is falsy\<close>
  "GpuEnginesChart num_text dec a =
     (case split_on (CHR 0x00) (enginesKey (ca_stats a)) of
        [] \<Rightarrow> None
      | gId # engineNames \<Rightarrow>
          if gId = '''' then None
          else Some ((chart_of Line_chart
            (map (\<lambda>(i, engine). data_point engine (engine_value gId engine)
                (Hue (Hsl (140 + container_hue i (length engineNames)) ''65%'' ''52%'')) (35 / 100)) (enumerate 0 engineNames))
            (percent_tick num_text) (percent_content dec))\<lparr>ch_legend := True\<rparr>))"

definition gpu_cards :: "num_text \<Rightarrow> dec_text \<Rightarrow> chart_args \<Rightarrow> string \<times> gpu_data \<Rightarrow> stats_record card list" where
  \<comment> \<open>usage, and memory when the GPU reports a total\<close>
  "gpu_cards num_text dec a x = (let (i, gpu) = x
     in [arg_card a (gpu_n gpu @ '' Usage'') (''Average utilization of '' @ gpu_n gpu) []
          (chart_of Area_chart [data_point ''Usage'' (gpu_value i (\<lambda>g. Some (gpu_u g))) (Palette 1) (35 / 100)]
             (percent_tick num_text) (percent_content dec))]
        @ (if orelse (gpu_mt gpu) 0 > 0
           then [arg_card a (gpu_n gpu @ '' VRAM'') ''Precise utilization at the recorded time'' []
             ((chart_of Area_chart [data_point ''Usage'' (gpu_value i gpu_mu) (Palette 2) (25 / 100)]
                (\<lambda>v. byte_text (\<lambda>x. num_text (toFixedFloat x (if x \<ge> 10 then 0 else 1))) (formatBytes v False Bytes True))
                (\<lambda>v. byte_text (\<lambda>x. dec x 2) (formatBytes v False Bytes True)))\<lparr>ch_max := gpu_mt gpu\<rparr>)] else []))"

definition GpuDetailCharts ::
  "num_text \<Rightarrow> dec_text \<Rightarrow> chart_args \<Rightarrow> (string \<times> gpu_data) list \<Rightarrow> bool
     \<Rightarrow> stats_record chart option option \<times> (string \<times> stats_record card list) list" where
  \<comment> \<open>the engines card, when there is engine data, with its chart; and the cards of each GPU\<close>
  "GpuDetailCharts num_text dec a gpus hasGpuEnginesData =
     ((if hasGpuEnginesData then Some (GpuEnginesChart num_text dec a) else None),
      map (\<lambda>x. (fst x, gpu_cards num_text dec a x)) (obj_entries gpus))"

lemma add_power_keys:
  "distinct (map fst m) \<Longrightarrow> distinct (map fst (add_power k i b x m))"
  "set (map fst (add_power k i b x m)) = insert k (set (map fst m))"
  by (auto simp: add_power_def distinct_update dom_update split: option.splits)

lemma labels_add_power:
  assumes "\<And>k e. map_of m k = Some e \<Longrightarrow> pe_label e = k"
  shows "map_of (add_power k' i b x m) k = Some e \<Longrightarrow> pe_label e = k"
  using assms by (auto simp: add_power_def split: option.splits if_splits)

definition power_ok :: "(string \<times> power_entry) list \<Rightarrow> bool" where
  "power_ok m \<longleftrightarrow> distinct (map fst m) \<and> list_all (\<lambda>(k, e). pe_label e = k) m"

lemma power_ok_add [keeps]: "power_ok m \<Longrightarrow> power_ok (add_power k i b x m)"
proof -
  assume ok: "power_ok m"
  have d: "distinct (map fst (add_power k i b x m))"
    using ok add_power_keys(1) [of m k i b x] by (simp add: power_ok_def)
  have "pe_label e = k'" if "(k', e) \<in> set (add_power k i b x m)" for k' e
  proof (rule labels_add_power)
    show "map_of (add_power k i b x m) k' = Some e" using d that by (simp add: map_of_eq_Some_iff)
    show "\<And>k e. map_of m k = Some e \<Longrightarrow> pe_label e = k"
      using ok by (force simp: power_ok_def list_all_iff dest: map_of_SomeD)
  qed
  with d show ?thesis by (auto simp: power_ok_def list_all_iff)
qed

lemma power_ok_gpu [keeps]: "power_ok m \<Longrightarrow> power_ok (add_gpu_power x m)"
  by (auto simp: add_gpu_power_def keeps Let_def split: option.splits prod.splits)

lemma power_ok_gpus [keeps]: "power_ok m \<Longrightarrow> power_ok (fold add_gpu_power xs m)"
  by (induction xs arbitrary: m) (auto simp: keeps)

lemma power_ok_totals: "power_ok (power_totals rs)"
proof -
  have "power_ok m \<Longrightarrow> power_ok (fold (\<lambda>r totals. case gpus_of r of
       None \<Rightarrow> totals | Some gpus \<Rightarrow> fold add_gpu_power (obj_entries gpus) totals) rs m)" for m
    by (induction rs arbitrary: m) (auto simp: keeps split: option.splits)
  then show ?thesis by (simp add: power_totals_def power_ok_def)
qed

lemma gpu_power_labels:
  "map pt_label (gpu_power_points rs) =
     (if gpuPowerKey rs = '''' then [] else map pe_label (sort_desc pe_total (map snd (power_totals rs))))"
proof -
  have "map pt_label (map (\<lambda>(i, e). data_point (pe_label e) (gpu_power_key e) (col i) 1) (enumerate n es)) = map pe_label es" for col n es
    by (induction es arbitrary: n) (auto simp: data_point_def)
  then show ?thesis by (simp add: gpu_power_points_def Let_def)
qed

lemma power_labels_distinct: "power_ok m \<Longrightarrow> distinct (map pe_label (map snd m)) \<and> map pe_label (map snd m) = map fst m"
proof -
  assume ok: "power_ok m"
  have "map pe_label (map snd m) = map fst m"
    using ok by (auto simp: power_ok_def list_all_iff)
  with ok show ?thesis by (metis power_ok_def)
qed

lemma join_not_Nil: "xs \<noteq> [] \<and> list_all (\<lambda>x. x \<noteq> '''') xs \<Longrightarrow> join [c] xs \<noteq> ''''"
  by (cases xs rule: remdups_adj.cases) auto

lemma distinct_labels_sorted: "distinct (map pe_label (sort_desc f es)) = distinct (map pe_label es)"
  by (metis mset_eq_imp_distinct_iff mset_map mset_sort_desc)

text \<open>
  The power chart has one line per name, in order of the summed power. GPUs of one name share a
  line: its total is their sum, but what it draws is the power of the first of them alone.
\<close>
theorem gpu_power_lines:
  "distinct (map pt_label (gpu_power_points rs))
   \<and> (gpuPowerKey rs = '''' \<or> set (map pt_label (gpu_power_points rs)) = fst ` set (power_totals rs))
   \<and> sorted_wrt (\<lambda>a b. pe_total b \<le> pe_total a) (sort_desc pe_total (map snd (power_totals rs)))
   \<and> (let two = \<lparr>sr_created = c, sr_stats = Some (no_stats\<lparr>st_g := Some
          [(''0'', \<lparr>gpu_n = n, gpu_mu = None, gpu_mt = None, gpu_u = 0, gpu_p = Some p, gpu_pp = None, gpu_e = None\<rparr>),
           (''1'', \<lparr>gpu_n = n, gpu_mu = None, gpu_mt = None, gpu_u = 0, gpu_p = Some q, gpu_pp = None, gpu_e = None\<rparr>)]\<rparr>)\<rparr>
      in map (\<lambda>pt. (pt_label pt, pt_dataKey pt two)) (gpu_power_points [two]) = [(n, Some p)]
         \<and> map (\<lambda>(k, e). pe_total e) (power_totals [two]) = [p + q])"
proof -
  have d: "distinct (map pt_label (gpu_power_points rs))"
    using power_labels_distinct [OF power_ok_totals, of rs] by (simp add: gpu_power_labels distinct_labels_sorted)
  have s: "set (map pe_label (sort_desc pe_total (map snd (power_totals rs)))) = fst ` set (power_totals rs)"
    using power_labels_distinct [OF power_ok_totals, of rs] by (metis list.set_map mset_map mset_sort_desc set_mset_mset)
  define two where "two = \<lparr>sr_created = c, sr_stats = Some (no_stats\<lparr>st_g := Some
          [(''0'', \<lparr>gpu_n = n, gpu_mu = None, gpu_mt = None, gpu_u = 0, gpu_p = Some p, gpu_pp = None, gpu_e = None\<rparr>),
           (''1'', \<lparr>gpu_n = n, gpu_mu = None, gpu_mt = None, gpu_u = 0, gpu_p = Some q, gpu_pp = None, gpu_e = None\<rparr>)]\<rparr>)\<rparr>"
  have o: "obj_entries [(''0'', x), (''1'', y)] = [(''0'', x), (''1'', y)]" for x y :: gpu_data
  proof -
    have "is_array_index ''0''" "is_array_index ''1''" "digits_val ''0'' \<le> digits_val ''1''" by (simp_all add: is_array_index_def is_digit_def digits_val_def)
    then show ?thesis by (simp add: obj_entries_def)
  qed
  have t: "power_totals [two] = [(n, \<lparr>pe_label = n, pe_gpuId = ''0'', pe_isPackage = False, pe_total = p + q\<rparr>)]"
    by (simp add: power_totals_def two_def gpus_of_def o add_gpu_power_def add_power_def Let_def)
  have "sort (gpu_parts (the (gpus_of two))) \<noteq> [] \<and> list_all (\<lambda>x. x \<noteq> '''') (sort (gpu_parts (the (gpus_of two))))"
    by (simp add: gpu_parts_def two_def gpus_of_def o)
  with join_not_Nil have "join [CHR 0x00] (sort (gpu_parts (the (gpus_of two)))) \<noteq> ''''" by blast
  moreover have "gpuPowerKey [two] = join [CHR 0x00] (sort (gpu_parts (the (gpus_of two))))"
    by (simp add: gpuPowerKey_def) (simp add: two_def gpus_of_def)
  ultimately have k: "gpuPowerKey [two] \<noteq> ''''" by simp
  have w: "map (\<lambda>pt. (pt_label pt, pt_dataKey pt two)) (gpu_power_points [two]) = [(n, Some p)]"
    using k by (simp add: gpu_power_points_def t sort_desc_def data_point_def gpu_power_key_def)
      (simp add: two_def gpus_of_def)
  show ?thesis
    using d s w t by (auto simp: gpu_power_labels sorted_sort_desc two_def [symmetric] Let_def)
qed

end
