(* ===== verification/Ui_State.thy ===== *)
theory Ui_State
  imports Charts
begin

section \<open>Pages, forms and dialogs\<close>

text \<open>
  The state of the parts around the tables and charts: the theme (theme-provider.tsx,
  mode-toggle.tsx), the tag input (ui/input-tags.tsx) and the notification form
  (routes/settings/notifications.tsx), the chart time menu (charts/chart-time-select.tsx), the
  router (router.tsx) and sign-in and page selection (main.tsx, login.tsx). HTTP responses are
  arguments. The lemmas state the round trips and which state each outcome leaves.
\<close>

subsection \<open>Theme\<close>

definition stored_theme :: "string option \<Rightarrow> string \<Rightarrow> string" where
  \<comment> \<open>localStorage.getItem(storageKey) || defaultTheme\<close>
  "stored_theme item defaultTheme = or_str item defaultTheme"

definition theme_classes :: "bool \<Rightarrow> string \<Rightarrow> string list \<Rightarrow> string list" where
  \<comment> \<open>the effect on the root's class list; the first argument is the dark media query\<close>
  "theme_classes prefersDark theme classList =
     (let rest = filter (\<lambda>c. c \<notin> {''light'', ''dark''}) classList;
          add = (if theme = ''system'' then (if prefersDark then ''dark'' else ''light'') else theme)
      in if add \<in> set rest then rest else rest @ [add])"

record theme_state =
  th_theme :: string
  th_storage :: "string option"

definition setTheme :: "string \<Rightarrow> theme_state \<Rightarrow> theme_state" where
  "setTheme theme s = \<lparr>th_theme = theme, th_storage = Some theme\<rparr>"

definition themes :: "string list" where
  "themes = [''light'', ''dark'', ''system'']"

definition toggle_theme :: "theme_state \<Rightarrow> theme_state" where
  \<comment> \<open>themes[(currentIndex + 1) % themes.length]; indexOf gives -1 for an unknown theme\<close>
  "toggle_theme s = setTheme (themes ! nat ((find_index (\<lambda>t. t = th_theme s) themes + 1) mod 3)) s"

lemma toggle_theme_next:
  "toggle_theme \<lparr>th_theme = ''light'', th_storage = x\<rparr> = \<lparr>th_theme = ''dark'', th_storage = Some ''dark''\<rparr>"
  "toggle_theme \<lparr>th_theme = ''dark'', th_storage = x\<rparr> = \<lparr>th_theme = ''system'', th_storage = Some ''system''\<rparr>"
  "toggle_theme \<lparr>th_theme = ''system'', th_storage = x\<rparr> = \<lparr>th_theme = ''light'', th_storage = Some ''light''\<rparr>"
  "th_theme s \<notin> set themes \<Longrightarrow> toggle_theme s = \<lparr>th_theme = ''light'', th_storage = Some ''light''\<rparr>"
  by (auto simp: toggle_theme_def themes_def find_index_def setTheme_def)

text \<open>
  The theme button goes round the three themes, stores what it shows so that a reload restores
  it, and after each change the page has exactly one of the classes light and dark; an unknown
  stored theme becomes light.
\<close>
theorem theme_cycle:
  "(th_theme s \<in> set themes \<longrightarrow> (toggle_theme ^^ 3) s = s\<lparr>th_storage := Some (th_theme s)\<rparr>)
   \<and> (th_theme s \<notin> set themes \<longrightarrow> th_theme (toggle_theme s) = ''light'')
   \<and> stored_theme (th_storage (toggle_theme s)) ''system'' = th_theme (toggle_theme s)
   \<and> length (filter (\<lambda>c. c \<in> {''light'', ''dark''}) (theme_classes dark (th_theme (toggle_theme s)) cs)) = 1"
proof -
  obtain t st where s: "s = \<lparr>th_theme = t, th_storage = st\<rparr>" by (cases s)
  have c: "th_theme s \<in> set themes \<Longrightarrow> (toggle_theme ^^ 3) s = s\<lparr>th_storage := Some (th_theme s)\<rparr>"
  proof -
    assume "th_theme s \<in> set themes"
    then have "t = ''light'' \<or> t = ''dark'' \<or> t = ''system''" by (simp add: themes_def s)
    then show ?thesis unfolding s by (elim disjE) (simp_all add: toggle_theme_next numeral_3_eq_3)
  qed
  have u: "th_theme s \<notin> set themes \<Longrightarrow> th_theme (toggle_theme s) = ''light''"
    by (simp add: toggle_theme_next)
  have k: "th_theme (toggle_theme s) \<in> set themes"
  proof (cases "th_theme s \<in> set themes")
    case True
    then have "t = ''light'' \<or> t = ''dark'' \<or> t = ''system''" by (simp add: themes_def s)
    then show ?thesis unfolding s by (elim disjE) (simp_all add: toggle_theme_next themes_def)
  next
    case False
    then show ?thesis by (simp add: toggle_theme_next(4)) (simp add: themes_def)
  qed
  have n: "filter (\<lambda>c. c \<in> {''light'', ''dark''}) (filter (\<lambda>c. c \<notin> {''light'', ''dark''}) cs) = []"
    by (auto simp: filter_empty_conv)
  have l: "length (filter (\<lambda>c. c \<in> {''light'', ''dark''}) (theme_classes dark t cs)) = 1" if "t \<in> set themes" for t
    using that n by (auto simp: theme_classes_def themes_def Let_def)
  have "stored_theme (th_storage (toggle_theme s)) ''system'' = th_theme (toggle_theme s)"
    using k by (auto simp: stored_theme_def or_str_def toggle_theme_def setTheme_def themes_def [symmetric])
      (simp_all add: themes_def)
  with u c l [OF k] show ?thesis by blast
qed

theorem theme_cycle_witness:
  "(toggle_theme ^^ 3) \<lparr>th_theme = ''dark'', th_storage = None\<rparr> = \<lparr>th_theme = ''dark'', th_storage = Some ''dark''\<rparr>"
  using theme_cycle [of "\<lparr>th_theme = ''dark'', th_storage = None\<rparr>"] by (simp add: themes_def)

subsection \<open>The tag input\<close>

record tag_input =
  ti_tags :: "string list"
  ti_pending :: string

definition tags_effect :: "tag_input \<Rightarrow> tag_input" where
  \<comment> \<open>a pending text with a comma (pasted) is split into trimmed tags\<close>
  "tags_effect s = (if CHR '','' \<in> set (ti_pending s)
     then \<lparr>ti_tags = unique (ti_tags s @ map trim (split_on (CHR '','') (ti_pending s))), ti_pending = ''''\<rparr> else s)"

definition tags_change :: "string \<Rightarrow> tag_input \<Rightarrow> tag_input" where
  "tags_change v s = tags_effect (s\<lparr>ti_pending := v\<rparr>)"

definition addPendingDataPoint :: "tag_input \<Rightarrow> tag_input" where
  "addPendingDataPoint s = (if ti_pending s \<noteq> ''''
     then \<lparr>ti_tags = unique (ti_tags s @ [ti_pending s]), ti_pending = ''''\<rparr> else s)"

definition tags_key :: "string \<Rightarrow> tag_input \<Rightarrow> tag_input" where
  "tags_key key s = (if key = ''Enter'' \<or> key = '','' then addPendingDataPoint s
     else if key = ''Backspace'' \<and> ti_pending s = '''' \<and> ti_tags s \<noteq> [] then s\<lparr>ti_tags := butlast (ti_tags s)\<rparr> else s)"

definition tags_remove :: "string \<Rightarrow> tag_input \<Rightarrow> tag_input" where
  "tags_remove item s = s\<lparr>ti_tags := filter (\<lambda>i. i \<noteq> item) (ti_tags s)\<rparr>"

datatype tag_event = Change string | Key string | Remove_tag string

fun tag_step :: "tag_event \<Rightarrow> tag_input \<Rightarrow> tag_input" where
  "tag_step (Change v) s = tags_change v s"
| "tag_step (Key k) s = tags_key k s"
| "tag_step (Remove_tag t) s = tags_remove t s"

definition saved_ids :: "string list \<Rightarrow> string list" where
  \<comment> \<open>what the notification form sends: ids.map(trim).filter(Boolean)\<close>
  "saved_ids ids = filter (\<lambda>i. i \<noteq> '''') (map trim ids)"

lemma trim_trim: "trim (trim s) = trim s"
proof -
  have d: "dropWhile P (dropWhile P xs) = dropWhile P xs" for P :: "char \<Rightarrow> bool" and xs
    by (induction xs) auto
  have e: "dropWhile P (rev (dropWhile P (rev xs))) = rev (dropWhile P (rev xs))" if "dropWhile P xs = xs" for P :: "char \<Rightarrow> bool" and xs
  proof (cases "dropWhile P (rev xs)")
    case (Cons y ys)
    have "suffix (dropWhile P (rev xs)) (rev xs)" by (rule suffix_dropWhile)
    then have "prefix (rev (dropWhile P (rev xs))) xs" by (simp add: suffix_to_prefix)
    then obtain zs where z: "xs = rev (dropWhile P (rev xs)) @ zs" by (auto elim: prefixE)
    obtain w ws where w: "rev (dropWhile P (rev xs)) = w # ws" using Cons by (cases "rev (dropWhile P (rev xs))") auto
    have "\<not> P w" using that z w by (metis append_Cons dropWhile.simps(2) hd_dropWhile list.sel(1) list.distinct(1))
    then show ?thesis using w by simp
  next
    case Nil
    then have "dropWhile P xs = []" by simp
    with that show ?thesis by simp
  qed
  show ?thesis unfolding trim_def using e [OF d, of is_space s] d by simp
qed

lemma saved_ids_idem: "saved_ids (saved_ids ids) = saved_ids ids"
  by (induction ids) (auto simp: saved_ids_def trim_trim)

lemma tag_step_distinct [keeps]: "distinct (ti_tags s) \<Longrightarrow> distinct (ti_tags (tag_step e s))"
  by (cases e) (auto simp: tags_change_def tags_effect_def tags_key_def addPendingDataPoint_def tags_remove_def distinct_butlast)

text \<open>
  The tag input never holds a tag twice and leaves no comma pending, whatever is typed, pasted and
  removed; what the form sends has no blank id, is trimmed, and sending it again changes nothing.
\<close>
theorem tags_distinct:
  assumes "distinct (ti_tags s)" and "CHR '','' \<notin> set (ti_pending s)"
  shows "distinct (ti_tags (fold tag_step es s)) \<and> CHR '','' \<notin> set (ti_pending (fold tag_step es s))
     \<and> '''' \<notin> set (saved_ids (ti_tags (fold tag_step es s)))
     \<and> saved_ids (saved_ids (ti_tags (fold tag_step es s))) = saved_ids (ti_tags (fold tag_step es s))"
proof -
  have "distinct (ti_tags (fold tag_step es s)) \<and> CHR '','' \<notin> set (ti_pending (fold tag_step es s))"
    using assms
  proof (induction es arbitrary: s)
    case (Cons e es)
    have "CHR '','' \<notin> set (ti_pending (tag_step e s))"
      using Cons.prems(2) by (cases e) (auto simp: tags_change_def tags_effect_def tags_key_def addPendingDataPoint_def tags_remove_def)
    with Cons tag_step_distinct show ?case by simp
  qed simp
  then show ?thesis using saved_ids_idem by (auto simp: saved_ids_def)
qed

theorem tags_distinct_witness:
  "ti_tags (fold tag_step [Change ''12, 7,12'', Change ''7'', Key ''Enter''] \<lparr>ti_tags = [], ti_pending = ''''\<rparr>) = [''12'', ''7'']
   \<and> distinct (ti_tags (fold tag_step [Change ''12, 7,12'', Change ''7'', Key ''Enter''] \<lparr>ti_tags = [], ti_pending = ''''\<rparr>))"
  using tags_distinct [of "\<lparr>ti_tags = [], ti_pending = ''''\<rparr>" "[Change ''12, 7,12'', Change ''7'', Key ''Enter'']"]
  by (simp add: tags_change_def tags_effect_def tags_key_def addPendingDataPoint_def trim_def is_space_def unique_def)

subsection \<open>The notification form\<close>

record form_state =
  nf_settings :: notification_settings
  nf_loading :: bool
  nf_toasts :: "string list"

definition form_initial :: form_state where
  "form_initial = \<lparr>nf_settings = \<lparr>telegramBotToken = '''', telegramUserIds = []\<rparr>, nf_loading = True, nf_toasts = []\<rparr>"

definition form_loaded :: "(string option \<times> string list option) option \<Rightarrow> form_state \<Rightarrow> form_state" where
  \<comment> \<open>the answer's token and array of ids (None when not an array), or a failed request\<close>
  "form_loaded answer s = (case answer of
       Some (token, userIds) \<Rightarrow>
         s\<lparr>nf_settings := \<lparr>telegramBotToken = orelse token '''', telegramUserIds = orelse userIds []\<rparr>, nf_loading := False\<rparr>
     | None \<Rightarrow> s\<lparr>nf_toasts := ''Unable to load notification settings'' # nf_toasts s, nf_loading := False\<rparr>)"

definition form_save :: "(notification_settings \<Rightarrow> notification_settings option) \<Rightarrow> form_state \<Rightarrow> form_state" where
  \<comment> \<open>put is the hub's answer to the parsed settings; the schema accepts every such value\<close>
  "form_save put s =
     (let parsed = (nf_settings s)\<lparr>telegramUserIds := saved_ids (telegramUserIds (nf_settings s))\<rparr>
      in case put parsed of
           Some answer \<Rightarrow> s\<lparr>nf_settings := answer, nf_toasts := ''Telegram notification settings saved'' # nf_toasts s, nf_loading := False\<rparr>
         | None \<Rightarrow> s\<lparr>nf_toasts := ''Unable to save notification settings'' # nf_toasts s, nf_loading := False\<rparr>)"

definition test_disabled :: "form_state \<Rightarrow> bool" where
  "test_disabled s \<longleftrightarrow> nf_loading s \<or> telegramBotToken (nf_settings s) = '''' \<or> telegramUserIds (nf_settings s) = []"

lemma form_save_failed: "form_save (\<lambda>_. None) s = s\<lparr>nf_toasts := ''Unable to save notification settings'' # nf_toasts s, nf_loading := False\<rparr>"
  by (simp add: form_save_def)

text \<open>With a hub that stores and returns what it is sent, saving twice is saving once.\<close>

lemma form_save_stable:
  "nf_settings (form_save Some (form_save Some s)) = nf_settings (form_save Some s)"
  by (simp add: form_save_def saved_ids_idem Let_def)

subsection \<open>Chart time menu\<close>

definition availableChartTimes :: "sem_ver \<Rightarrow> chart_time list" where
  "availableChartTimes agentVersion = filter (\<lambda>ct. case minVersion (chartTimeData ct) of
       None \<Rightarrow> True
     | Some v \<Rightarrow> v = '''' \<or> (case compareSemVer agentVersion (parseSemVer v) of Some d \<Rightarrow> d \<ge> 0 | None \<Rightarrow> False)) chart_times"

lemma minVersion_1m: "parseSemVer ''0.13.0'' = version 0 13 0"
  by code_simp

lemma availableChartTimes_version:
  "availableChartTimes (version a b c) = (if a = 0 \<and> b < 13 then tl chart_times else chart_times)"
  by (auto simp: availableChartTimes_def chart_times_def minVersion_1m compareSemVer_def version_def
      strict_eq_num_def num_diff_def)

subsection \<open>Router\<close>

definition prependBasePath :: "string \<Rightarrow> string \<Rightarrow> string" where
  "prependBasePath basePath path = collapse (CHR ''/'') (basePath @ path)"

datatype route = Home | Containers_route | System_route string | Settings_route

definition route_patterns :: "string \<Rightarrow> (string \<times> string) list" where
  "route_patterns basePath = map (\<lambda>(n, p). (n, prependBasePath basePath p))
     [(''home'', ''/''), (''containers'', ''/containers''), (''system'', ''/system/:id''), (''settings'', ''/settings/:name?'')]"

datatype link_effect = Stays | New_window string | Navigates string

definition link_click :: "bool \<Rightarrow> bool \<Rightarrow> bool \<Rightarrow> string option \<Rightarrow> link_effect" where
  \<comment> \<open>whether the event was already handled, the two modifier keys, and the link's href\<close>
  "link_click defaultPrevented ctrlKey metaKey href =
     (if defaultPrevented then Stays
      else if ctrlKey \<or> metaKey then New_window (orelse href '''') else Navigates (orelse href ''''))"

fun no_double :: "char \<Rightarrow> string \<Rightarrow> bool" where
  "no_double c (x # y # xs) = (\<not> (x = c \<and> y = c) \<and> no_double c (y # xs))"
| "no_double c xs = True"

lemma collapse_no_double: "no_double c s \<Longrightarrow> collapse c s = s"
  by (induction c s rule: collapse.induct) auto

lemma no_double_append:
  "no_double c (xs @ [c]) \<Longrightarrow> no_double c (c # ys) \<Longrightarrow> collapse c (xs @ c # c # ys) = xs @ c # ys"
proof (induction xs)
  case Nil
  then show ?case by (cases ys) (auto simp: collapse_no_double)
next
  case (Cons x xs)
  then show ?case by (cases xs) auto
qed

text \<open>
  The hub's base path ends in a slash and each pattern begins with one; joining them leaves
  exactly one slash in between and changes nothing else, so a page's path under a base path is
  the base path followed by the plain path.
\<close>
theorem base_path_joined:
  assumes "no_double (CHR ''/'') (base @ ''/'')" and "no_double (CHR ''/'') (CHR ''/'' # path)"
  shows "prependBasePath (base @ ''/'') (CHR ''/'' # path) = base @ CHR ''/'' # path
     \<and> prependBasePath '''' (CHR ''/'' # path) = CHR ''/'' # path"
  using assms no_double_append [of "CHR ''/''" base path]
  by (simp add: prependBasePath_def collapse_no_double)

theorem base_path_joined_witness:
  "prependBasePath ''/monitor/'' ''/system/:id'' = ''/monitor/system/:id''"
  using base_path_joined [of "''/monitor''" "''system/:id''"] by simp

subsection \<open>Sign-in and pages: main.tsx, login.tsx\<close>

datatype response = Ok_response | Status nat | Network_error

definition authenticated_after :: "response \<Rightarrow> bool" where
  \<comment> \<open>response.ok || !isUnauthorized(status); a failed fetch counts as signed in\<close>
  "authenticated_after r = (case r of Ok_response \<Rightarrow> True | Status n \<Rightarrow> n \<noteq> 401 | Network_error \<Rightarrow> True)"

datatype screen = Blank | Login_screen | Not_found | Page route

definition App_page :: "route option \<Rightarrow> screen" where
  "App_page page = (case page of None \<Rightarrow> Not_found | Some r \<Rightarrow> Page r)"

definition Layout :: "bool option \<Rightarrow> route option \<Rightarrow> screen" where
  "Layout authenticated page = (case authenticated of
       Some False \<Rightarrow> Login_screen | None \<Rightarrow> Blank | Some True \<Rightarrow> App_page page)"

record login_state =
  lg_error :: string
  lg_loading :: bool
  lg_authenticated :: "bool option"

definition login_submit :: "bool \<Rightarrow> login_state \<Rightarrow> login_state" where
  \<comment> \<open>accepted tells whether the request succeeded\<close>
  "login_submit accepted s =
     (if accepted then s\<lparr>lg_error := '''', lg_loading := False, lg_authenticated := Some True\<rparr>
      else s\<lparr>lg_error := ''Incorrect password'', lg_loading := False\<rparr>)"

lemma login_needed: "Layout (Some (authenticated_after r)) page = Login_screen \<longleftrightarrow> r = Status 401"
  by (cases r) (auto simp: Layout_def authenticated_after_def App_page_def split: option.splits bool.splits)

end
