(* ===== verification/System_Page.thy ===== *)
theory System_Page
  imports Ui_State Systems_Manager
begin

section \<open>The system page: routes/system.tsx, its record and details, and the info bar\<close>

text \<open>
  What a system's page is built from besides its statistics (System_Data): the record it finds for
  the id in the URL and the details it fetches, the tabs, the two layouts with the charts of
  theory Charts, and the info bar with its facts, the temporary SSH access and the deletion
  dialog. Responses are arguments of the steps and may come in any order. The lemmas show that the
  layouts show the same charts, that the shown tab is mounted, what requests the dialogs send, and
  which responses are shown although the page has moved on.
\<close>

subsection \<open>The record and the details of the page: use-system-data.ts\<close>

text \<open>
  The state: the id in the URL, the system's record (None is the empty object before the first
  one), the details (all fields absent at first), and the requests in flight.
\<close>

definition no_details :: system_details where
  "no_details = \<lparr>det_hostname = None, det_kernel = None, det_cores = None, det_threads = None, det_cpu = None,
     det_os = None, det_os_name = None, det_arch = None, det_memory = None, det_podman = None\<rparr>"

record page_state =
  pg_id :: string
  pg_system :: "system_record option"
  pg_details :: system_details
  pg_getOne :: "string list"
  pg_detail_requests :: "string list"

definition page_initial :: "string \<Rightarrow> page_state" where
  "page_initial i = \<lparr>pg_id = i, pg_system = None, pg_details = no_details, pg_getOne = [], pg_detail_requests = []\<rparr>"

definition details_effect :: "string option \<Rightarrow> page_state \<Rightarrow> page_state" where
  \<comment> \<open>the effect on [system.id], with the id before the change; agents with info.m have no details\<close>
  "details_effect oldId p =
     (case pg_system p of
        None \<Rightarrow> p
      | Some s \<Rightarrow>
          if oldId = Some (sys_id s) \<or> sys_id s = '''' \<or> str_truthy (si_m (sys_info s)) then p
          else p\<lparr>pg_detail_requests := pg_detail_requests p @ [sys_id s]\<rparr>)"

definition setSystem :: "system_record \<Rightarrow> page_state \<Rightarrow> page_state" where
  \<comment> \<open>setSystem followed by the effect that depends on the system's id\<close>
  "setSystem s p = details_effect (map_option sys_id (pg_system p)) (p\<lparr>pg_system := Some s\<rparr>)"

definition find_system :: "sm_state \<Rightarrow> string \<Rightarrow> system_record option" where
  \<comment> \<open>store is the by-id store when it has the id, else the by-name store, for old links by name\<close>
  "find_system sm i =
     map_of (if map_of (allSystemsById sm) i \<noteq> None then allSystemsById sm else allSystemsByName sm) i"

definition system_effect :: "sm_state \<Rightarrow> page_state \<Rightarrow> page_state" where
  \<comment> \<open>the effect on [id, systems.length]\<close>
  "system_effect sm p =
     (let fetched = p\<lparr>pg_getOne := pg_getOne p @ [pg_id p]\<rparr>
      in if systems_list sm = [] then fetched
         else (case find_system sm (pg_id p) of Some s \<Rightarrow> setSystem s p | None \<Rightarrow> fetched))"

definition page_cleanup :: "page_state \<Rightarrow> page_state" where
  \<comment> \<open>the cleanup on [id]; the record of the system is not among what it resets\<close>
  "page_cleanup p = p\<lparr>pg_details := no_details\<rparr>"

definition open_page :: "sm_state \<Rightarrow> string \<Rightarrow> page_state \<Rightarrow> page_state" where
  \<comment> \<open>the page goes on to another id\<close>
  "open_page sm i p = system_effect sm ((page_cleanup p)\<lparr>pg_id := i\<rparr>)"

definition getOne_response :: "system_record option \<Rightarrow> string \<Rightarrow> page_state \<Rightarrow> page_state" where
  \<comment> \<open>the answer to a request for a record, None when it failed\<close>
  "getOne_response answer i p =
     (let p = p\<lparr>pg_getOne := remove1 i (pg_getOne p)\<rparr>
      in case answer of Some s \<Rightarrow> setSystem s p | None \<Rightarrow> p)"

definition details_response :: "system_details option \<Rightarrow> string \<Rightarrow> page_state \<Rightarrow> page_state" where
  "details_response answer i p =
     (let p = p\<lparr>pg_detail_requests := remove1 i (pg_detail_requests p)\<rparr>
      in case answer of Some d \<Rightarrow> p\<lparr>pg_details := d\<rparr> | None \<Rightarrow> p)"

text \<open>
  The steps of the page, the answers being those of the hub: rec for the record behind an id or a
  name in the URL, det for the details of an id. The stores agree with rec on whose record it is. A
  page that waits goes on to another id only when nothing is in flight.
\<close>

definition stores_agree :: "(string \<Rightarrow> system_record) \<Rightarrow> sm_state \<Rightarrow> bool" where
  "stores_agree rec sm \<longleftrightarrow> (\<forall>i s. find_system sm i = Some s \<longrightarrow> sys_id s = sys_id (rec i))"

definition in_flight :: "page_state \<Rightarrow> bool" where
  "in_flight p \<longleftrightarrow> pg_getOne p \<noteq> [] \<or> pg_detail_requests p \<noteq> []"

inductive page_step ::
  "bool \<Rightarrow> (string \<Rightarrow> system_record) \<Rightarrow> (string \<Rightarrow> system_details) \<Rightarrow> page_state \<Rightarrow> page_state \<Rightarrow> bool"
  for waits rec det where
  open_step: "stores_agree rec sm \<Longrightarrow> waits \<longrightarrow> \<not> in_flight p \<Longrightarrow> page_step waits rec det p (open_page sm i p)"
| systems_step: "stores_agree rec sm \<Longrightarrow> page_step waits rec det p (system_effect sm p)"
| update_step: "pg_system p = Some s \<Longrightarrow> sys_id r = sys_id s \<Longrightarrow> page_step waits rec det p (setSystem r p)"
| record_step: "i \<in> set (pg_getOne p) \<Longrightarrow> a = None \<or> a = Some (rec i)
    \<Longrightarrow> page_step waits rec det p (getOne_response a i p)"
| details_step: "i \<in> set (pg_detail_requests p) \<Longrightarrow> a = None \<or> a = Some (det i)
    \<Longrightarrow> page_step waits rec det p (details_response a i p)"

inductive_cases page_stepE: "page_step waits rec det p p'"

definition own_details :: "(string \<Rightarrow> system_details) \<Rightarrow> page_state \<Rightarrow> bool" where
  "own_details det p \<longleftrightarrow> pg_details p = no_details
     \<or> (case pg_system p of Some s \<Rightarrow> pg_details p = det (sys_id s) | None \<Rightarrow> False)"

definition page_inv :: "(string \<Rightarrow> system_record) \<Rightarrow> (string \<Rightarrow> system_details) \<Rightarrow> page_state \<Rightarrow> bool" where
  \<comment> \<open>own details; requests for the record are for the URL's id; and once details are shown or
      requested the record is the one behind the URL and only its details are requested\<close>
  "page_inv rec det p \<longleftrightarrow> own_details det p \<and> set (pg_getOne p) \<subseteq> {pg_id p}
     \<and> (pg_details p \<noteq> no_details \<or> pg_detail_requests p \<noteq> [] \<longrightarrow>
          map_option sys_id (pg_system p) = Some (sys_id (rec (pg_id p))))
     \<and> set (pg_detail_requests p) \<subseteq> {sys_id (rec (pg_id p))}"

lemma setSystem_inv:
  assumes "page_inv rec det p" and "sys_id s = sys_id (rec (pg_id p))"
  shows "page_inv rec det (setSystem s p)"
  using assms
  by (auto simp: page_inv_def own_details_def setSystem_def details_effect_def split: option.splits)

lemma setSystem_update_inv:
  assumes "page_inv rec det p" and "pg_system p = Some s" and "sys_id r = sys_id s"
  shows "page_inv rec det (setSystem r p)"
  using assms by (auto simp: page_inv_def own_details_def setSystem_def details_effect_def)

lemma system_effect_inv:
  assumes "page_inv rec det p" and "stores_agree rec sm"
  shows "page_inv rec det (system_effect sm p)"
proof (cases "systems_list sm \<noteq> [] \<and> find_system sm (pg_id p) \<noteq> None")
  case True
  then show ?thesis
    using assms setSystem_inv [OF assms(1)] by (auto simp: system_effect_def stores_agree_def)
next
  case False
  then have "system_effect sm p = p\<lparr>pg_getOne := pg_getOne p @ [pg_id p]\<rparr>"
    by (auto simp: system_effect_def Let_def)
  then show ?thesis using assms(1) by (auto simp: page_inv_def own_details_def split: option.splits)
qed

lemma open_page_inv:
  assumes "\<not> in_flight p" and "stores_agree rec sm"
  shows "page_inv rec det (open_page sm i p)"
  unfolding open_page_def
  using assms by (intro system_effect_inv) (auto simp: page_inv_def own_details_def page_cleanup_def in_flight_def)

lemma getOne_response_inv:
  assumes "page_inv rec det p" and "i \<in> set (pg_getOne p)" and "a = None \<or> a = Some (rec i)"
  shows "page_inv rec det (getOne_response a i p)"
proof -
  let ?p = "p\<lparr>pg_getOne := remove1 i (pg_getOne p)\<rparr>"
  have "i = pg_id p" using assms by (auto simp: page_inv_def)
  moreover have "page_inv rec det ?p"
    using assms(1) by (auto simp: page_inv_def own_details_def dest: set_remove1_subset [THEN subsetD])
  ultimately show ?thesis using assms(3) setSystem_inv [of rec det ?p "rec i"] by (auto simp: getOne_response_def Let_def)
qed

lemma details_response_inv:
  assumes "page_inv rec det p" and "i \<in> set (pg_detail_requests p)" and "a = None \<or> a = Some (det i)"
  shows "page_inv rec det (details_response a i p)"
proof -
  have "pg_detail_requests p \<noteq> []" and "i = sys_id (rec (pg_id p))" using assms by (auto simp: page_inv_def)
  moreover have "set (remove1 i (pg_detail_requests p)) \<subseteq> {sys_id (rec (pg_id p))}"
    using assms(1) set_remove1_subset [of i "pg_detail_requests p"] by (simp add: page_inv_def) blast
  ultimately show ?thesis using assms(1, 3)
    by (auto simp: page_inv_def own_details_def details_response_def Let_def split: option.splits)
qed

lemma page_step_inv:
  assumes "page_step True rec det p p'" and "page_inv rec det p"
  shows "page_inv rec det p'"
  using assms
  by (cases rule: page_step.cases)
    (auto intro: open_page_inv system_effect_inv setSystem_update_inv getOne_response_inv details_response_inv)



definition sample_stores :: sm_state where
  \<comment> \<open>the stores with one system, for examples\<close>
  "sample_stores = sm_initial\<lparr>allSystemsById := [(''b'', sample_system ''b'' ''db'' Up)]\<rparr>"

text \<open>
  Nothing makes the page wait: details that were requested for the system before and arrive late
  are shown for the one that is open. And details are lost when the page goes from a system's name
  to its id: the cleanup follows the URL, the request the system's id, which stays.
\<close>
theorem late_details_replace_own:
  assumes "pg_system p = Some s" and "find_system sm i = Some s'" and "systems_list sm \<noteq> []"
  shows "pg_details (details_response (Some d) (sys_id s) (details_response own (sys_id s') (open_page sm i p))) = d
     \<and> pg_system (details_response (Some d) (sys_id s) (details_response own (sys_id s') (open_page sm i p))) = Some s'
     \<and> (sys_id s' = sys_id s \<longrightarrow> pg_details (open_page sm i p) = no_details
          \<and> pg_detail_requests (open_page sm i p) = pg_detail_requests p)"
  using assms
  by (auto simp: open_page_def system_effect_def setSystem_def details_effect_def page_cleanup_def details_response_def
      Let_def split: option.splits)

theorem late_details_replace_own_witness:
  "pg_details (details_response (Some (no_details\<lparr>det_hostname := Some ''a''\<rparr>)) ''a''
     (details_response (Some (no_details\<lparr>det_hostname := Some ''b''\<rparr>)) ''b''
       (open_page sample_stores ''b'' ((page_initial ''a'')\<lparr>pg_system := Some (sample_system ''a'' ''web'' Up)\<rparr>))))
   = no_details\<lparr>det_hostname := Some ''a''\<rparr>"
  using late_details_replace_own [of "(page_initial ''a'')\<lparr>pg_system := Some (sample_system ''a'' ''web'' Up)\<rparr>"
      "sample_system ''a'' ''web'' Up" sample_stores "''b''" "sample_system ''b'' ''db'' Up"
      "no_details\<lparr>det_hostname := Some ''a''\<rparr>" "Some (no_details\<lparr>det_hostname := Some ''b''\<rparr>)"]
  by (simp add: find_system_def sample_stores_def systems_list_def obj_values_def obj_entries_def is_array_index_def
      sample_system_def)

subsection \<open>Tabs: use-system-data.ts\<close>

record tab_state =
  activeTab :: string
  mountedTabs :: "string list"

definition tabs_initial :: tab_state where
  "tabs_initial = \<lparr>activeTab = ''core'', mountedTabs = [''core'']\<rparr>"

definition setActiveTab :: "string \<Rightarrow> tab_state \<Rightarrow> tab_state" where
  "setActiveTab tab s =
     \<lparr>activeTab = tab, mountedTabs = (if tab \<in> set (mountedTabs s) then mountedTabs s else mountedTabs s @ [tab])\<rparr>"

definition tabs_after_key :: "key_result \<Rightarrow> tab_state \<Rightarrow> tab_state" where
  \<comment> \<open>what handleKeyUp does to the tabs\<close>
  "tabs_after_key k s = (case k of
       Show_tab (Some t) \<Rightarrow> setActiveTab t s
     | Show_tab None \<Rightarrow> s
     | Go_system i \<Rightarrow> tabs_initial
     | Key_ignored \<Rightarrow> s)"

definition page_tabs :: "bool \<Rightarrow> bool \<Rightarrow> string list" where
  "page_tabs hasGpu hasContainers =
     [''core'', ''disk''] @ (if hasGpu then [''gpu''] else []) @ (if hasContainers then [''containers''] else [])"

definition tab_ok :: "tab_state \<Rightarrow> bool" where
  "tab_ok s \<longleftrightarrow> activeTab s \<in> set (mountedTabs s) \<and> ''core'' \<in> set (mountedTabs s) \<and> distinct (mountedTabs s)"

lemma setActiveTab_ok: "tab_ok s \<Longrightarrow> tab_ok (setActiveTab t s)"
  by (auto simp: tab_ok_def setActiveTab_def)

lemma tabs_after_key_ok: "tab_ok s \<Longrightarrow> tab_ok (tabs_after_key k s)"
  by (auto simp: tabs_after_key_def tabs_initial_def tab_ok_def setActiveTab_def split: key_result.splits option.splits)

subsection \<open>Layouts: routes/system.tsx\<close>

text \<open>
  What a layout renders, in order: cards, the container network card with its tooltip text, the
  engines chart, the cards of a GPU, and the containers table of a system.
\<close>

datatype page_item =
    Stats_item "stats_record card"
  | Container_item "container_point card"
  | Network_item "container_point card \<times> (container_point \<Rightarrow> string \<Rightarrow> string \<times> string)"
  | Engines_item "stats_record chart option"
  | Gpu_item string "stats_record card list"
  | Table_item string

type_synonym rendered = "js_error + page_item list"

fun render_all :: "rendered list \<Rightarrow> rendered" where
  \<comment> \<open>a component that throws takes the whole page with it\<close>
  "render_all [] = Inr []"
| "render_all (Inl e # xs) = Inl e"
| "render_all (Inr items # xs) = map_sum id ((@) items) (render_all xs)"

definition shown_card :: "stats_record card option \<Rightarrow> page_item list" where
  "shown_card c = (case c of Some x \<Rightarrow> [Stats_item x] | None \<Rightarrow> [])"

definition stats_piece :: "js_error + stats_record card \<Rightarrow> rendered" where
  "stats_piece = map_sum id (\<lambda>c. [Stats_item c])"

definition RootDiskCharts :: "num_text \<Rightarrow> dec_text \<Rightarrow> chart_args \<Rightarrow> rendered" where
  "RootDiskCharts num_text dec a =
     render_all [stats_piece (DiskUsageChart num_text dec a ''''), Inr (shown_card (DiskIOChart num_text dec a ''''))]"

definition extra_fs_piece :: "num_text \<Rightarrow> dec_text \<Rightarrow> chart_args \<Rightarrow> rendered" where
  "extra_fs_piece num_text dec a = (case ExtraFsCharts num_text dec a of
       Inl e \<Rightarrow> Inl e
     | Inr rows \<Rightarrow> render_all (concat (map (\<lambda>(n, usage, io). [stats_piece usage, Inr (shown_card io)]) rows)))"

text \<open>The props of the page: the chart arguments, the container configurations and the system's id.\<close>

record page_args =
  pa_chart :: chart_args
  pa_cpu :: "(string \<times> hsl) list"
  pa_memory :: "(string \<times> hsl) list"
  pa_network :: "(string \<times> hsl) list"
  pa_systemId :: string

definition hasContainers :: "page_args \<Rightarrow> bool" where
  "hasContainers p \<longleftrightarrow> ca_containers (pa_chart p) \<noteq> []"

definition hasContainersTable :: "page_args \<Rightarrow> bool" where
  "hasContainersTable p \<longleftrightarrow> hasContainers p
     \<and> (case compareSemVer (ca_agentVersion (pa_chart p)) (parseSemVer ''0.14.0'') of Some d \<Rightarrow> d \<ge> 0 | None \<Rightarrow> False)"

definition hasGpuData :: "page_args \<Rightarrow> bool" where
  "hasGpuData p = fst (gpu_flags (ca_stats (pa_chart p)))"

definition hasGpuPowerData :: "page_args \<Rightarrow> bool" where
  "hasGpuPowerData p = snd (snd (gpu_flags (ca_stats (pa_chart p))))"

definition hasGpu :: "page_args \<Rightarrow> bool" where
  "hasGpu p \<longleftrightarrow> hasGpuData p \<or> hasGpuPowerData p"

definition gpu_piece :: "num_text \<Rightarrow> dec_text \<Rightarrow> page_args \<Rightarrow> rendered" where
  \<comment> \<open>hasGpuData && lastGpus && GpuDetailCharts\<close>
  "gpu_piece num_text dec p = Inr (case lastGpus (ca_stats (pa_chart p)) of
       None \<Rightarrow> []
     | Some gpus \<Rightarrow>
         if \<not> hasGpuData p then []
         else (case GpuDetailCharts num_text dec (pa_chart p) gpus (fst (snd (gpu_flags (ca_stats (pa_chart p))))) of
             (engines, cards) \<Rightarrow> (case engines of Some e \<Rightarrow> [Engines_item e] | None \<Rightarrow> [])
                @ map (\<lambda>(n, cs). Gpu_item n cs) cards))"

definition when_piece :: "bool \<Rightarrow> page_item list \<Rightarrow> rendered" where
  "when_piece b items = Inr (if b then items else [])"

definition defaultLayout ::
  "(rat \<Rightarrow> stats_record data_point list \<Rightarrow> stats_record data_point list) \<Rightarrow> num_text \<Rightarrow> dec_text \<Rightarrow> page_args \<Rightarrow> rendered" where
  "defaultLayout constSort num_text dec p =
     (let a = pa_chart p in render_all
        [Inr [Stats_item (CpuChart num_text dec a)],
         when_piece (hasContainers p) [Container_item (ContainerCpuChart num_text dec a (pa_cpu p))],
         stats_piece (MemoryChart num_text dec a),
         when_piece (hasContainers p) [Container_item (ContainerMemoryChart num_text dec a (pa_memory p))],
         RootDiskCharts num_text dec a,
         stats_piece (BandwidthChart constSort num_text dec a),
         when_piece (hasContainers p) [Network_item (ContainerNetworkChart num_text dec a (pa_network p))],
         map_sum id shown_card (SwapChart num_text dec a),
         Inr (shown_card (LoadAverageChart num_text dec a)),
         when_piece (hasGpuPowerData p) [Stats_item (GpuPowerChart num_text dec a)],
         gpu_piece num_text dec p,
         extra_fs_piece num_text dec a,
         when_piece (hasContainersTable p) [Table_item (pa_systemId p)]])"

definition tab_panels ::
  "(rat \<Rightarrow> stats_record data_point list \<Rightarrow> stats_record data_point list) \<Rightarrow> num_text \<Rightarrow> dec_text
     \<Rightarrow> string list \<Rightarrow> page_args \<Rightarrow> (string \<times> rendered) list" where
  \<comment> \<open>the panels of tabbedLayout; all of them are mounted, the disk and container charts once visited\<close>
  "tab_panels constSort num_text dec mounted p =
     (let a = pa_chart p in
        [(''core'', render_all
           [Inr [Stats_item (CpuChart num_text dec a)],
            stats_piece (MemoryChart num_text dec a),
            Inr (shown_card (LoadAverageChart num_text dec a)),
            stats_piece (BandwidthChart constSort num_text dec a),
            map_sum id shown_card (SwapChart num_text dec a)]),
         (''disk'', if ''disk'' \<in> set mounted
           then render_all [RootDiskCharts num_text dec a, extra_fs_piece num_text dec a] else Inr [])]
        @ (if hasGpu p then
             [(''gpu'', render_all
                [when_piece (hasGpuPowerData p) [Stats_item (GpuPowerChart num_text dec a)], gpu_piece num_text dec p])]
           else [])
        @ (if hasContainers p then
             [(''containers'', if ''containers'' \<in> set mounted
                then render_all
                  [Inr [Container_item (ContainerCpuChart num_text dec a (pa_cpu p)),
                        Container_item (ContainerMemoryChart num_text dec a (pa_memory p)),
                        Network_item (ContainerNetworkChart num_text dec a (pa_network p))],
                   when_piece (hasContainersTable p) [Table_item (pa_systemId p)]]
                else Inr [])]
           else []))"

definition tabbedLayout ::
  "(rat \<Rightarrow> stats_record data_point list \<Rightarrow> stats_record data_point list) \<Rightarrow> num_text \<Rightarrow> dec_text
     \<Rightarrow> string list \<Rightarrow> page_args \<Rightarrow> rendered" where
  "tabbedLayout constSort num_text dec mounted p =
     render_all (map snd (tab_panels constSort num_text dec mounted p))"

definition visible_panel ::
  "(rat \<Rightarrow> stats_record data_point list \<Rightarrow> stats_record data_point list) \<Rightarrow> num_text \<Rightarrow> dec_text
     \<Rightarrow> tab_state \<Rightarrow> page_args \<Rightarrow> rendered option" where
  \<comment> \<open>the panel whose class is contents, not hidden\<close>
  "visible_panel constSort num_text dec s p =
     map_of (tab_panels constSort num_text dec (mountedTabs s) p) (activeTab s)"

text \<open>Rendering only collects: it throws when some part does, and else shows all items of all parts.\<close>

definition outcome :: "rendered \<Rightarrow> page_item multiset option" where
  "outcome r = (case r of Inl e \<Rightarrow> None | Inr items \<Rightarrow> Some (mset items))"

fun add_outcomes :: "page_item multiset option \<Rightarrow> page_item multiset option \<Rightarrow> page_item multiset option" where
  "add_outcomes None y = None"
| "add_outcomes (Some a) None = None"
| "add_outcomes (Some a) (Some b) = Some (a + b)"

lemma add_outcomes_assoc: "add_outcomes (add_outcomes x y) z = add_outcomes x (add_outcomes y z)"
  by (cases x; cases y; cases z) (simp_all add: ac_simps)

lemma add_outcomes_commute: "add_outcomes x y = add_outcomes y x"
  by (cases x; cases y) (simp_all add: ac_simps)

lemma add_outcomes_unit [simp]: "add_outcomes (Some {#}) x = x" "add_outcomes x (Some {#}) = x"
  by (cases x; simp)+

interpretation outcomes: comm_monoid_mult add_outcomes "Some {#}"
  by unfold_locales (rule add_outcomes_assoc add_outcomes_commute | simp)+

lemma outcome_prepend: "outcome (map_sum id ((@) items) r) = add_outcomes (Some (mset items)) (outcome r)"
  by (cases r) (simp_all add: outcome_def)

lemma outcome_render_all: "outcome (render_all xs) = foldr (\<lambda>x. add_outcomes (outcome x)) xs (Some {#})"
proof (induction xs rule: render_all.induct)
  case (3 items xs)
  moreover have "outcome (Inr items) = Some (mset items)" by (simp add: outcome_def)
  ultimately show ?case by (simp add: outcome_prepend)
qed (simp_all add: outcome_def)

lemma outcome_Nil [simp]: "outcome (Inr []) = Some {#}"
  by (simp add: outcome_def)

lemma outcome_append: "outcome (Inr (xs @ ys)) = add_outcomes (outcome (Inr xs)) (outcome (Inr ys))"
  by (simp add: outcome_def)

lemma outcome_when: "outcome (when_piece b items) = (if b then outcome (Inr items) else Some {#})"
  by (simp add: when_piece_def)

lemma no_gpu_no_pieces:
  assumes "\<not> hasGpu p" shows "gpu_piece num_text dec p = Inr []" and "\<not> hasGpuPowerData p"
  using assms by (auto simp: gpu_piece_def hasGpu_def split: option.splits)

lemma no_containers_no_table: "\<not> hasContainers p \<Longrightarrow> \<not> hasContainersTable p"
  by (simp add: hasContainersTable_def)


definition sample_page :: page_args where
  "sample_page = \<lparr>pa_chart = (example_chart [])\<lparr>ca_containers := [\<lparr>cp_created = Created_ms 1, cp_stats = []\<rparr>]\<rparr>,
     pa_cpu = [], pa_memory = [], pa_network = [], pa_systemId = ''a''\<rparr>"


lemma visible_panel_iff:
  "visible_panel cs nt dec s p \<noteq> None \<longleftrightarrow> activeTab s \<in> set (page_tabs (hasGpu p) (hasContainers p))"
  by (simp add: visible_panel_def tab_panels_def page_tabs_def Let_def)

text \<open>
  The visible tab is always complete: whatever tabs are opened and keys pressed, the panel on screen
  is the one a page with every tab mounted would show; and nothing is on screen exactly when the
  active tab is no longer among the page's tabs, as when a system stops sending GPU data.
\<close>
theorem active_tab_complete:
  "let s = fold tabs_after_key ks (setActiveTab t tabs_initial) in
     visible_panel cs nt dec s p = map_of (tab_panels cs nt dec [''core'', ''disk'', ''containers''] p) (activeTab s)
     \<and> (visible_panel cs nt dec s p = None \<longleftrightarrow> activeTab s \<notin> set (page_tabs (hasGpu p) (hasContainers p)))"
proof -
  define s where "s = fold tabs_after_key ks (setActiveTab t tabs_initial)"
  have "tab_ok s' \<Longrightarrow> tab_ok (fold tabs_after_key ks s')" for s'
    by (induction ks arbitrary: s') (simp_all add: tabs_after_key_ok)
  moreover have "tab_ok (setActiveTab t tabs_initial)"
    by (rule setActiveTab_ok) (simp add: tab_ok_def tabs_initial_def)
  ultimately have "tab_ok s" by (simp add: s_def)
  then have "visible_panel cs nt dec s p = map_of (tab_panels cs nt dec [''core'', ''disk'', ''containers''] p) (activeTab s)"
    by (auto simp: tab_ok_def visible_panel_def tab_panels_def Let_def)
  moreover have "visible_panel cs nt dec s p = None \<longleftrightarrow> activeTab s \<notin> set (page_tabs (hasGpu p) (hasContainers p))"
    using visible_panel_iff by blast
  ultimately show ?thesis unfolding Let_def s_def [symmetric] by blast
qed

subsection \<open>The info bar's facts: system/info-bar.tsx\<close>

datatype info_icon = Globe | Monitor | Clock | Tux | Apple | Windows_logo | FreeBsd | Cpu | MemoryStick

record info_item =
  in_value :: "string option"
  in_icon :: info_icon
  in_label :: "string option"
  in_hide :: bool

definition plain_text :: "string option \<Rightarrow> string" where
  \<comment> \<open>String of a value that may be undefined\<close>
  "plain_text x = orelse x ''undefined''"

definition plural_count :: "int option \<Rightarrow> string \<Rightarrow> string \<Rightarrow> string" where
  \<comment> \<open>plural of a number that may be undefined\<close>
  "plural_count n one other = (case n of Some k \<Rightarrow> plural k one other
     | None \<Rightarrow> replace_first ''#'' ''undefined'' other)"

definition os_item :: "os_kind \<Rightarrow> string option \<Rightarrow> string option \<Rightarrow> info_item" where
  \<comment> \<open>osInfo[os]\<close>
  "os_item os osName kern =
     (let named = str_truthy osName;
          value = (if named then osName else kern);
          label = (if named then kern else None)
      in case os of
        Linux \<Rightarrow> \<lparr>in_value = value, in_icon = Tux, in_label = label, in_hide = False\<rparr>
      | Darwin \<Rightarrow> \<lparr>in_value = (if named then osName else Some (''macOS '' @ plain_text kern)),
                   in_icon = Apple, in_label = None, in_hide = False\<rparr>
      | Windows \<Rightarrow> \<lparr>in_value = value, in_icon = Windows_logo, in_label = label, in_hide = False\<rparr>
      | FreeBSD \<Rightarrow> \<lparr>in_value = value, in_icon = FreeBsd, in_label = label, in_hide = False\<rparr>)"

definition cores_label :: "int option \<Rightarrow> int option \<Rightarrow> string option \<Rightarrow> string" where
  "cores_label cores threads arch =
     plural_count cores ''# core'' ''# cores'' @ '' / '' @ plural_count threads ''# thread'' ''# threads''
     @ (if str_truthy arch then '' / '' @ the arch else '''')"

definition memory_text :: "(rat \<Rightarrow> string) \<Rightarrow> rat \<Rightarrow> string" where
  "memory_text num_str memory =
     byte_text (\<lambda>v. num_str (toFixedFloat v (if v \<ge> 10 then 1 else 2))) (formatBytes memory False Bytes False)"

definition first_of :: "'a option \<Rightarrow> 'a option \<Rightarrow> 'a option" where
  \<comment> \<open>x ?? y\<close>
  "first_of x y = (if x = None then y else x)"

definition systemInfo :: "(int \<Rightarrow> string) \<Rightarrow> (rat \<Rightarrow> string) \<Rightarrow> system_record \<Rightarrow> system_details \<Rightarrow> info_item list" where
  "systemInfo toLocale num_str system details =
     (let info = sys_info system;
          hostname = orelse (det_hostname details) (si_h info);
          kern = first_of (det_kernel details) (si_k info);
          cores = first_of (det_cores details) (si_c info);
          threads = orelse (det_threads details) (orelse (si_t info) 0);
          cpuModel = first_of (det_cpu details) (si_m info);
          os = orelse (first_of (det_os details) (si_os info)) Linux
      in [\<lparr>in_value = Some (getHostDisplayValue system), in_icon = Globe, in_label = None, in_hide = False\<rparr>,
          \<lparr>in_value = Some hostname, in_icon = Monitor, in_label = Some ''Hostname'', in_hide = hostname = sys_name system\<rparr>,
          \<lparr>in_value = Some (secondsToUptimeString toLocale (si_u info)), in_icon = Clock, in_label = Some ''Uptime'',
           in_hide = si_u info = 0\<rparr>,
          os_item os (det_os_name details) kern,
          \<lparr>in_value = cpuModel, in_icon = Cpu, in_label = Some (cores_label cores (Some threads) (det_arch details)),
           in_hide = \<not> str_truthy cpuModel\<rparr>]
         @ (if num_truthy (det_memory details)
            then [\<lparr>in_value = Some (memory_text num_str (the (det_memory details))), in_icon = MemoryStick,
                   in_label = Some ''Memory'', in_hide = False\<rparr>]
            else []))"

definition shown_info :: "info_item list \<Rightarrow> (info_icon \<times> string \<times> string option) list" where
  \<comment> \<open>an item is shown unless hidden or without a value; its label only when truthy\<close>
  "shown_info items = map (\<lambda>i. (in_icon i, the (in_value i), if str_truthy (in_label i) then in_label i else None))
     (filter (\<lambda>i. \<not> in_hide i \<and> str_truthy (in_value i)) items)"

lemma shown_info_values: "(icon, v, label) \<in> set (shown_info items) \<Longrightarrow> v \<noteq> '''' \<and> label \<noteq> Some ''''"
  by (auto simp: shown_info_def str_truthy_iff split: if_splits)

text \<open>
  The fetched details take precedence: once they are complete, the facts on screen depend on the
  record's own info by its uptime only; and without details the operating system is the record's,
  Linux if it has none, and no memory is shown.
\<close>

lemma details_take_precedence:
  assumes "det_hostname d \<noteq> None" "det_kernel d \<noteq> None" "det_cores d \<noteq> None" "det_threads d \<noteq> None"
    and "det_cpu d \<noteq> None" "det_os d \<noteq> None" and "si_u info = si_u (sys_info s)"
  shows "systemInfo loc ns (s\<lparr>sys_info := info\<rparr>) d = systemInfo loc ns s d"
  using assms unfolding not_None_eq
  by (elim exE) (simp add: systemInfo_def first_of_def getHostDisplayValue_def Let_def)

lemma info_without_details:
  "map in_icon (systemInfo loc ns s no_details) = [Globe, Monitor, Clock,
     case orelse (si_os (sys_info s)) Linux of Linux \<Rightarrow> Tux | Darwin \<Rightarrow> Apple | Windows \<Rightarrow> Windows_logo | FreeBSD \<Rightarrow> FreeBsd, Cpu]"
  by (simp add: systemInfo_def no_details_def first_of_def os_item_def num_truthy_def Let_def split: os_kind.splits)

text \<open>The dot and the text of the status, and the tooltip with the connection.\<close>

datatype status_dot = Green_pinging | Red_dot | Faint_dot | Yellow_dot

definition status_display :: "system_status \<Rightarrow> status_dot \<times> string" where
  \<comment> \<open>the text is capitalized by the style sheet\<close>
  "status_display st = (case st of
       Up \<Rightarrow> (Green_pinging, ''Up'')
     | Down \<Rightarrow> (Red_dot, ''Down'')
     | Paused \<Rightarrow> (Faint_dot, status_str Paused)
     | Pending \<Rightarrow> (Yellow_dot, status_str Pending))"

definition connection_tooltip :: "system_info \<Rightarrow> string option" where
  "connection_tooltip info = map_option (\<lambda>ct. connection_type_labels ! connection_num ct) (si_ct info)"

lemma connection_tooltips: "connection_tooltip info \<in> {None, Some ''SSH'', Some ''WebSocket''}"
  by (cases "si_ct info"; cases "the (si_ct info)") (auto simp: connection_tooltip_def connection_type_labels_def)

lemma status_display_inj: "status_display a = status_display b \<Longrightarrow> a = b"
  by (cases a; cases b) (simp_all add: status_display_def)

subsection \<open>Temporary SSH access\<close>

datatype http_method = GET_request | POST_request | DELETE_request

text \<open>The dialog's state, and what the hub answers: a launch with its token and expiry, or an error.\<close>

record ssh_state =
  sshCommand :: string
  sshPrompt :: string
  sshExpiresAt :: "string option"
  sshLoading :: bool

definition ssh_initial :: ssh_state where
  "ssh_initial = \<lparr>sshCommand = '''', sshPrompt = '''', sshExpiresAt = None, sshLoading = False\<rparr>"

definition launch_url :: "string \<Rightarrow> string \<Rightarrow> string \<Rightarrow> string" where
  "launch_url origin BASE_PATH token = origin @ BASE_PATH @ ''api/picket/ssh-launch/'' @ token"

definition quote_char :: char where "quote_char = CHR 0x27"

lemma s_not_quote [simp]: "quote_char \<noteq> CHR ''s''" "CHR ''s'' \<noteq> quote_char"
  by (simp_all add: quote_char_def)

definition launch_command :: "string \<Rightarrow> string" where
  "launch_command launchURL = ''curl -fsSL '' @ [quote_char] @ launchURL @ [quote_char] @ '' | sh''"

definition launch_prompt :: "(string \<Rightarrow> string) \<Rightarrow> string \<Rightarrow> string \<Rightarrow> string \<Rightarrow> string" where
  "launch_prompt localeString name expiresAt command =
     ''Use this temporary Picket SSH access command to connect to '' @ name
     @ ''. Run it in a trusted terminal, then use the resulting SSH session to inspect or operate the host. Access expires at ''
     @ localeString expiresAt @ ''.'' @ [nl_char, nl_char] @ command"

definition createSSHLaunch ::
  "(string \<Rightarrow> string) \<Rightarrow> string \<Rightarrow> string \<Rightarrow> system_record \<Rightarrow> (string \<times> string) option \<Rightarrow> ssh_state
     \<Rightarrow> (http_method \<times> string) \<times> ssh_state" where
  \<comment> \<open>the request sent, and the state after the answer (token, expiresAt), None for any failure\<close>
  "createSSHLaunch localeString origin BASE_PATH system answer s =
     ((POST_request, ''/api/picket/systems/'' @ sys_id system @ ''/ssh-launch''),
      case answer of
        None \<Rightarrow> s\<lparr>sshLoading := False\<rparr>
      | Some (token, expiresAt) \<Rightarrow>
          (let command = launch_command (launch_url origin BASE_PATH token)
           in \<lparr>sshCommand = command, sshPrompt = launch_prompt localeString (sys_name system) expiresAt command,
               sshExpiresAt = Some expiresAt, sshLoading = False\<rparr>))"

fun find_token :: "string \<Rightarrow> string option" where
  \<comment> \<open>match(/ssh-launch\/([^']+)/)?.[1]: the first place where the text is followed by a character other
      than a quote, and all characters up to the next quote\<close>
  "find_token [] = None"
| "find_token (c # cs) =
     (if prefix ''ssh-launch/'' (c # cs) \<and> takeWhile (\<lambda>x. x \<noteq> quote_char) (drop 11 (c # cs)) \<noteq> []
      then Some (takeWhile (\<lambda>x. x \<noteq> quote_char) (drop 11 (c # cs))) else find_token cs)"

definition revokeSSHLaunch :: "string \<Rightarrow> bool \<Rightarrow> ssh_state \<Rightarrow> (http_method \<times> string) list \<times> ssh_state" where
  \<comment> \<open>answered: the fetch got an answer of any status; when it did not, it throws\<close>
  "revokeSSHLaunch BASE_PATH answered s =
     (if sshCommand s = '''' then ([], s)
      else (case find_token (sshCommand s) of
          None \<Rightarrow> ([], s\<lparr>sshCommand := '''', sshPrompt := '''', sshExpiresAt := None\<rparr>)
        | Some token \<Rightarrow>
            ([(DELETE_request, BASE_PATH @ ''api/picket/ssh-launch/'' @ token)],
             if answered then s\<lparr>sshCommand := '''', sshPrompt := '''', sshExpiresAt := None\<rparr> else s)))"

text \<open>The text looked for ends in its only slash, so it cannot begin before itself.\<close>

lemma pattern_not_straddling:
  assumes "prefix ''ssh-launch/'' (ys @ ''ssh-launch/'' @ rest)" and "ys \<noteq> []"
  shows "prefix ''ssh-launch/'' ys"
proof (cases "11 \<le> length ys")
  case True
  then show ?thesis using assms(1) prefix_length_prefix [of "''ssh-launch/''" "ys @ ''ssh-launch/'' @ rest" ys] by simp
next
  case False
  let ?p = "''ssh-launch/''"
  obtain zs where zs: "ys @ ?p @ rest = ?p @ zs" using assms(1) by (auto simp: prefix_def)
  have "(ys @ ?p @ rest) ! 10 = (?p @ zs) ! 10" by (simp only: zs)
  moreover have "(?p @ zs) ! 10 = CHR ''/''" by simp
  moreover have "(ys @ ?p @ rest) ! 10 = ?p ! (10 - length ys)"
    using False assms(2) by (simp only: nth_append) auto
  moreover have "10 - length ys < 10" using assms(2) by (cases ys) auto
  then have "?p ! (10 - length ys) \<in> set ''ssh-launch''"
    using nth_mem [of "10 - length ys" "''ssh-launch''"] nth_append [of "''ssh-launch''" "''/''" "10 - length ys"] by simp
  ultimately show ?thesis by auto
qed

lemma find_token_skip:
  "\<not> str_includes ys ''ssh-launch/'' \<Longrightarrow> find_token (ys @ ''ssh-launch/'' @ rest) = find_token (''ssh-launch/'' @ rest)"
proof (induction ys)
  case (Cons y ys)
  then have "\<not> prefix ''ssh-launch/'' (y # ys)" and "\<not> str_includes ys ''ssh-launch/''"
    by (auto simp: str_includes_def sublist_Cons_right)
  then have "\<not> prefix ''ssh-launch/'' ((y # ys) @ ''ssh-launch/'' @ rest)"
    using pattern_not_straddling [of "y # ys" rest] by blast
  then have "find_token ((y # ys) @ ''ssh-launch/'' @ rest) = find_token (ys @ ''ssh-launch/'' @ rest)"
    by (simp only: append_Cons find_token.simps) simp
  then show ?case using Cons.IH \<open>\<not> str_includes ys ''ssh-launch/''\<close> by simp
qed simp

lemma find_token_found:
  assumes "token \<noteq> ''''" and "quote_char \<notin> set token"
  shows "find_token (''ssh-launch/'' @ token @ quote_char # rest) = Some token"
proof -
  have "takeWhile (\<lambda>x. x \<noteq> quote_char) (token @ quote_char # rest) = token"
    by (subst takeWhile_append2) (use assms(2) in auto)
  then show ?thesis using assms(1) by simp
qed

text \<open>
  Closing the access revokes the launch that was created: if the hub's token is not empty and has no
  quote, and neither the origin nor the base path contains the text before the token, the token
  is recovered from the command and a deletion of exactly that launch is sent under the base path.
  Any answer, of whatever status, then clears the dialog; a request without an answer leaves it as it was.
\<close>
theorem ssh_revoke_roundtrip:
  assumes "token \<noteq> ''''" and "quote_char \<notin> set token"
    and "\<not> str_includes (origin @ BASE_PATH @ ''api/picket/'') ''ssh-launch/''"
  shows "revokeSSHLaunch BASE_PATH answered (snd (createSSHLaunch ls origin BASE_PATH system (Some (token, e)) s))
     = ([(DELETE_request, BASE_PATH @ ''api/picket/ssh-launch/'' @ token)],
        if answered then ssh_initial else snd (createSSHLaunch ls origin BASE_PATH system (Some (token, e)) s))"
proof -
  have "find_token (origin @ BASE_PATH @ ''api/picket/'' @ ''ssh-launch/'' @ token @ quote_char # '' | sh'') = Some token"
    using find_token_skip [OF assms(3)] find_token_found [OF assms(1, 2)] by simp
  moreover have "find_token (''curl -fsSL '' @ quote_char # xs) = find_token xs" for xs
    by (simp add: quote_char_def)
  ultimately have "find_token (launch_command (launch_url origin BASE_PATH token)) = Some token"
    by (simp add: launch_command_def launch_url_def)
  moreover have "launch_command (launch_url origin BASE_PATH token) \<noteq> ''''" by (simp add: launch_command_def)
  ultimately show ?thesis
    by (simp add: revokeSSHLaunch_def createSSHLaunch_def ssh_initial_def Let_def)
qed

theorem ssh_revoke_roundtrip_witness:
  "fst (revokeSSHLaunch ''/picket/'' True (snd (createSSHLaunch (\<lambda>d. d) ''https://hub.example'' ''/picket/''
     (sample_system ''a'' ''web'' Up) (Some (''t0k'', ''2030-01-01'')) ssh_initial)))
   = [(DELETE_request, ''/picket/api/picket/ssh-launch/t0k'')]"
proof -
  have "\<not> str_includes (''https://hub.example'' @ ''/picket/'' @ ''api/picket/'') ''ssh-launch/''"
    by (simp add: str_includes_def sublist_Cons_right)
  then show ?thesis
    using ssh_revoke_roundtrip [of "''t0k''" "''https://hub.example''" "''/picket/''" True "\<lambda>d. d"
        "sample_system ''a'' ''web'' Up" "''2030-01-01''" ssh_initial]
    by (simp add: quote_char_def)
qed

end
