(* ===== verification/Agent_Dialogs.thy ===== *)
theory Agent_Dialogs
  imports System_Page
begin

section \<open>Dialogs and pages around the agents\<close>

text \<open>
  The deletion and install dialogs of the info bar (system/info-bar.tsx), what its state does when
  the page goes on to another system, the dialog that adds or renames a system (add-system.tsx), the
  command palette (command-palette.tsx), the fallback of the clipboard (copy-to-clipboard.tsx)
  and the titles of the pages. The hub's answers are arguments. The lemmas state what each outcome
  leaves behind and which calls are made.
\<close>

text \<open>Calls of the hub: by fetch, or by the PocketBase client on a collection.\<close>

datatype hub_call =
    Fetch http_method string
  | Pb_delete string string
  | Pb_update string string string
  | Pb_send http_method string string

subsection \<open>The info bar across systems\<close>

definition info_bar_mounted :: "page_state \<Rightarrow> bool" where
  \<comment> \<open>SystemDetail renders the info bar as soon as it has a system with an id\<close>
  "info_bar_mounted p = (case pg_system p of Some s \<Rightarrow> sys_id s \<noteq> '''' | None \<Rightarrow> False)"

definition ssh_after_render :: "page_state \<Rightarrow> ssh_state \<Rightarrow> ssh_state" where
  \<comment> \<open>the component's state is kept while it stays mounted\<close>
  "ssh_after_render p s = (if info_bar_mounted p then s else ssh_initial)"

text \<open>
  Temporary access outlives its system: the page going on to another system keeps the info bar
  mounted, so the command created for the first is offered on the page of the second; and
  closing the access there still revokes the first one's.
\<close>
theorem ssh_command_outlives_selection:
  assumes "info_bar_mounted p" and "find_system sm i = Some other" and "systems_list sm \<noteq> []" and "sys_id other \<noteq> ''''"
  shows "pg_system (open_page sm i p) = Some other
     \<and> ssh_after_render (open_page sm i p) (snd (createSSHLaunch ls origin base system answer s))
       = snd (createSSHLaunch ls origin base system answer s)"
  using assms
  by (auto simp: ssh_after_render_def info_bar_mounted_def open_page_def page_cleanup_def system_effect_def setSystem_def
      details_effect_def)

theorem ssh_command_outlives_selection_witness:
  "sshCommand (ssh_after_render
      (open_page sample_stores ''b'' ((page_initial ''a'')\<lparr>pg_system := Some (sample_system ''a'' ''web'' Up)\<rparr>))
      (snd (createSSHLaunch (\<lambda>d. d) ''https://h'' ''/'' (sample_system ''a'' ''web'' Up) (Some (''t'', ''x'')) ssh_initial)))
   = launch_command ''https://h/api/picket/ssh-launch/t''"
proof -
  have "info_bar_mounted ((page_initial ''a'')\<lparr>pg_system := Some (sample_system ''a'' ''web'' Up)\<rparr>)"
    by (simp add: info_bar_mounted_def sample_system_def)
  moreover have "find_system sample_stores ''b'' = Some (sample_system ''b'' ''db'' Up)" "systems_list sample_stores \<noteq> []"
    by (simp_all add: find_system_def sample_stores_def systems_list_def obj_values_def obj_entries_def is_array_index_def)
  moreover have "sys_id (sample_system ''b'' ''db'' Up) \<noteq> ''''" by (simp add: sample_system_def)
  ultimately show ?thesis
    using ssh_command_outlives_selection [of "(page_initial ''a'')\<lparr>pg_system := Some (sample_system ''a'' ''web'' Up)\<rparr>"
        sample_stores "''b''" "sample_system ''b'' ''db'' Up" "\<lambda>d. d" "''https://h''" "''/''" "sample_system ''a'' ''web'' Up"
        "Some (''t'', ''x'')" ssh_initial]
    by (simp add: createSSHLaunch_def launch_url_def Let_def)
qed

subsection \<open>Deleting an agent\<close>

record delete_state =
  deleteOpen :: bool
  uninstallWithDelete :: bool
  deleteLoading :: bool

definition delete_initial :: delete_state where
  "delete_initial = \<lparr>deleteOpen = False, uninstallWithDelete = False, deleteLoading = False\<rparr>"

datatype delete_action = Menu_delete | Dialog_open_change bool | Check_uninstall bool | Cancel_button

fun delete_act :: "delete_action \<Rightarrow> delete_state \<Rightarrow> delete_state" where
  "delete_act Menu_delete s = s\<lparr>deleteOpen := True\<rparr>"
| "delete_act (Dialog_open_change b) s =
     (let s = s\<lparr>deleteOpen := b\<rparr> in if \<not> b then s\<lparr>uninstallWithDelete := False\<rparr> else s)"
| "delete_act (Check_uninstall b) s = (if deleteOpen s then s\<lparr>uninstallWithDelete := b\<rparr> else s)"
| "delete_act Cancel_button s = (if deleteOpen s \<and> \<not> deleteLoading s then s\<lparr>deleteOpen := False\<rparr> else s)"

definition deleteSystem ::
  "bool \<Rightarrow> bool \<Rightarrow> system_record \<Rightarrow> delete_state \<Rightarrow> hub_call list \<times> string option \<times> delete_state" where
  \<comment> \<open>whether the uninstall and the deletion succeed; the calls, where it navigates, and the state\<close>
  "deleteSystem uninstall_ok delete_ok system s =
     (let uninstall = (if uninstallWithDelete s
            then [Fetch POST_request (''/api/picket/systems/'' @ sys_id system @ ''/uninstall-agent'')] else []);
          s' = s\<lparr>deleteLoading := False\<rparr>
      in if uninstallWithDelete s \<and> \<not> uninstall_ok then (uninstall, None, s')
         else (uninstall @ [Pb_delete ''systems'' (sys_id system)], if delete_ok then Some ''/'' else None, s'))"

definition delete_ok_state :: "delete_state \<Rightarrow> bool" where
  "delete_ok_state s \<longleftrightarrow> (deleteOpen s \<or> \<not> uninstallWithDelete s)"

lemma delete_act_ok: "c \<noteq> Cancel_button \<Longrightarrow> delete_ok_state s \<Longrightarrow> delete_ok_state (delete_act c s)"
  by (cases c) (auto simp: delete_ok_state_def Let_def)

lemma delete_run_ok:
  "Cancel_button \<notin> set acts \<Longrightarrow> delete_ok_state s \<Longrightarrow> delete_ok_state (fold delete_act acts s)"
  by (induction acts arbitrary: s) (auto simp: delete_act_ok)

text \<open>
  The box that uninstalls the agent is for one opening of the dialog: without the cancel button it is
  never ticked while the dialog is closed. The cancel button sets the open state itself, which
  calls no change handler, so a ticked box stays ticked for the next time, and the next
  deletion begins with an uninstallation nobody asked for.
\<close>
theorem cancel_keeps_uninstall:
  assumes "Cancel_button \<notin> set acts"
  shows "(deleteOpen (fold delete_act acts delete_initial) \<or> uninstallWithDelete (fold delete_act acts delete_initial) = False)
    \<and> fst (deleteSystem u d system
            (fold delete_act [Menu_delete, Check_uninstall True, Cancel_button, Menu_delete] delete_initial))
       = Fetch POST_request (''/api/picket/systems/'' @ sys_id system @ ''/uninstall-agent'')
         # (if u then [Pb_delete ''systems'' (sys_id system)] else [])"
  using delete_run_ok [OF assms, of delete_initial]
  by (auto simp: delete_ok_state_def delete_initial_def deleteSystem_def Let_def)

theorem cancel_keeps_uninstall_witness:
  "uninstallWithDelete (fold delete_act [Menu_delete, Check_uninstall True, Dialog_open_change False] delete_initial) = False"
  using cancel_keeps_uninstall [of "[Menu_delete, Check_uninstall True, Dialog_open_change False]" True True
      "sample_system ''a'' ''web'' Up"]
  by (simp add: delete_initial_def)

text \<open>
  A record is deleted only after the uninstallation that was asked for has succeeded, the calls are
  made in that order, the page is left only when the record is deleted, and the dialog is usable
  again whatever happens.
\<close>
theorem delete_waits_for_uninstall:
  "case deleteSystem u d system s of (calls, nav, s') \<Rightarrow>
     (Pb_delete ''systems'' (sys_id system) \<in> set calls \<longleftrightarrow> (uninstallWithDelete s \<le> u))
     \<and> (nav \<noteq> None \<longleftrightarrow> Pb_delete ''systems'' (sys_id system) \<in> set calls \<and> d)
     \<and> (length calls = of_bool (uninstallWithDelete s) + of_bool (uninstallWithDelete s \<le> u))
     \<and> (uninstallWithDelete s = (case calls of Fetch m path # _ \<Rightarrow> True | _ \<Rightarrow> False))
     \<and> s' = s\<lparr>deleteLoading := False\<rparr>"
  by (simp add: deleteSystem_def Let_def)

text \<open>
  It then navigates to the root of the host, not of the app: navigate opens the path as it is, and
  under a base path the home page is the base path, which is another path.
\<close>

lemma delete_leaves_base_path:
  assumes "no_double (CHR ''/'') (CHR ''/'' # base @ ''/'')" and "base \<noteq> ''''"
  shows "fst (snd (deleteSystem True True system s)) = Some ''/''
     \<and> map_of (route_patterns (CHR ''/'' # base @ ''/'')) ''home'' = Some (CHR ''/'' # base @ ''/'')
     \<and> CHR ''/'' # base @ ''/'' \<noteq> ''/''"
proof -
  have "prependBasePath ((CHR ''/'' # base) @ ''/'') ''/'' = (CHR ''/'' # base) @ ''/''"
    using no_double_append [of "CHR ''/''" "CHR ''/'' # base" "''''"] assms(1) by (simp add: prependBasePath_def)
  then show ?thesis using assms(2) by (simp add: deleteSystem_def route_patterns_def Let_def)
qed

subsection \<open>The install script\<close>

record install_state =
  installCommand :: string
  installOpen :: bool

definition loadInstallScript :: "string option \<Rightarrow> system_record \<Rightarrow> install_state \<Rightarrow> hub_call \<times> install_state" where
  \<comment> \<open>None when the hub refuses; the call then throws before the dialog opens\<close>
  "loadInstallScript answer system s =
     (Fetch GET_request (''/api/picket/systems/'' @ sys_id system @ ''/install-command''),
      case answer of Some script \<Rightarrow> \<lparr>installCommand = script, installOpen = True\<rparr> | None \<Rightarrow> s)"

subsection \<open>Adding and renaming a system: add-system.tsx\<close>

record dialog_state =
  dg_name :: string
  dg_token :: string
  dg_command :: string
  dg_loading :: bool
  dg_open :: bool
  dg_toasts :: "string list"

definition dialog_effect :: "system_record option \<Rightarrow> dialog_state \<Rightarrow> dialog_state" where
  \<comment> \<open>the effect on [system], which runs on mount and whenever the record is another object\<close>
  "dialog_effect system s = s\<lparr>dg_name := (case system of Some r \<Rightarrow> sys_name r | None \<Rightarrow> ''''), dg_token := '''', dg_command := ''''\<rparr>"

definition failed_toast :: string where
  "failed_toast = ''Unable to create system''"

definition submit_edit :: "bool \<Rightarrow> system_record \<Rightarrow> dialog_state \<Rightarrow> hub_call list \<times> dialog_state" where
  "submit_edit update_ok system s =
     ([Pb_update ''systems'' (sys_id system) (dg_name s)],
      if update_ok then s\<lparr>dg_open := False, dg_loading := False\<rparr>
      else s\<lparr>dg_toasts := failed_toast # dg_toasts s, dg_loading := False\<rparr>)"

definition submit_new :: "(string \<times> string) option \<Rightarrow> string option \<Rightarrow> dialog_state \<Rightarrow> hub_call list \<times> dialog_state" where
  \<comment> \<open>the enrollment (id and token) and the install command, None when the hub does not give them\<close>
  "submit_new enrollment script s =
     (let create = Pb_send POST_request ''/api/picket/systems'' (dg_name s)
      in case enrollment of
           None \<Rightarrow> ([create], s\<lparr>dg_toasts := failed_toast # dg_toasts s, dg_loading := False\<rparr>)
         | Some (systemId, token) \<Rightarrow>
             (let calls = [create, Fetch GET_request (''/api/picket/systems/'' @ systemId @ ''/install-command'')];
                  s = s\<lparr>dg_token := token\<rparr>
              in case script of
                   None \<Rightarrow> (calls, s\<lparr>dg_toasts := failed_toast # dg_toasts s, dg_loading := False\<rparr>)
                 | Some text \<Rightarrow> (calls, s\<lparr>dg_command := text, dg_loading := False\<rparr>)))"

definition submit_dialog ::
  "bool \<Rightarrow> (string \<times> string) option \<Rightarrow> string option \<Rightarrow> system_record option \<Rightarrow> dialog_state \<Rightarrow> hub_call list \<times> dialog_state" where
  "submit_dialog update_ok enrollment script system s =
     (case system of Some r \<Rightarrow> submit_edit update_ok r s | None \<Rightarrow> submit_new enrollment script s)"

definition dialog_title :: "system_record option \<Rightarrow> dialog_state \<Rightarrow> string" where
  "dialog_title system s = (if system \<noteq> None then ''Edit System'' else if dg_token s \<noteq> '''' then ''Connect Agent'' else ''Add System'')"



text \<open>While a name is being edited, every update of the record puts the stored name back.\<close>

lemma update_discards_typed_name:
  "dg_name (dialog_effect (Some r) (s\<lparr>dg_name := typed\<rparr>)) = sys_name r"
  by (simp add: dialog_effect_def)

subsection \<open>Command palette, clipboard and titles\<close>

definition palette_key :: "string \<Rightarrow> bool \<Rightarrow> bool \<Rightarrow> bool \<Rightarrow> bool" where
  \<comment> \<open>keydown with its two modifiers on an open or closed palette: whether it is open afterwards\<close>
  "palette_key key metaKey ctrlKey is_open = (if key = ''k'' \<and> (metaKey \<or> ctrlKey) then \<not> is_open else is_open)"

definition palette_go :: "string \<Rightarrow> string \<times> bool" where
  \<comment> \<open>the path navigated to, and the palette closed\<close>
  "palette_go path = (path, False)"

definition system_path :: "string \<Rightarrow> string \<Rightarrow> string" where
  \<comment> \<open>the path of a system's page: the pattern with the id, which the router encodes\<close>
  "system_path basePath encoded = prependBasePath basePath ''/system/'' @ encoded"

definition palette_systems :: "(string \<Rightarrow> string) \<Rightarrow> string \<Rightarrow> system_record list \<Rightarrow> (string \<times> string \<times> string) list" where
  \<comment> \<open>name, host and path of each system\<close>
  "palette_systems encode basePath systems =
     map (\<lambda>s. (sys_name s, getHostDisplayValue s, system_path basePath (encode (sys_id s)))) systems"

definition palette_pages :: "string \<Rightarrow> (string \<times> string) list" where
  "palette_pages basePath =
     [(''All Systems'', basePath), (''Telegram Notifications'', prependBasePath basePath ''/settings/'' @ ''notifications'')]"

text \<open>Each entry of the palette leads to its own system, as ids are encoded injectively.\<close>

lemma palette_paths_distinct:
  assumes "distinct (map sys_id systems)" and "inj encode"
  shows "distinct (map (\<lambda>(n, h, p). p) (palette_systems encode base systems))"
  using assms
  by (auto simp: palette_systems_def system_path_def o_def distinct_map inj_on_def inj_def)

definition copy_rows :: "string \<Rightarrow> nat" where
  \<comment> \<open>content.split of newlines, its length\<close>
  "copy_rows content = length (split_on nl_char content)"

definition copy_dialog :: "string \<Rightarrow> string option" where
  \<comment> \<open>Layout shows the dialog while the store is not empty; unmounting it empties the store\<close>
  "copy_dialog store = (if store \<noteq> '''' then Some store else None)"

lemma copy_rows_count: "copy_rows content = Suc (count_list content nl_char)"
  by (simp add: copy_rows_def length_split_on)

lemma clipboard_fallback: "copy_dialog (copyContent (copyToClipboard False content '''')) = (if content = '''' then None else Some content)"
  by (simp add: copy_dialog_def copyToClipboard_def)

definition document_title :: "route \<Rightarrow> string option \<Rightarrow> string option" where
  \<comment> \<open>the title a page sets: the effects of home.tsx, containers.tsx, settings/layout.tsx and use-system-data.ts\<close>
  "document_title r system_name = (case r of
       Home \<Rightarrow> Some ''All Systems / Picket''
     | Containers_route \<Rightarrow> Some ''All Containers / Picket''
     | Settings_route \<Rightarrow> Some ''Telegram Notifications / Picket''
     | System_route i \<Rightarrow> map_option (\<lambda>n. n @ '' / Picket'') system_name)"

end
