(* ===== verification/App.thy ===== *)
theory App
  imports Listener_Queue Alert_Manager Systems_Table Agent_Dialogs
begin

section \<open>The client as a whole\<close>

text \<open>
  How App (main.tsx) starts the two managers: init, then a chain of promises that fetches the
  systems, subscribes to them, fetches the alerts and subscribes to these, while the hub goes on
  changing. The lemmas say what the stores hold compared with the hub, and what the systems table
  shows of them.
\<close>

subsection \<open>Start-up: the effect of App\<close>

datatype app_stage = Refreshing | Subscribing | Fetching_alerts | Subscribing_alerts | Running | Broken

record app_state =
  ap_stage :: app_stage
  ap_listening :: bool
  ap_systems :: sm_state
  ap_alerts :: alerts_store

text \<open>
  What happens: the answers the chain waits for (None or False when they fail), and the changes at
  the hub, which reach the client only through a subscription.
\<close>

datatype app_event =
    Systems_answer "system_record list option"
  | Systems_subscribed bool
  | Alerts_answer "alert_record list option"
  | Alerts_subscribed bool
  | System_change "string \<times> system_record"
  | Alert_change "string \<times> alert_record"

definition app_initial :: app_state where
  "app_initial = \<lparr>ap_stage = Refreshing, ap_listening = False, ap_systems = sm_init sm_initial, ap_alerts = []\<rparr>"

fun app_step :: "system_set_key \<Rightarrow> alerts_set_key \<Rightarrow> app_event \<Rightarrow> app_state \<Rightarrow> app_state" where
  \<comment> \<open>refresh and subscribe of the systems catch their errors; those of the alerts end the chain\<close>
  "app_step sk ak (Systems_answer response) s =
     (if ap_stage s = Refreshing then s\<lparr>ap_systems := sm_refresh sk response (ap_systems s), ap_stage := Subscribing\<rparr> else s)"
| "app_step sk ak (Systems_subscribed success) s =
     (if ap_stage s = Subscribing then s\<lparr>ap_listening := success, ap_stage := Fetching_alerts\<rparr> else s)"
| "app_step sk ak (Alerts_answer response) s =
     (if ap_stage s = Fetching_alerts
      then (case response of
          Some records \<Rightarrow> s\<lparr>ap_alerts := alerts_refresh ak records (ap_alerts s), ap_stage := Subscribing_alerts\<rparr>
        | None \<Rightarrow> s\<lparr>ap_stage := Broken\<rparr>) else s)"
| "app_step sk ak (Alerts_subscribed success) s =
     (if ap_stage s = Subscribing_alerts then s\<lparr>ap_stage := (if success then Running else Broken)\<rparr> else s)"
| "app_step sk ak (System_change e) s = (if ap_listening s then s\<lparr>ap_systems := sm_event sk e (ap_systems s)\<rparr> else s)"
| "app_step sk ak (Alert_change e) s = (if ap_stage s = Running then s\<lparr>ap_alerts := alerts_event ak e (ap_alerts s)\<rparr> else s)"

definition app_run :: "system_set_key \<Rightarrow> alerts_set_key \<Rightarrow> app_event list \<Rightarrow> app_state" where
  "app_run sk ak es = fold (app_step sk ak) es app_initial"

fun is_change :: "app_event \<Rightarrow> bool" where
  "is_change (System_change e) = True"
| "is_change (Alert_change e) = True"
| "is_change e = False"

fun system_changes :: "app_event list \<Rightarrow> (string \<times> system_record) list" where
  "system_changes [] = []"
| "system_changes (System_change e # es) = e # system_changes es"
| "system_changes (e # es) = system_changes es"

fun alert_changes :: "app_event list \<Rightarrow> (string \<times> alert_record) list" where
  "alert_changes [] = []"
| "alert_changes (Alert_change e # es) = e # alert_changes es"
| "alert_changes (e # es) = alert_changes es"

lemma changes_while_deaf:
  "list_all is_change es \<Longrightarrow> \<not> ap_listening s \<Longrightarrow> ap_stage s \<noteq> Running \<Longrightarrow> fold (app_step sk ak) es s = s"
proof (induction es)
  case (Cons e es)
  then show ?case by (cases e) auto
qed simp

lemma changes_while_listening:
  "list_all is_change es \<Longrightarrow> ap_listening s \<Longrightarrow> ap_stage s \<noteq> Running \<Longrightarrow>
     fold (app_step sk ak) es s = s\<lparr>ap_systems := fold (sm_event sk) (system_changes es) (ap_systems s)\<rparr>"
proof (induction es arbitrary: s)
  case (Cons e es)
  then show ?case by (cases e) auto
qed simp

lemma changes_while_running:
  "list_all is_change es \<Longrightarrow> ap_listening s \<Longrightarrow> ap_stage s = Running \<Longrightarrow>
     fold (app_step sk ak) es s = s\<lparr>ap_systems := fold (sm_event sk) (system_changes es) (ap_systems s),
       ap_alerts := fold (alerts_event ak) (alert_changes es) (ap_alerts s)\<rparr>"
proof (induction es arbitrary: s)
  case (Cons e es)
  then show ?case by (cases e) auto
qed simp

text \<open>A full start-up: the four answers, with changes at the hub before, between and after.\<close>

definition startup ::
  "system_record list \<Rightarrow> alert_record list \<Rightarrow> app_event list \<Rightarrow> app_event list \<Rightarrow> app_event list \<Rightarrow> app_event list
     \<Rightarrow> app_event list \<Rightarrow> app_event list" where
  "startup systems alerts before w1 w2 w3 later =
     before @ [Systems_answer (Some systems)] @ w1 @ [Systems_subscribed True] @ w2 @ [Alerts_answer (Some alerts)] @ w3
       @ [Alerts_subscribed True] @ later"

lemma startup_run:
  assumes "list_all is_change (before @ w1 @ w2 @ w3 @ later)"
  shows "ap_systems (app_run sk ak (startup systems alerts before w1 w2 w3 later))
      = fold (sm_event sk) (map (Pair ''create'') systems @ system_changes w2 @ system_changes w3 @ system_changes later)
          (sm_init sm_initial)
    \<and> ap_alerts (app_run sk ak (startup systems alerts before w1 w2 w3 later))
      = fold (alerts_event ak) (alert_changes later) (alerts_refresh ak alerts [])"
proof -
  have "fold (sm_event sk) (map (Pair ''create'') systems) s = sm_refresh sk (Some systems) s" for s
    by (simp add: fold_map_create sm_refresh_def fetchSystems_def)
  then show ?thesis
    using assms
    by (simp add: app_run_def startup_def app_initial_def changes_while_deaf changes_while_listening changes_while_running)
qed

definition snapshot :: "('r \<Rightarrow> 'k) \<Rightarrow> ('r \<Rightarrow> bool) \<Rightarrow> 'r list \<Rightarrow> 'k \<Rightarrow> 'r option" where
  \<comment> \<open>a collection as a list of its records\<close>
  "snapshot key valid rs = feed_replay key valid (map (Pair ''create'') rs) (\<lambda>_. None)"

lemma replay_without_window:
  "feed_replay key valid (map (Pair ''create'') rs @ es) (\<lambda>_. None) k =
     feed_replay key valid (if list_ex (feed_concerns key valid k) es then missed @ es else []) (snapshot key valid rs) k"
proof -
  have "list_ex (feed_concerns key valid k) es \<longleftrightarrow> filter (feed_concerns key valid k) es \<noteq> []"
    by (auto simp: filter_empty_conv list_ex_iff)
  moreover have "feed_replay key valid es' m k =
      (if filter (feed_concerns key valid k) es' = [] then m k else feed_result (last (filter (feed_concerns key valid k) es')))"
    for es' m by (simp add: feed_replay_at split: list.splits)
  ultimately show ?thesis
    unfolding feed_replay_append snapshot_def [symmetric] by simp
qed



subsection \<open>The systems table by status\<close>

definition table_data :: "sm_state \<Rightarrow> status_filter \<Rightarrow> system_record list" where
  \<comment> \<open>what the table is given: filteredData on the managers' stores\<close>
  "table_data s f = filteredData f (allSystemsById s) (upSystems s) (downSystems s) (pausedSystems s)"

definition status_keys_distinct :: "sm_state \<Rightarrow> bool" where
  "status_keys_distinct s \<longleftrightarrow> distinct (map fst (upSystems s)) \<and> distinct (map fst (downSystems s))
     \<and> distinct (map fst (pausedSystems s))"

lemma set_key_distinct: "set_key_documented sk \<Longrightarrow> distinct (map fst m) \<Longrightarrow> distinct (map fst (sk k v m))"
  by (simp add: set_key_documented_def)

lemma systems_listener_keys:
  "set_key_documented sk \<Longrightarrow> status_keys_distinct s \<Longrightarrow> status_keys_distinct (systems_listener sk r' r s)"
  by (auto simp: status_keys_distinct_def systems_listener_def status_listener_def drop_from_stores_def Let_def
      set_key_distinct split: option.splits system_status.splits)

lemma setById_keys:
  assumes "set_key_documented sk" and "status_keys_distinct s"
  shows "status_keys_distinct (setById sk k v s)"
proof -
  have "status_keys_distinct (s\<lparr>allSystemsById := sk k v (allSystemsById s)\<rparr>)"
    using assms(2) by (simp add: status_keys_distinct_def)
  then show ?thesis using assms by (simp add: setById_def systems_listener_keys Let_def)
qed

lemma setByName_keys: "status_keys_distinct s \<Longrightarrow> status_keys_distinct (setByName sk k v s)"
  by (simp add: status_keys_distinct_def setByName_def)

lemma sm_event_keys:
  assumes "set_key_documented sk" and "status_keys_distinct s"
  shows "status_keys_distinct (sm_event sk e s)"
proof -
  have "status_keys_distinct (drop_from_stores sk r s)" if "status_keys_distinct s" for r s
    using that assms(1) by (simp add: status_keys_distinct_def drop_from_stores_def set_key_distinct)
  then show ?thesis
    using assms by (simp add: sm_event_def sm_add_def sm_update_def sm_remove_def Let_def setById_keys setByName_keys)
qed

lemma sm_run_keys: "set_key_documented sk \<Longrightarrow> status_keys_distinct (sm_run sk acts)"
proof -
  assume sk: "set_key_documented sk"
  have "status_keys_distinct s \<Longrightarrow> status_keys_distinct (fold (sm_event sk) es s)" for es s
    by (induction es arbitrary: s) (simp_all add: sm_event_keys [OF sk])
  then show ?thesis
    by (simp add: sm_run_events status_keys_distinct_def sm_init_def sm_initial_def)
qed

lemma in_obj_values: "distinct (map fst m) \<Longrightarrow> r \<in> set (obj_values m) \<longleftrightarrow> (\<exists>k. map_of m k = Some r)"
  by (force simp: obj_values_def map_of_eq_Some_iff)

lemma with_status_Some: "with_status st s k = Some r \<longleftrightarrow> map_of (allSystemsById s) k = Some r \<and> sys_status r = st"
  by (auto simp: with_status_def split: option.splits)

text \<open>
  The status filter of the table is exact: after any sequence of events and refreshes, filtering by
  up, down or paused shows exactly those systems of the whole list that have the status; a
  pending system is shown by no filter.
\<close>
theorem status_filter_exact:
  assumes "set_key_documented sk" and "ids_present acts" and "st \<in> {Up, Down, Paused}"
  shows "set (table_data (sm_run sk acts) (Only st)) = {r \<in> set (table_data (sm_run sk acts) All_systems). sys_status r = st}
     \<and> length (table_data (sm_run sk acts) All_systems) = length (allSystemsById (sm_run sk acts))"
proof -
  let ?s = "sm_run sk acts"
  have inv: "stores_ok ?s" "distinct (map fst (allSystemsById ?s))"
    using sm_run_inv [OF assms(1, 2)] by (simp_all add: sm_inv_def keys_ok_def)
  have k: "distinct (map fst (upSystems ?s))" "distinct (map fst (downSystems ?s))" "distinct (map fst (pausedSystems ?s))"
    using sm_run_keys [OF assms(1)] by (simp_all add: status_keys_distinct_def)
  have "r \<in> set (obj_values (allSystemsById ?s)) \<and> sys_status r = st' \<longleftrightarrow> (\<exists>k. with_status st' ?s k = Some r)" for r st'
    unfolding in_obj_values [OF inv(2)] with_status_Some by blast
  then have w: "{r \<in> set (obj_values (allSystemsById ?s)). sys_status r = st'} = {r. \<exists>k. with_status st' ?s k = Some r}" for st'
    by blast
  have v: "set (obj_values m) = {r. \<exists>k. map_of m k = Some r}" if "distinct (map fst m)" for m :: "(string \<times> system_record) list"
    using in_obj_values [OF that] by blast
  show ?thesis
    using assms(3) inv(1) unfolding table_data_def filteredData_def
    by (auto simp: w v [OF k(1)] v [OF k(2)] v [OF k(3)] stores_ok_def)
qed

theorem status_filter_exact_witness:
  "set (table_data (sm_run js_set_key sample_acts) (Only Down))
   = {r \<in> set (table_data (sm_run js_set_key sample_acts) All_systems). sys_status r = Down}"
  using status_filter_exact [OF js_set_key_documented sample_acts_ids, of Down] by simp

end
