(* ===== verification/Chart_Frame.thy ===== *)
theory Chart_Frame
  imports Chart_View
begin

section \<open>What a chart renders: area-chart.tsx, line-chart.tsx, ui/chart.tsx\<close>

text \<open>
  The contents of the tooltip, with the memo that filters and sorts its payload; and the elements
  an area or line chart hands to recharts, with the memos of its series and of itself. The lemmas
  show when the tooltip is filtered, that showing it throws only on values that cannot be
  formatted, and that a memoized chart draws its current data and series.
\<close>

subsection \<open>The rows of the tooltip: ChartTooltipContent\<close>

record tooltip_props =
  tp_color :: "string option"
  tp_nameKey :: "string option"
  tp_labelKey :: "string option"
  tp_label :: "string option"
  tp_labelFormatter :: "(string option \<Rightarrow> string) option"
  tp_hideLabel :: bool
  tp_unit :: "string option"
  tp_formatter :: "(tip_value \<Rightarrow> string \<Rightarrow> nat \<Rightarrow> string) option"
  tp_content :: "(tip_value \<Rightarrow> string \<Rightarrow> string) option"
  tp_truncate :: bool
  tp_showTotal :: bool
  tp_totalLabel :: "string option"

datatype tooltip_row =
    Formatted string
  | Row "string option" "string option" bool "string option"  \<comment> \<open>colour, name, truncated, value\<close>

definition item_key :: "tooltip_props \<Rightarrow> tooltip_item \<Rightarrow> string" where
  \<comment> \<open>nameKey || item.name || item.dataKey || value\<close>
  "item_key p item = or_str (tp_nameKey p) (or_str (ti_name item) (or_str (ti_dataKey item) ''value''))"

definition indicatorColor :: "tooltip_props \<Rightarrow> tooltip_item \<Rightarrow> string option" where
  \<comment> \<open>color || item.payload.fill || item.color\<close>
  "indicatorColor p item = (if str_truthy (tp_color p) then tp_color p
     else if str_truthy (ti_fill item) then ti_fill item else ti_color item)"

definition value_text :: "(rat \<Rightarrow> string) \<Rightarrow> tooltip_props \<Rightarrow> tooltip_item \<Rightarrow> js_error + string option" where
  \<comment> \<open>the text of a value; toLocaleString of null throws\<close>
  "value_text toLocale p item =
     (if ti_value item = V_undefined then Inr None
      else (case tp_content p of
          Some content \<Rightarrow> Inr (Some (content (ti_value item) (item_key p item)))
        | None \<Rightarrow> (case ti_value item of
              V_null \<Rightarrow> Inl TypeError
            | V_num x \<Rightarrow> Inr (Some (toLocale x @ or_str (tp_unit p) ''''))
            | V_str s \<Rightarrow> Inr (Some (s @ or_str (tp_unit p) ''''))
            | V_undefined \<Rightarrow> Inr None)))"

definition tooltip_row :: "(rat \<Rightarrow> string) \<Rightarrow> tooltip_props \<Rightarrow> nat \<Rightarrow> tooltip_item \<Rightarrow> js_error + tooltip_row" where
  \<comment> \<open>no item has a config of its own, as config is empty\<close>
  "tooltip_row toLocale p index item =
     (case tp_formatter p of
        Some f \<Rightarrow> (if ti_value item \<noteq> V_undefined \<and> str_truthy (ti_name item)
            then Inr (Formatted (f (ti_value item) (the (ti_name item)) index))
            else map_sum id (Row (indicatorColor p item) (ti_name item) (tp_truncate p)) (value_text toLocale p item))
      | None \<Rightarrow> map_sum id (Row (indicatorColor p item) (ti_name item) (tp_truncate p)) (value_text toLocale p item))"

fun tooltip_rows :: "(rat \<Rightarrow> string) \<Rightarrow> tooltip_props \<Rightarrow> nat \<Rightarrow> tooltip_item list \<Rightarrow> js_error + tooltip_row list" where
  "tooltip_rows toLocale p index [] = Inr []"
| "tooltip_rows toLocale p index (item # items) =
     (case tooltip_row toLocale p index item of
        Inl e \<Rightarrow> Inl e
      | Inr r \<Rightarrow> map_sum id ((#) r) (tooltip_rows toLocale p (Suc index) items))"

record tooltip_content =
  tc_label :: "string option"
  tc_rows :: "tooltip_row list"
  tc_total :: "(string \<times> total_text) option"

definition total_formatter :: "tooltip_props \<Rightarrow> nat \<Rightarrow> (rat \<Rightarrow> string) option" where
  "total_formatter p n = map_option (\<lambda>f v. f (V_num v) (orelse (tp_totalLabel p) ''Total'') n) (tp_formatter p)"

definition total_content :: "tooltip_props \<Rightarrow> (rat \<Rightarrow> string) option" where
  "total_content p = map_option (\<lambda>f v. f (V_num v) ''__total__'') (tp_content p)"

definition total_shows :: "total_text \<Rightarrow> bool" where
  \<comment> \<open>an empty text is falsy\<close>
  "total_shows t = (case t of By_formatter s \<Rightarrow> s \<noteq> '''' | By_content s \<Rightarrow> s \<noteq> '''' | Plain_text s \<Rightarrow> s \<noteq> '''')"

definition ChartTooltipContent ::
  "(rat \<Rightarrow> string) \<Rightarrow> tooltip_props \<Rightarrow> bool \<Rightarrow> tooltip_item list \<Rightarrow> js_error + tooltip_content option" where
  \<comment> \<open>payload is the one filtered and sorted\<close>
  "ChartTooltipContent toLocale p active payload =
     (if \<not> active \<or> payload = [] then Inr None
      else map_sum id (\<lambda>rows. Some \<lparr>tc_label = tooltipLabel (tp_hideLabel p) (tp_labelFormatter p) (tp_labelKey p) (tp_label p) payload,
             tc_rows = rows,
             tc_total = (case totalValueDisplay toLocale (tp_showTotal p) (total_formatter p (length payload)) (total_content p)
                  (tp_unit p) payload of
                Some t \<Rightarrow> if total_shows t then Some (orelse (tp_totalLabel p) ''Total'', t) else None
              | None \<Rightarrow> None)\<rparr>)
        (tooltip_rows toLocale p 0 payload))"

lemma tooltip_row_throws:
  "tooltip_row toLocale p i item = Inl e \<Longrightarrow> ti_value item = V_null \<and> tp_content p = None"
  by (auto simp: tooltip_row_def value_text_def split: option.splits if_splits tip_value.splits)

lemma tooltip_rows_content:
  "tp_content p \<noteq> None \<Longrightarrow> \<exists>rows. tooltip_rows toLocale p i items = Inr rows \<and> length rows = length items"
proof (induction items arbitrary: i)
  case (Cons item items)
  obtain r where "tooltip_row toLocale p i item = Inr r"
    using tooltip_row_throws [of toLocale p i item] Cons.prems by (cases "tooltip_row toLocale p i item") auto
  moreover obtain rows where "tooltip_rows toLocale p (Suc i) items = Inr rows" "length rows = length items"
    using Cons.IH Cons.prems by blast
  ultimately show ?case by simp
qed simp

lemma tooltip_shows_every_item:
  "tp_content p \<noteq> None \<Longrightarrow> payload \<noteq> [] \<Longrightarrow>
     \<exists>c. ChartTooltipContent toLocale p True payload = Inr (Some c) \<and> length (tc_rows c) = length payload"
  using tooltip_rows_content [of p toLocale 0 payload] by (auto simp: ChartTooltipContent_def)

subsection \<open>The memo that filters the payload\<close>

text \<open>
  The first useMemo assigns the filtered array to the local variable payload and sorts in place. Its
  dependencies are the sorter and the payload recharts passed; when they are those of the rendering
  before, its function does not run and payload stays as passed. Arrays are given by number, with
  their contents in a heap.
\<close>

record tooltip_memo =
  tm_deps :: "(item_sorter option \<times> nat) option"
  tm_heap :: "nat \<Rightarrow> tooltip_item list"

definition tooltip_payload ::
  "(tooltip_item list \<Rightarrow> tooltip_item list) \<Rightarrow> string \<Rightarrow> item_sorter option \<Rightarrow> nat \<Rightarrow> tooltip_memo \<Rightarrow> tooltip_item list \<times> tooltip_memo" where
  "tooltip_payload engine flt itemSorter payload m =
     (if tm_deps m = Some (itemSorter, payload) then (tm_heap m payload, m)
      else (let items = tooltip_items engine flt itemSorter (tm_heap m payload)
            in (items, m\<lparr>tm_deps := Some (itemSorter, payload),
                         tm_heap := (if flt = '''' then (tm_heap m)(payload := items) else tm_heap m)\<rparr>)))"

fun tooltip_renders ::
  "(tooltip_item list \<Rightarrow> tooltip_item list) \<Rightarrow> (string \<times> item_sorter option \<times> nat) list \<Rightarrow> tooltip_memo \<Rightarrow> tooltip_item list list" where
  "tooltip_renders engine [] m = []"
| "tooltip_renders engine ((flt, srt, n) # rs) m =
     (let (items, m') = tooltip_payload engine flt srt n m in items # tooltip_renders engine rs m')"

lemma tooltip_renders_fresh:
  assumes "distinct (map (snd \<circ> snd) rs)" and "case tm_deps m of None \<Rightarrow> True | Some (s, n) \<Rightarrow> n \<notin> snd ` snd ` set rs"
  shows "tooltip_renders engine rs m = map (\<lambda>(flt, srt, n). tooltip_items engine flt srt (tm_heap m n)) rs"
  using assms
proof (induction rs arbitrary: m)
  case (Cons r rs)
  obtain flt srt n where r: "r = (flt, srt, n)" by (cases r)
  have miss: "tm_deps m \<noteq> Some (srt, n)" using Cons.prems(2) r by (auto split: option.splits)
  let ?m = "snd (tooltip_payload engine flt srt n m)"
  have deps: "tm_deps ?m = Some (srt, n)" using miss by (simp add: tooltip_payload_def Let_def)
  have rest: "tm_heap ?m k = tm_heap m k" if "k \<in> snd ` snd ` set rs" for k
    using miss that Cons.prems(1) r by (auto simp: tooltip_payload_def Let_def image_comp)
  have "tooltip_renders engine rs ?m = map (\<lambda>(flt, srt, n). tooltip_items engine flt srt (tm_heap ?m n)) rs"
    using Cons.IH [of ?m] Cons.prems(1) deps r by (simp add: image_comp)
  also have "\<dots> = map (\<lambda>(flt, srt, n). tooltip_items engine flt srt (tm_heap m n)) rs"
  proof (rule map_cong [OF refl])
    fix x assume "x \<in> set rs"
    then have "snd (snd x) \<in> snd ` snd ` set rs" by blast
    from rest [OF this] show "(case x of (flt, srt, n) \<Rightarrow> tooltip_items engine flt srt (tm_heap ?m n))
        = (case x of (flt, srt, n) \<Rightarrow> tooltip_items engine flt srt (tm_heap m n))" by (simp add: case_prod_unfold)
  qed
  finally show ?case using miss r by (simp add: tooltip_payload_def Let_def case_prod_unfold)
qed simp

text \<open>
  The tooltip lists what its filter and order ask for whenever recharts passes a new array. A
  rendering that gets the array of the rendering before shows the array itself: all items, also
  those that the filter had taken out.
\<close>
theorem tooltip_filter_needs_new_payload:
  assumes "distinct (map (snd \<circ> snd) rs)"
  shows "tooltip_renders engine rs \<lparr>tm_deps = None, tm_heap = heap\<rparr>
       = map (\<lambda>(flt, srt, n). tooltip_items engine flt srt (heap n)) rs
     \<and> (flt \<noteq> '''' \<longrightarrow> tooltip_renders engine [(flt, srt, n), (flt, srt, n)] \<lparr>tm_deps = None, tm_heap = heap\<rparr>
       = [tooltip_items engine flt srt (heap n), heap n])"
  using tooltip_renders_fresh [OF assms, of "\<lparr>tm_deps = None, tm_heap = heap\<rparr>" engine]
  by (simp add: tooltip_payload_def)

theorem tooltip_filter_needs_new_payload_witness:
  "map (map ti_name) (tooltip_renders rev [(''db'', None, 0), (''db'', None, 0)]
      \<lparr>tm_deps = None, tm_heap = (\<lambda>n. [plain_item ''web'' 1 0, plain_item ''db'' 2 1])\<rparr>)
   = [[Some ''db''], [Some ''web'', Some ''db'']]"
proof -
  have "tooltip_items rev ''db'' None [plain_item ''web'' 1 0, plain_item ''db'' 2 1] = [plain_item ''db'' 2 1]" by code_simp
  then show ?thesis
    using tooltip_filter_needs_new_payload [of "[]" rev "\<lambda>n. [plain_item ''web'' 1 0, plain_item ''db'' 2 1]" "''db''" None 0]
    by (simp add: plain_item_def)
qed

subsection \<open>The elements of a chart and their memos: AreaChartDefault, LineChartDefault\<close>

record 'd chart_element =
  el_opaque :: bool
  el_padded :: bool
  el_leftMargin :: "nat option"
  el_reverse :: bool
  el_data :: "'d list"
  el_yAxis :: "(orientation \<times> nat \<times> domain_end \<times> (rat \<Rightarrow> string)) option"
  el_xAxis :: x_axis
  el_sorter :: "item_sorter option"
  el_content :: "rat \<Rightarrow> string"
  el_showTotal :: bool
  el_filter :: "string option"
  el_truncate :: bool
  el_series :: "'d series list"
  el_legend :: bool

text \<open>
  What a rendering of a chart is given: its props, the chart data's time, axis and side, the measured
  width of the axis, and the displayed data and setting (display_effect), the data by number.
\<close>

record 'd chart_render =
  rn_chart :: "'d chart"
  rn_time :: "chart_time \<times> time_data"
  rn_orientation :: orientation
  rn_width :: nat
  rn_data :: nat
  rn_maxToggled :: "bool option"

definition chart_element :: "'d list \<Rightarrow> 'd series list \<Rightarrow> x_axis \<Rightarrow> 'd chart_render \<Rightarrow> 'd chart_element" where
  "chart_element data drawn xa r =
     (let c = rn_chart r
      in \<lparr>el_opaque = (rn_width r \<noteq> 0 \<or> ch_hideYAxis c), el_padded = ch_hideYAxis c,
          el_leftMargin = (if ch_hideYAxis c then Some 5 else None), el_reverse = ch_reverse c, el_data = data,
          el_yAxis = (if ch_hideYAxis c then None else Some (rn_orientation r, rn_width r, y_domain c, ch_tick c)),
          el_xAxis = xa, el_sorter = ch_sorter c, el_content = ch_content c, el_showTotal = ch_showTotal c,
          el_filter = ch_filter c, el_truncate = ch_truncate c, el_series = drawn, el_legend = ch_legend c\<rparr>)"

text \<open>
  The memo of the series, whose array is numbered by its making, and the memo of the chart's element,
  which depends on the displayed data, the width, the filter and the array of series. The cached
  x axis is that of the module.
\<close>

record 'd chart_memo =
  cm_series :: "((string \<times> bool option) \<times> nat \<times> 'd series list) option"
  cm_next :: nat
  cm_element :: "((nat \<times> nat \<times> string option \<times> nat) \<times> 'd chart_element option) option"
  cm_axis :: "x_axis option"

definition chart_memo_initial :: "x_axis option \<Rightarrow> 'd chart_memo" where
  "chart_memo_initial axis = \<lparr>cm_series = None, cm_next = 0, cm_element = None, cm_axis = axis\<rparr>"

definition memo_series ::
  "('d data_point list \<Rightarrow> 'd series list) \<Rightarrow> ('d data_point list \<Rightarrow> string) \<Rightarrow> 'd chart_render \<Rightarrow> 'd chart_memo \<Rightarrow> 'd chart_memo" where
  \<comment> \<open>the useMemo of the series, by their key and the displayed setting\<close>
  "memo_series draw key r m =
     (let deps = (key (ch_points (rn_chart r)), rn_maxToggled r)
      in case cm_series m of
           Some (old, n, drawn) \<Rightarrow> if old = deps then m
             else m\<lparr>cm_series := Some (deps, cm_next m, draw (ch_points (rn_chart r))), cm_next := Suc (cm_next m)\<rparr>
         | None \<Rightarrow> m\<lparr>cm_series := Some (deps, cm_next m, draw (ch_points (rn_chart r))), cm_next := Suc (cm_next m)\<rparr>)"

definition memo_element :: "(nat \<Rightarrow> 'd list) \<Rightarrow> 'd chart_render \<Rightarrow> 'd chart_memo \<Rightarrow> 'd chart_memo" where
  \<comment> \<open>the useMemo of the element: null without data\<close>
  "memo_element heap r m =
     (case cm_series m of
        None \<Rightarrow> m
      | Some (deps, n, drawn) \<Rightarrow>
          (let now = (rn_data r, rn_width r, ch_filter (rn_chart r), n);
               made = (if heap (rn_data r) = [] then m\<lparr>cm_element := Some (now, None)\<rparr>
                       else (let (xa, cache) = xAxis (rn_time r) (cm_axis m)
                             in m\<lparr>cm_element := Some (now, Some (chart_element (heap (rn_data r)) drawn xa r)), cm_axis := cache\<rparr>))
           in case cm_element m of Some (old, e) \<Rightarrow> if old = now then m else made | None \<Rightarrow> made))"

definition render_chart ::
  "('d data_point list \<Rightarrow> 'd series list) \<Rightarrow> ('d data_point list \<Rightarrow> string) \<Rightarrow> (nat \<Rightarrow> 'd list) \<Rightarrow> 'd chart_render \<Rightarrow>
   'd chart_memo \<Rightarrow> 'd chart_memo" where
  "render_chart draw key heap r m = memo_element heap r (memo_series draw key r m)"

definition AreaChartDefault :: "(rat \<Rightarrow> string) \<Rightarrow> (nat \<Rightarrow> 'd list) \<Rightarrow> 'd chart_render \<Rightarrow> 'd chart_memo \<Rightarrow> 'd chart_memo" where
  "AreaChartDefault num_text = render_chart areas (areasKey num_text)"

definition LineChartDefault :: "(rat \<Rightarrow> string) \<Rightarrow> (nat \<Rightarrow> 'd list) \<Rightarrow> 'd chart_render \<Rightarrow> 'd chart_memo \<Rightarrow> 'd chart_memo" where
  "LineChartDefault num_text = render_chart chart_lines (linesKey num_text)"

definition shown_element :: "'d chart_memo \<Rightarrow> 'd chart_element option" where
  "shown_element m = (case cm_element m of Some (deps, e) \<Rightarrow> e | None \<Rightarrow> None)"

definition chart_memo_ok ::
  "(nat \<Rightarrow> 'd list) \<Rightarrow> 'd chart_memo \<Rightarrow> bool" where
  \<comment> \<open>an element with data, and with the series of its number\<close>
  "chart_memo_ok heap m \<longleftrightarrow>
     (case cm_series m of
        None \<Rightarrow> cm_element m = None
      | Some (deps, n, drawn) \<Rightarrow> n < cm_next m
          \<and> (case cm_element m of
               None \<Rightarrow> True
             | Some ((d, w, f, k), e) \<Rightarrow> k < cm_next m \<and> (e = None \<longleftrightarrow> heap d = [])
                 \<and> (\<forall>x. e = Some x \<longrightarrow> el_data x = heap d \<and> el_filter x = f \<and> (k = n \<longrightarrow> el_series x = drawn))))"

lemma memo_element_ok:
  assumes "chart_memo_ok heap m" and "cm_series m = Some (deps, n, drawn)"
  shows "chart_memo_ok heap (memo_element heap r m)
     \<and> (case shown_element (memo_element heap r m) of
          None \<Rightarrow> heap (rn_data r) = []
        | Some x \<Rightarrow> el_data x = heap (rn_data r) \<and> el_filter x = ch_filter (rn_chart r) \<and> el_series x = drawn)"
proof (cases "\<exists>e. cm_element m = Some ((rn_data r, rn_width r, ch_filter (rn_chart r), n), e)")
  case True
  then obtain e where e: "cm_element m = Some ((rn_data r, rn_width r, ch_filter (rn_chart r), n), e)" by blast
  then have "memo_element heap r m = m" using assms(2) by (simp add: memo_element_def Let_def)
  then show ?thesis using assms e by (auto simp: chart_memo_ok_def shown_element_def split: option.splits)
next
  case False
  let ?now = "(rn_data r, rn_width r, ch_filter (rn_chart r), n)"
  obtain xa cache where x: "xAxis (rn_time r) (cm_axis m) = (xa, cache)" by fastforce
  have made: "memo_element heap r m = (if heap (rn_data r) = [] then m\<lparr>cm_element := Some (?now, None)\<rparr>
      else m\<lparr>cm_element := Some (?now, Some (chart_element (heap (rn_data r)) drawn xa r)), cm_axis := cache\<rparr>)"
    using False assms(2) x by (auto simp: memo_element_def Let_def split: option.splits)
  show ?thesis using assms made
    by (auto simp: chart_memo_ok_def shown_element_def chart_element_def Let_def)
qed

subsection \<open>The component: renderings and the effect on the displayed data\<close>

text \<open>
  A rendering uses the displayed data and setting, the effect behind it may change them
  (display_effect), and then the component is rendered once more. An input is what the component is
  given at a time: its props, what the chart data add, the source data by number, and whether the
  chart is on screen.
\<close>

record 'd chart_input =
  ci_chart :: "'d chart"
  ci_time :: "chart_time \<times> time_data"
  ci_orientation :: orientation
  ci_width :: nat
  ci_source :: nat
  ci_visible :: bool

definition render_of :: "'d chart_input \<Rightarrow> 'd frame \<Rightarrow> 'd chart_render" where
  "render_of i f = \<lparr>rn_chart = ci_chart i, rn_time = ci_time i, rn_orientation = ci_orientation i, rn_width = ci_width i,
     rn_data = fst (fr_data f), rn_maxToggled = fr_maxToggled f\<rparr>"

definition component_step ::
  "('d chart_render \<Rightarrow> 'd chart_memo \<Rightarrow> 'd chart_memo) \<Rightarrow> (nat \<Rightarrow> 'd list) \<Rightarrow> 'd chart_input \<Rightarrow> 'd frame \<times> 'd chart_memo \<Rightarrow>
   'd frame \<times> 'd chart_memo" where
  "component_step rend heap i s =
     (let f = display_effect (ci_source i, heap (ci_source i)) (ch_maxToggled (ci_chart i)) (ci_visible i) (fst s)
      in (f, rend (render_of i f) (rend (render_of i (fst s)) (snd s))))"

definition component_mount :: "(nat \<Rightarrow> 'd list) \<Rightarrow> x_axis option \<Rightarrow> 'd chart_input \<Rightarrow> 'd frame \<times> 'd chart_memo" where
  \<comment> \<open>the initial states\<close>
  "component_mount heap axis i = (\<lparr>fr_data = (ci_source i, heap (ci_source i)), fr_maxToggled = ch_maxToggled (ci_chart i)\<rparr>,
     chart_memo_initial axis)"

definition chart_component ::
  "('d chart_render \<Rightarrow> 'd chart_memo \<Rightarrow> 'd chart_memo) \<Rightarrow> (nat \<Rightarrow> 'd list) \<Rightarrow> x_axis option \<Rightarrow> 'd chart_input list \<Rightarrow>
   'd frame \<times> 'd chart_memo" where
  \<comment> \<open>a component that is given these inputs, the first on mounting\<close>
  "chart_component rend heap axis ins = fold (component_step rend heap) ins (component_mount heap axis (hd ins))"

definition input_points :: "'d chart_input \<Rightarrow> 'd data_point list" where
  "input_points i = ch_points (ci_chart i)"

definition setting_decides :: "('d data_point list \<Rightarrow> 'd series list) \<Rightarrow> ('d data_point list \<Rightarrow> string) \<Rightarrow> 'd chart_input list \<Rightarrow> bool" where
  \<comment> \<open>among the inputs, labels, opacities and the max setting determine the series\<close>
  "setting_decides draw key ins \<longleftrightarrow> (\<forall>a \<in> set ins. \<forall>b \<in> set ins.
     key (input_points a) = key (input_points b) \<and> ch_maxToggled (ci_chart a) = ch_maxToggled (ci_chart b) \<longrightarrow>
     draw (input_points a) = draw (input_points b))"

lemma memo_series_keeps:
  assumes "chart_memo_ok heap m"
  shows "chart_memo_ok heap (memo_series draw key r m)"
proof (cases "cm_series m")
  case None
  then show ?thesis using assms by (auto simp: chart_memo_ok_def memo_series_def Let_def)
next
  case (Some s)
  obtain deps n drawn where s: "s = (deps, n, drawn)" by (cases s)
  show ?thesis
  proof (cases "deps = (key (ch_points (rn_chart r)), rn_maxToggled r)")
    case True
    then show ?thesis using assms Some s by (simp add: memo_series_def)
  next
    case False
    then show ?thesis using assms Some s
      by (auto simp: chart_memo_ok_def memo_series_def Let_def split: option.splits)
  qed
qed

lemma setting_decidesD:
  "setting_decides draw key ins \<Longrightarrow> a \<in> set ins \<Longrightarrow> b \<in> set ins \<Longrightarrow> key (input_points a) = key (input_points b)
   \<Longrightarrow> ch_maxToggled (ci_chart a) = ch_maxToggled (ci_chart b) \<Longrightarrow> draw (input_points a) = draw (input_points b)"
  unfolding setting_decides_def by blast

lemma setting_decides_subset:
  "setting_decides draw key ins \<Longrightarrow> set xs \<subseteq> set ins \<Longrightarrow> setting_decides draw key xs"
  unfolding setting_decides_def by blast

lemma memo_series_deps:
  "\<exists>n drawn. cm_series (memo_series draw key r m) = Some ((key (ch_points (rn_chart r)), rn_maxToggled r), n, drawn)
     \<and> (drawn = draw (ch_points (rn_chart r))
        \<or> (\<exists>n. cm_series m = Some ((key (ch_points (rn_chart r)), rn_maxToggled r), n, drawn)))"
  by (cases "cm_series m") (auto simp: memo_series_def Let_def)

lemma memo_element_series [simp]: "cm_series (memo_element heap r m) = cm_series m"
  by (auto simp: memo_element_def Let_def split: option.splits prod.splits)

definition element_shows :: "'d chart_element option \<Rightarrow> 'd list \<Rightarrow> string option \<Rightarrow> 'd series list \<Rightarrow> bool" where
  \<comment> \<open>nothing without data, else these data, this filter and these series\<close>
  "element_shows e xs flt drawn \<longleftrightarrow> (case e of None \<Rightarrow> xs = []
     | Some x \<Rightarrow> el_data x = xs \<and> el_filter x = flt \<and> el_series x = drawn)"

lemma render_chart_spec:
  assumes "chart_memo_ok heap m"
  shows "\<exists>n drawn. chart_memo_ok heap (render_chart draw key heap r m)
     \<and> cm_series (render_chart draw key heap r m) = Some ((key (ch_points (rn_chart r)), rn_maxToggled r), n, drawn)
     \<and> (drawn = draw (ch_points (rn_chart r))
        \<or> (\<exists>n. cm_series m = Some ((key (ch_points (rn_chart r)), rn_maxToggled r), n, drawn)))
     \<and> element_shows (shown_element (render_chart draw key heap r m)) (heap (rn_data r)) (ch_filter (rn_chart r)) drawn"
proof -
  obtain n drawn where s: "cm_series (memo_series draw key r m) = Some ((key (ch_points (rn_chart r)), rn_maxToggled r), n, drawn)"
    and d: "drawn = draw (ch_points (rn_chart r))
        \<or> (\<exists>n. cm_series m = Some ((key (ch_points (rn_chart r)), rn_maxToggled r), n, drawn))"
    using memo_series_deps by blast
  note e = memo_element_ok [OF memo_series_keeps [OF assms] s, of r]
  show ?thesis unfolding render_chart_def element_shows_def
    by (rule exI [of _ n], rule exI [of _ drawn]) (intro conjI e [THEN conjunct1] e [THEN conjunct2] d, simp add: s)
qed

definition component_ok ::
  "('d data_point list \<Rightarrow> 'd series list) \<Rightarrow> ('d data_point list \<Rightarrow> string) \<Rightarrow> (nat \<Rightarrow> 'd list) \<Rightarrow> 'd chart_input \<Rightarrow>
   'd frame \<times> 'd chart_memo \<Rightarrow> bool" where
  \<comment> \<open>after an input on screen: the series kept are the current ones\<close>
  "component_ok draw key heap i s \<longleftrightarrow> chart_memo_ok heap (snd s) \<and> frame_ok heap (fst s)
     \<and> fr_maxToggled (fst s) = ch_maxToggled (ci_chart i)
     \<and> (\<forall>d n x. cm_series (snd s) = Some (d, n, x) \<longrightarrow> d = (key (input_points i), ch_maxToggled (ci_chart i)) \<and> x = draw (input_points i))"

lemma render_of_simps [simp]:
  "rn_chart (render_of i f) = ci_chart i" "rn_data (render_of i f) = fst (fr_data f)"
  "rn_maxToggled (render_of i f) = fr_maxToggled f"
  by (simp_all add: render_of_def)

lemma component_step_visible:
  assumes "setting_decides draw key [i, j]" and "component_ok draw key heap i (f, m)" and "ci_visible j"
  shows "component_ok draw key heap j (component_step (render_chart draw key heap) heap j (f, m))
     \<and> element_shows (shown_element (snd (component_step (render_chart draw key heap) heap j (f, m))))
         (heap (ci_source j)) (ch_filter (ci_chart j)) (draw (input_points j))"
proof -
  let ?mt = "ch_maxToggled (ci_chart j)" and ?p = "ch_points (ci_chart j)"
  define g where "g = display_effect (ci_source j, heap (ci_source j)) ?mt True f"
  have g: "fr_data g = (ci_source j, heap (ci_source j))" "fr_maxToggled g = ?mt"
    using display_effect_visible assms(2) by (auto simp: component_ok_def g_def)
  have ok: "chart_memo_ok heap m" using assms(2) by (simp add: component_ok_def)
  define m1 where "m1 = render_chart draw key heap (render_of j f) m"
  define m2 where "m2 = render_chart draw key heap (render_of j g) m1"
  obtain n1 d1 where m1: "chart_memo_ok heap m1" "cm_series m1 = Some ((key ?p, fr_maxToggled f), n1, d1)"
      "d1 = draw ?p \<or> (\<exists>n. cm_series m = Some ((key ?p, fr_maxToggled f), n, d1))"
    using render_chart_spec [OF ok, of draw key "render_of j f"] unfolding m1_def render_of_simps by blast
  obtain n2 d2 where m2: "chart_memo_ok heap m2" "cm_series m2 = Some ((key ?p, ?mt), n2, d2)"
      "d2 = draw ?p \<or> (\<exists>n. cm_series m1 = Some ((key ?p, ?mt), n, d2))"
      "element_shows (shown_element m2) (heap (ci_source j)) (ch_filter (ci_chart j)) d2"
    using render_chart_spec [OF m1(1), of draw key "render_of j g"] unfolding m2_def render_of_simps g fst_conv by blast
  have "d1 = draw ?p" if "fr_maxToggled f = ?mt"
    using m1(3)
  proof
    assume "\<exists>n. cm_series m = Some ((key ?p, fr_maxToggled f), n, d1)"
    then have "key (input_points j) = key (input_points i)" "?mt = ch_maxToggled (ci_chart i)" "d1 = draw (input_points i)"
      using assms(2) that by (auto simp: component_ok_def input_points_def)
    then show ?thesis using setting_decidesD [OF assms(1), of j i] by (simp add: input_points_def)
  qed
  then have d2: "d2 = draw ?p" using m1(2) m2(3) by auto
  have st: "component_step (render_chart draw key heap) heap j (f, m) = (g, m2)"
    using assms(3) by (simp add: component_step_def m1_def m2_def g_def Let_def)
  have "frame_ok heap g" using g(1) by (simp add: frame_ok_def)
  then show ?thesis using m2 g(2) unfolding st d2 component_ok_def input_points_def by simp
qed

lemma component_run_visible:
  assumes "setting_decides draw key (i # ins @ [j])" and "list_all ci_visible (ins @ [j])" and "component_ok draw key heap i s"
  shows "element_shows (shown_element (snd (fold (component_step (render_chart draw key heap) heap) (ins @ [j]) s)))
     (heap (ci_source j)) (ch_filter (ci_chart j)) (draw (input_points j))"
  using assms
proof (induction ins arbitrary: i s)
  case Nil
  then have "setting_decides draw key [i, j]" by simp
  from component_step_visible [OF this, of heap "fst s" "snd s"] Nil show ?case by simp
next
  case (Cons k ins)
  have a: "setting_decides draw key [i, k]" by (rule setting_decides_subset [OF Cons.prems(1)]) simp
  have b: "setting_decides draw key (k # ins @ [j])" by (rule setting_decides_subset [OF Cons.prems(1)]) auto
  have "component_ok draw key heap k (component_step (render_chart draw key heap) heap k s)"
    using component_step_visible [OF a, of heap "fst s" "snd s"] Cons.prems(2,3) by simp
  from Cons.IH [OF b _ this] Cons.prems(2) show ?case by simp
qed

lemma component_visible:
  assumes "setting_decides draw key (ins @ [j])" and "list_all ci_visible (ins @ [j])"
  shows "element_shows (shown_element (snd (chart_component (render_chart draw key heap) heap axis (ins @ [j]))))
     (heap (ci_source j)) (ch_filter (ci_chart j)) (draw (input_points j))"
proof -
  define i where "i = hd (ins @ [j])"
  have "i \<in> set (ins @ [j])" by (cases ins) (auto simp: i_def)
  then have "setting_decides draw key (i # ins @ [j])" 
    by (intro setting_decides_subset [OF assms(1)]) simp
  moreover have "component_ok draw key heap i (component_mount heap axis i)"
    by (simp add: component_ok_def component_mount_def chart_memo_initial_def chart_memo_ok_def frame_ok_def)
  ultimately show ?thesis using component_run_visible [OF _ assms(2)] by (simp add: chart_component_def i_def)
qed

subsection \<open>A chart on screen is current\<close>

definition area_chart_component :: "(rat \<Rightarrow> string) \<Rightarrow> (nat \<Rightarrow> 'd list) \<Rightarrow> x_axis option \<Rightarrow> 'd chart_input list \<Rightarrow> 'd frame \<times> 'd chart_memo" where
  "area_chart_component num_text heap = chart_component (AreaChartDefault num_text heap) heap"

definition line_chart_component :: "(rat \<Rightarrow> string) \<Rightarrow> (nat \<Rightarrow> 'd list) \<Rightarrow> x_axis option \<Rightarrow> 'd chart_input list \<Rightarrow> 'd frame \<times> 'd chart_memo" where
  "line_chart_component num_text heap = chart_component (LineChartDefault num_text heap) heap"

text \<open>
  C37. An area chart that has been on screen through all changes of its inputs shows the current ones:
  after the last input it shows nothing exactly when its source has no data, and else the data of
  the last source, a tooltip with the last filter, and the areas of the last data points, provided
  labels, opacities and the max setting determine the areas.
\<close>
theorem visible_chart_is_current:
  assumes "setting_decides areas (areasKey num_text) (ins @ [j])" and "list_all ci_visible (ins @ [j])"
  shows "case shown_element (snd (area_chart_component num_text heap axis (ins @ [j]))) of
       None \<Rightarrow> heap (ci_source j) = []
     | Some x \<Rightarrow> el_data x = heap (ci_source j) \<and> el_filter x = ch_filter (ci_chart j) \<and> el_series x = areas (input_points j)"
  using component_visible [OF assms, of heap axis] by (simp add: area_chart_component_def AreaChartDefault_def element_shows_def)

lemma visible_line_chart_is_current:
  assumes "setting_decides chart_lines (linesKey num_text) (ins @ [j])" and "list_all ci_visible (ins @ [j])"
  shows "element_shows (shown_element (snd (line_chart_component num_text heap axis (ins @ [j]))))
     (heap (ci_source j)) (ch_filter (ci_chart j)) (chart_lines (input_points j))"
  using component_visible [OF assms, of heap axis] by (simp add: line_chart_component_def LineChartDefault_def)

definition sample_points :: "string \<Rightarrow> nat \<Rightarrow> nat data_point list" where
  \<comment> \<open>one area of the given label that counts in the given unit\<close>
  "sample_points lab k = [data_point lab (\<lambda>d. Some (of_nat (d * k))) (Palette k) (1 / 2)]"

definition sample_input :: "string \<Rightarrow> nat \<Rightarrow> nat \<Rightarrow> bool \<Rightarrow> bool \<Rightarrow> nat chart_input" where
  \<comment> \<open>with the max setting, the areas count in units of two\<close>
  "sample_input lab k n maxT vis =
     \<lparr>ci_chart = (chart_of Area_chart (sample_points lab k) (\<lambda>x. '''') (\<lambda>x. ''''))\<lparr>ch_maxToggled := Some maxT\<rparr>,
      ci_time = (T1h, \<lparr>td_ticks = [], td_domain = [0, 1]\<rparr>), ci_orientation = Right_side, ci_width = 40,
      ci_source = n, ci_visible = vis\<rparr>"

lemma sample_input_simps [simp]:
  "ci_source (sample_input lab k n mt vis) = n" "ci_visible (sample_input lab k n mt vis) = vis"
  "ch_maxToggled (ci_chart (sample_input lab k n mt vis)) = Some mt" "input_points (sample_input lab k n mt vis) = sample_points lab k"
  by (simp_all add: sample_input_def input_points_def chart_of_def)

theorem visible_chart_is_current_witness:
  "map_option (\<lambda>x. (el_data x, map se_stroke (el_series x)))
     (shown_element (snd (area_chart_component (\<lambda>x. ''0.5'') (\<lambda>n. [n]) None
       ([sample_input ''cpu'' 1 0 False True] @ [sample_input ''cpu'' 2 1 True True]))))
   = Some ([1], [Css ''var(--chart-2)''])"
proof -
  have "setting_decides areas (areasKey (\<lambda>x. ''0.5'')) ([sample_input ''cpu'' 1 0 False True] @ [sample_input ''cpu'' 2 1 True True])"
    by (simp add: setting_decides_def)
  moreover have "map se_stroke (areas (sample_points ''cpu'' 2)) = [Css ''var(--chart-2)'']" by code_simp
  ultimately show ?thesis
    using visible_chart_is_current [of "\<lambda>x. ''0.5''" "[sample_input ''cpu'' 1 0 False True]" "sample_input ''cpu'' 2 1 True True" "\<lambda>n. [n]" None]
    by (auto split: option.splits)
qed

text \<open>
  Off screen, a chart with data keeps them. And being on screen throughout is needed: areas that are
  made off screen, with a new label and the max setting, stand under the old setting, and are what
  the chart shows when it comes back with the setting off.
\<close>

lemma hidden_chart_keeps:
  "\<not> ci_visible i \<Longrightarrow> snd (fr_data (fst s)) \<noteq> [] \<Longrightarrow> fst (component_step rend heap i s) = fst s"
  by (simp add: component_step_def display_effect_hidden Let_def)

lemma hidden_chart_stale:
  "map_option (\<lambda>x. map se_stroke (el_series x))
     (shown_element (snd (area_chart_component (\<lambda>x. ''0.5'') (\<lambda>n. [n]) None
       [sample_input ''cpu'' 1 0 False True, sample_input ''load'' 2 0 True False, sample_input ''load'' 1 0 False True])))
   = Some [Css ''var(--chart-2)'']"
  by code_simp

end
