(* ===== verification/Alerts_History.thy ===== *)
theory Alerts_History
  imports Alert_Manager Lib_Settings
begin

section \<open>The alert history: alerts-history-columns.tsx, alerts-history-data-table.tsx\<close>

text \<open>
  The columns' filter, accessor, cell texts and comparators; the realtime list behind the table;
  the row selection, which the table library keys by row index; bulk deletion in batches; the CSV
  export and the global filter. The lemmas show what the list holds after events, that batches
  partition the ids, what the selection refers to after an event, and the columns of the export.
\<close>

subsection \<open>Columns\<close>

definition ah_display :: "alerts_history_record \<Rightarrow> string" where
  \<comment> \<open>expand?.system?.name || system\<close>
  "ah_display r = or_str (ah_system_name r) (ah_system r)"

definition system_filterFn :: "alerts_history_record \<Rightarrow> string \<Rightarrow> bool" where
  "system_filterFn r filterValue = str_includes (to_lower (ah_display r)) (to_lower filterValue)"

definition name_accessor :: "alerts_history_record \<Rightarrow> string" where
  "name_accessor r = or_str (map_option (\<lambda>info. replace_first ''cpu'' ''CPU'' (ai_name info)) (map_of alertInfo (ah_name r)))
     (ah_name r)"

definition value_cell :: "(rat \<Rightarrow> string) \<Rightarrow> alerts_history_record \<Rightarrow> string" where
  \<comment> \<open>num_str is the text React gives a number\<close>
  "value_cell num_str r =
     (if ah_name r = ''Status'' then ''Down''
      else num_str (toFixedFloat (ah_value r) (if ah_value r < 10 then 2 else 1))
             @ (case map_of alertInfo (ah_name r) of Some info \<Rightarrow> ai_unit info | None \<Rightarrow> ''''))"

definition state_sortingFn :: "alerts_history_record \<Rightarrow> alerts_history_record \<Rightarrow> int" where
  "state_sortingFn a b =
     (if str_truthy (ah_resolved a) then 1 else 0) - (if str_truthy (ah_resolved b) then 1 else 0)"

definition state_cell :: "alerts_history_record \<Rightarrow> string" where
  "state_cell r = (if str_truthy (ah_resolved r) then ''Resolved'' else ''Active'')"

definition duration_ms :: "(string \<Rightarrow> int) \<Rightarrow> alerts_history_record \<Rightarrow> int option" where
  \<comment> \<open>get_time is new Date(s).getTime() on readable dates\<close>
  "duration_ms get_time r =
     (if str_truthy (ah_resolved r) then Some (get_time (the (ah_resolved r)) - get_time (ah_created r)) else None)"

definition duration_sortingFn ::
  "(string \<Rightarrow> int) \<Rightarrow> alerts_history_record \<Rightarrow> alerts_history_record \<Rightarrow> int" where
  "duration_sortingFn get_time a b =
     (let aDuration = duration_ms get_time a; bDuration = duration_ms get_time b;
          truthy = (\<lambda>d. d \<noteq> None \<and> d \<noteq> Some 0)
      in if \<not> truthy aDuration \<and> truthy bDuration then - 1
         else if truthy aDuration \<and> \<not> truthy bDuration then 1
         else orelse aDuration 0 - orelse bDuration 0)"

definition duration_cell :: "(string \<Rightarrow> int option) \<Rightarrow> alerts_history_record \<Rightarrow> string option" where
  "duration_cell parse_date r =
     (let duration = formatDuration parse_date (Some (ah_created r)) (ah_resolved r)
      in if duration = '''' then None else Some duration)"

lemma duration_sortingFn_antisym: "duration_sortingFn g a b = - duration_sortingFn g b a"
  by (simp add: duration_sortingFn_def Let_def)

lemma state_sortingFn_antisym: "state_sortingFn a b = - state_sortingFn b a"
  by (simp add: state_sortingFn_def)

lemma system_filterFn_empty: "system_filterFn r ''''"
  by (simp add: system_filterFn_def)

subsection \<open>The list and its events\<close>

definition history_event :: "string \<times> alerts_history_record \<Rightarrow> alerts_history_record list \<Rightarrow> alerts_history_record list" where
  "history_event e data =
     (let r = snd e;
          data = (if fst e = ''create'' then r # data else data);
          data = (if fst e = ''update'' then map (\<lambda>x. if ah_id x = ah_id r then r else x) data else data)
      in if fst e = ''delete'' then filter (\<lambda>x. ah_id x \<noteq> ah_id r) data else data)"

definition history_view :: "alerts_history_record list \<Rightarrow> string \<Rightarrow> alerts_history_record option" where
  "history_view data i = find (\<lambda>r. ah_id r = i) data"

definition history_fresh :: "string \<times> alerts_history_record \<Rightarrow> alerts_history_record list \<Rightarrow> bool" where
  \<comment> \<open>a record is created once, and updated only while it is listed\<close>
  "history_fresh e data \<longleftrightarrow>
     (if fst e = ''create'' then history_view data (ah_id (snd e)) = None
      else if fst e = ''update'' then history_view data (ah_id (snd e)) \<noteq> None else True)"

fun history_run_ok :: "(string \<times> alerts_history_record) list \<Rightarrow> alerts_history_record list \<Rightarrow> bool" where
  "history_run_ok [] data = True"
| "history_run_ok (e # es) data = (history_fresh e data \<and> history_run_ok es (history_event e data))"

lemma find_map_update:
  "(\<And>x. ah_id (f x) = ah_id x) \<Longrightarrow> find (\<lambda>r. ah_id r = i) (map f xs) = map_option f (find (\<lambda>r. ah_id r = i) xs)"
  by (induction xs) auto

lemma find_filter_id:
  "find (\<lambda>r. ah_id r = i) (filter (\<lambda>x. ah_id x \<noteq> j) xs) = (if i = j then None else find (\<lambda>r. ah_id r = i) xs)"
  by (induction xs) auto

lemma history_view_event:
  assumes "history_fresh e data"
  shows "history_view (history_event e data) = feed_step ah_id (\<lambda>_. True) e (history_view data)"
proof (rule ext)
  fix i
  obtain a r where e: "e = (a, r)" by (cases e)
  have upd: "find (\<lambda>x. ah_id x = i) (map (\<lambda>x. if ah_id x = ah_id r then r else x) data)
      = map_option (\<lambda>x. if ah_id x = ah_id r then r else x) (find (\<lambda>x. ah_id x = i) data)"
    by (rule find_map_update) simp
  have id: "ah_id x = i" if "find (\<lambda>x. ah_id x = i) data = Some x" for x
    using that by (auto simp: find_Some_iff)
  consider "a = ''create''" | "a = ''update''" | "a = ''delete''" | "a \<notin> {''create'', ''update'', ''delete''}"
    by blast
  then show "history_view (history_event e data) i = feed_step ah_id (\<lambda>_. True) e (history_view data) i"
  proof cases
    case 1
    then show ?thesis by (simp add: e history_event_def history_view_def feed_step_def)
  next
    case 2
    then have "history_view (history_event e data) i
        = map_option (\<lambda>x. if ah_id x = ah_id r then r else x) (history_view data i)"
      using upd by (simp add: e history_event_def history_view_def)
    moreover have "history_view data (ah_id r) \<noteq> None"
      using assms 2 by (simp add: e history_fresh_def)
    moreover have "feed_step ah_id (\<lambda>_. True) e (history_view data) = (history_view data)(ah_id r \<mapsto> r)"
      using 2 by (simp add: e feed_step_def)
    moreover have "ah_id x = i" if "history_view data i = Some x" for x
      using id that by (simp add: history_view_def)
    ultimately show ?thesis by (cases "history_view data i") auto
  next
    case 3
    then show ?thesis by (simp add: e history_event_def history_view_def feed_step_def find_filter_id)
  next
    case 4
    then show ?thesis by (simp add: e history_event_def feed_step_def)
  qed
qed

lemma history_view_run:
  "history_run_ok es data \<Longrightarrow>
     history_view (fold history_event es data) = feed_replay ah_id (\<lambda>_. True) es (history_view data)"
  by (induction es arbitrary: data) (simp_all add: feed_replay_def history_view_event)

lemma map_ids_update: "map ah_id (map (\<lambda>x. if ah_id x = ah_id r then r else x) data) = map ah_id data"
  by (induction data) auto

lemma history_event_distinct [keeps]:
  assumes "distinct (map ah_id data)" and "history_fresh e data"
  shows "distinct (map ah_id (history_event e data))"
proof -
  obtain a r where e: "e = (a, r)" by (cases e)
  consider "a = ''create''" | "a = ''update''" | "a = ''delete''" | "a \<notin> {''create'', ''update'', ''delete''}"
    by blast
  then show ?thesis
  proof cases
    case 1
    then show ?thesis
      using assms by (auto simp: e history_event_def history_fresh_def history_view_def find_None_iff)
  next
    case 2
    then have "history_event e data = map (\<lambda>x. if ah_id x = ah_id r then r else x) data"
      by (simp add: e history_event_def)
    then show ?thesis using assms(1) by (simp only: map_ids_update)
  next
    case 3
    then show ?thesis using assms(1) by (simp add: e history_event_def distinct_map_filter)
  next
    case 4
    then show ?thesis using assms(1) by (simp add: e history_event_def)
  qed
qed

text \<open>
  C13. The history table's list refines the realtime feed: with every record created once and
  updated only while listed, the list never holds an id twice and shows for each id the replay of
  the events over the loaded page.
\<close>
theorem history_replay:
  assumes "distinct (map ah_id data)" and "history_run_ok es data"
  shows "distinct (map ah_id (fold history_event es data))
     \<and> history_view (fold history_event es data) = feed_replay ah_id (\<lambda>_. True) es (history_view data)"
proof -
  have "distinct (map ah_id (fold history_event es data))"
    using assms
  proof (induction es arbitrary: data)
    case (Cons e es)
    then show ?case using history_event_distinct [of data e] by simp
  qed simp
  then show ?thesis using history_view_run [OF assms(2)] by simp
qed

definition sample_history :: "string \<Rightarrow> rat \<Rightarrow> alerts_history_record" where
  "sample_history i v = \<lparr>ah_id = i, ah_system = ''s'', ah_system_name = Some ''alpha'', ah_name = ''CPU'', ah_value = v,
     ah_created = ''c'', ah_resolved = None\<rparr>"

theorem history_replay_witness:
  "distinct (map ah_id (fold history_event [(''create'', sample_history ''b'' 2), (''update'', sample_history ''a'' 3)]
       [sample_history ''a'' 1]))
     \<and> history_view (fold history_event [(''create'', sample_history ''b'' 2), (''update'', sample_history ''a'' 3)]
         [sample_history ''a'' 1])
       = feed_replay ah_id (\<lambda>_. True) [(''create'', sample_history ''b'' 2), (''update'', sample_history ''a'' 3)]
           (history_view [sample_history ''a'' 1])"
  by (rule history_replay) (simp_all add: sample_history_def history_fresh_def history_view_def history_event_def)

subsection \<open>Selection\<close>

definition selected_ids :: "nat list \<Rightarrow> alerts_history_record list \<Rightarrow> string list" where
  \<comment> \<open>the ids of the selected rows; without a getRowId the table library keys rows by index\<close>
  "selected_ids rowSelection data =
     map (\<lambda>i. ah_id (data ! i)) (filter (\<lambda>i. i \<in> set rowSelection) [0..<length data])"

text \<open>
  The selection is by position, not by record: when a new alert arrives, a table with one
  selected row has the row before it selected instead (the new alert for the first row), and that
  is the one a bulk deletion then deletes.
\<close>
theorem selection_shifts_on_create:
  assumes "i < length data"
  shows "selected_ids [i] data = [ah_id (data ! i)]
     \<and> selected_ids [i] (history_event (''create'', r) data) = [if i = 0 then ah_id r else ah_id (data ! (i - 1))]"
proof -
  have f: "filter (\<lambda>k. k \<in> set [i]) [0..<n] = (if i < n then [i] else [])" for n
    by (induction n) auto
  show ?thesis
    using assms unfolding selected_ids_def f by (cases i) (simp_all add: history_event_def)
qed

theorem selection_shifts_on_create_witness:
  "selected_ids [1] [sample_history ''a'' 1, sample_history ''b'' 1] = [ah_id ([sample_history ''a'' 1, sample_history ''b'' 1] ! 1)]
     \<and> selected_ids [1] (history_event (''create'', sample_history ''c'' 1) [sample_history ''a'' 1, sample_history ''b'' 1])
       = [if (1 :: nat) = 0 then ah_id (sample_history ''c'' 1)
          else ah_id ([sample_history ''a'' 1, sample_history ''b'' 1] ! (1 - 1))]"
  by (rule selection_shifts_on_create) simp

subsection \<open>Bulk deletion\<close>

text \<open>Batches sent, and the current one; send is awaited before the loop goes on.\<close>

fun delete_loop :: "string list \<Rightarrow> string list \<Rightarrow> string list list" where
  "delete_loop cur [] = (if cur \<noteq> [] then [cur] else [])"
| "delete_loop cur (i # ids) =
     (let cur = cur @ [i]; inBatch = length cur
      in if 20 < inBatch then cur # delete_loop [] ids else delete_loop cur ids)"

definition handleBulkDelete :: "string list \<Rightarrow> string list list" where
  \<comment> \<open>the batches sent when every request succeeds\<close>
  "handleBulkDelete selectedIds = delete_loop [] selectedIds"

lemma concat_delete_loop: "concat (delete_loop b ids) = b @ ids"
  by (induction ids arbitrary: b) (simp_all add: Let_def)

lemma delete_loop_lengths:
  "length b \<le> 20 \<Longrightarrow> list_all (\<lambda>x. 0 < length x \<and> length x \<le> 21) (delete_loop b ids)"
proof (induction ids arbitrary: b)
  case Nil
  then show ?case by auto
next
  case (Cons i ids)
  then show ?case using Cons.IH [of "b @ [i]"] Cons.IH [of "[]"] by (simp add: Let_def)
qed

lemma delete_loop_full:
  "length b \<le> 20 \<Longrightarrow> list_all (\<lambda>x. length x = 21) (butlast (delete_loop b ids))"
proof (induction ids arbitrary: b)
  case Nil
  then show ?case by auto
next
  case (Cons i ids)
  then show ?case using Cons.IH [of "b @ [i]"] Cons.IH [of "[]"] by (simp add: Let_def)
qed

text \<open>
  Bulk deletion deletes each selected record once: the batches concatenate to the selected
  ids in order, none is empty or holds more than 21, and all but the last hold exactly 21.
\<close>
theorem bulk_delete_batches:
  "concat (handleBulkDelete ids) = ids \<and> list_all (\<lambda>b. 0 < length b \<and> length b \<le> 21) (handleBulkDelete ids)
   \<and> list_all (\<lambda>b. length b = 21) (butlast (handleBulkDelete ids))"
  using delete_loop_lengths [of "[]" ids] delete_loop_full [of "[]" ids]
  by (simp add: handleBulkDelete_def concat_delete_loop)

subsection \<open>CSV export\<close>

definition csv_header :: "string list" where
  "csv_header = [''system'', ''name'', ''value'', ''state'', ''created'', ''resolved'', ''duration'']"

definition csv_cells ::
  "(rat \<Rightarrow> string) \<Rightarrow> (string \<Rightarrow> string) \<Rightarrow> (string \<Rightarrow> int option) \<Rightarrow> alerts_history_record \<Rightarrow> string list" where
  \<comment> \<open>formatShortDate and the reading of dates are arguments\<close>
  "csv_cells num_str formatShortDate parse_date r =
     [or_str (ah_system_name r) (ah_system r),
      or_str (map_option ai_name (map_of alertInfo (ah_name r))) (ah_name r),
      num_str (ah_value r) @ orelse (map_option ai_unit (map_of alertInfo (ah_name r))) '''',
      (if str_truthy (ah_resolved r) then ''Resolved'' else ''Active''),
      formatShortDate (ah_created r),
      (if str_truthy (ah_resolved r) then formatShortDate (the (ah_resolved r)) else ''''),
      (if str_truthy (ah_resolved r) then formatDuration parse_date (Some (ah_created r)) (ah_resolved r) else '''')]"

definition handleExportCSV ::
  "(rat \<Rightarrow> string) \<Rightarrow> (string \<Rightarrow> string) \<Rightarrow> (string \<Rightarrow> int option) \<Rightarrow> alerts_history_record list \<Rightarrow> string option" where
  \<comment> \<open>the content of the file, None when nothing is selected\<close>
  "handleExportCSV num_str fsd parse_date selectedRows =
     (if selectedRows = [] then None
      else Some (join [CHR 0x0A] (join '','' csv_header
             # map (\<lambda>r. join '','' (csv_cells num_str fsd parse_date r)) selectedRows)))"

text \<open>
  A row of the exported CSV has as many columns as the header plus one for every comma in a
  cell, since cells are not quoted: seven exactly when no name, unit or date contains a comma.
\<close>
theorem csv_row_columns:
  "length (split_on (CHR '','') (join '','' (csv_cells num_str fsd pd r)))
     = length csv_header + sum_list (map (\<lambda>c. count_list c (CHR '','')) (csv_cells num_str fsd pd r))"
  by (subst length_split_on, subst count_list_join) (simp_all add: csv_cells_def csv_header_def)

lemma csv_row_columns_short_date:
  \<comment> \<open>Intl writes a short date with time as in Jan 5, 10:30 AM\<close>
  "length (split_on (CHR '','') (join '','' (csv_cells num_str (\<lambda>_. ''Jan 5, 10:30 AM'') pd (sample_history ''a'' 1)))) > 7
     \<or> CHR '','' \<notin> set ''Jan 5, 10:30 AM''"
  unfolding csv_row_columns by (simp add: csv_cells_def csv_header_def sample_history_def)

lemma csv_round_trip:
  "(\<And>c. c \<in> set (csv_cells num_str fsd pd r) \<Longrightarrow> CHR '','' \<notin> set c) \<Longrightarrow>
     split_on (CHR '','') (join '','' (csv_cells num_str fsd pd r)) = csv_cells num_str fsd pd r"
  by (rule split_on_join) (simp_all add: csv_cells_def)

subsection \<open>Filters\<close>

definition history_globalFilterFn :: "(string \<Rightarrow> string) \<Rightarrow> alerts_history_record \<Rightarrow> string \<Rightarrow> bool" where
  \<comment> \<open>the columns name and created hold the accessor's name and the short date\<close>
  "history_globalFilterFn formatShortDate r filterValue =
     (let system = orelse (ah_system_name r) '''';
          name = name_accessor r;
          created = formatShortDate (ah_created r);
          search = to_lower filterValue
      in str_includes (to_lower system) search \<or> str_includes (to_lower name) search
         \<or> str_includes (to_lower created) search)"

lemma history_globalFilterFn_case: "to_lower f = to_lower g \<Longrightarrow>
   history_globalFilterFn fsd r f = history_globalFilterFn fsd r g"
  by (simp add: history_globalFilterFn_def Let_def)

definition page_sizes :: "nat list" where
  "page_sizes = [10, 20, 50, 100, 200]"

end
