(* ===== verification/Systems_View.thy ===== *)
theory Systems_View
  imports Systems_Manager Systems_Table
begin

section \<open>What the systems table renders: systems-table.tsx, systems-table-columns.tsx\<close>

text \<open>
  The column definitions with their headers and the menus for sorting and visible fields; the rows
  of the virtual table with the padding around them, the cards of the grid, and the memo of both;
  the actions of a row, kept by React under the row's key while other systems come and go. The
  lemmas show that the two ways to sort agree, that the padding stands exactly for the rows not
  drawn, that the memoized row is never stale, and which system a confirmed deletion deletes.
\<close>

subsection \<open>Columns\<close>

datatype icon = MoreHorizontalIcon | CpuIcon | MemoryStickIcon | HardDriveIcon | GpuIcon | HourglassIcon
  | EthernetIcon | ClockArrowUp | EyeIcon | ArrowUpIcon | ArrowDownIcon | ArrowUpDownIcon

record name_cell =
  nc_dot :: string
  nc_width :: rat
  nc_name :: string
  nc_title :: "string option"

definition system_name_cell :: "rat \<Rightarrow> bool \<Rightarrow> system_record \<Rightarrow> name_cell" where
  \<comment> \<open>the width in characters; the title that hovering sets when the text is cut off\<close>
  "system_name_cell longestName truncated system =
     \<lparr>nc_dot = indicator_class None system, nc_width = longestName / (105 / 100), nc_name = sys_name system,
      nc_title = (if truncated then Some (sys_name system) else None)\<rparr>"

text \<open>
  What the cells read besides the row: number formatting, the settings, the longest name, and the
  browser's answer whether a name is cut off.
\<close>

record cell_context =
  cx_decimal :: "rat \<Rightarrow> nat \<Rightarrow> string"
  cx_toLocale :: "int \<Rightarrow> string"
  cx_settings :: display_settings
  cx_longestName :: rat
  cx_truncated :: "string \<Rightarrow> bool"

datatype cell_content =
    Name_cell name_cell
  | Meter_cell "string \<times> string \<times> rat"
  | Disk_cell disk_cell
  | Load_cell "(string list \<times> string list) option"
  | Text_cell "string option"
  | Buttons_cell string  \<comment> \<open>the bell and the menu of the system with this id\<close>

type_synonym column_cell = "cell_context \<Rightarrow> system_record \<Rightarrow> cell_content"

definition meter_cell :: "system_column \<Rightarrow> column_cell" where
  "meter_cell col cx system =
     Meter_cell (TableCellWithMeter (cx_decimal cx) (cx_settings cx) (sys_status system) (column_accessor col system))"

definition disk_column_cell :: column_cell where
  \<comment> \<open>an object, even an empty one, is truthy\<close>
  "disk_column_cell cx system =
     (if si_efs (sys_info system) \<noteq> None
      then Disk_cell (DiskCellWithMultiple (cx_decimal cx) (cx_settings cx) (sys_status system) (sys_info system))
      else meter_cell Col_disk cx system)"

definition sample_context :: cell_context where
  "sample_context = \<lparr>cx_decimal = (\<lambda>v n. ''''), cx_toLocale = (\<lambda>n. ''''), cx_settings = \<lparr>ds_chartTime = T1h,
     ds_unitNet = None, ds_unitDisk = None, ds_colorWarn = None, ds_colorCrit = None, ds_hourFormat = None\<rparr>,
     cx_longestName = 8, cx_truncated = (\<lambda>n. False)\<rparr>"

datatype column_value = Name_value | Number_value system_column

record column_def =
  cd_id :: string
  cd_name :: string
  cd_accessor :: "column_value option"
  cd_cell :: column_cell
  cd_sortableHeader :: bool
  cd_hideSort :: bool
  cd_enableHiding :: "bool option"
  cd_invertSorting :: "bool option"
  cd_size :: "nat option"
  cd_Icon :: "icon option"

definition number_column :: "string \<Rightarrow> string \<Rightarrow> icon \<Rightarrow> system_column \<Rightarrow> column_cell \<Rightarrow> column_def" where
  \<comment> \<open>a column with an accessor, a cell, an icon and the sortable header\<close>
  "number_column i n ic col cell = \<lparr>cd_id = i, cd_name = n, cd_accessor = Some (Number_value col), cd_cell = cell,
     cd_sortableHeader = True, cd_hideSort = False, cd_enableHiding = None, cd_invertSorting = None, cd_size = None,
     cd_Icon = Some ic\<rparr>"

definition SystemsTableColumns :: "column_def list" where
  \<comment> \<open>the filter of the system column is system_filter, its order that of the names\<close>
  "SystemsTableColumns =
     [\<lparr>cd_id = ''system'', cd_name = ''System'', cd_accessor = Some Name_value,
       cd_cell = (\<lambda>cx s. Name_cell (system_name_cell (cx_longestName cx) (cx_truncated cx (sys_name s)) s)),
       cd_sortableHeader = True, cd_hideSort = False, cd_enableHiding = Some False, cd_invertSorting = Some False,
       cd_size = Some 100, cd_Icon = Some MoreHorizontalIcon\<rparr>,
      number_column ''cpu'' ''CPU'' CpuIcon Col_cpu (meter_cell Col_cpu),
      number_column ''memory'' ''Memory'' MemoryStickIcon Col_memory (meter_cell Col_memory),
      number_column ''disk'' ''Disk'' HardDriveIcon Col_disk disk_column_cell,
      number_column ''gpu'' ''GPU'' GpuIcon Col_gpu (meter_cell Col_gpu),
      (number_column ''loadAverage'' ''Load Avg'' HourglassIcon Col_loadAverage
         (\<lambda>cx s. Load_cell (load_cell (cx_decimal cx) (cx_settings cx) s)))\<lparr>cd_size := Some 0\<rparr>,
      (number_column ''net'' ''Net'' EthernetIcon Col_net
         (\<lambda>cx s. Text_cell (system_net_cell (cx_decimal cx) (cx_settings cx) (column_accessor Col_net s))))
        \<lparr>cd_size := Some 0\<rparr>,
      (number_column ''uptime'' ''Uptime'' ClockArrowUp Col_uptime
         (\<lambda>cx s. Text_cell (uptime_cell (cx_toLocale cx) (column_accessor Col_uptime s))))
        \<lparr>cd_size := Some 50, cd_hideSort := True\<rparr>,
      \<lparr>cd_id = ''actions'', cd_name = ''Actions'', cd_accessor = None, cd_cell = (\<lambda>cx s. Buttons_cell (sys_id s)),
       cd_sortableHeader = False, cd_hideSort = False, cd_enableHiding = None, cd_invertSorting = None,
       cd_size = Some 50, cd_Icon = None\<rparr>]"

definition column_size :: "column_def \<Rightarrow> nat" where
  \<comment> \<open>the table's defaultColumn has size 900\<close>
  "column_size c = orelse (cd_size c) 900"

definition column_inverts :: "column_def \<Rightarrow> bool" where
  \<comment> \<open>the table's defaultColumn has invertSorting\<close>
  "column_inverts c = orelse (cd_invertSorting c) True"

lemma columns_distinct: "distinct (map cd_id SystemsTableColumns)"
  by (simp add: SystemsTableColumns_def number_column_def)

subsection \<open>Sorting: the header and the menu\<close>

type_synonym sorting = "(string \<times> bool) list"

definition getIsSorted :: "string \<Rightarrow> sorting \<Rightarrow> bool option" where
  \<comment> \<open>whether the column sorts and whether descending (documented of the table)\<close>
  "getIsSorted column s = map_of s column"

record sortable_header =
  sh_highlight :: bool
  sh_Icon :: "icon option"
  sh_name :: string
  sh_arrows :: bool
  sh_onClick :: bool  \<comment> \<open>the argument of toggleSorting: whether to sort descending\<close>

definition sortableHeader :: "column_def \<Rightarrow> sorting \<Rightarrow> sortable_header" where
  "sortableHeader c s =
     (let isSorted = getIsSorted (cd_id c) s
      in \<lparr>sh_highlight = isSorted \<noteq> None, sh_Icon = cd_Icon c, sh_name = cd_name c, sh_arrows = (\<not> cd_hideSort c),
          sh_onClick = isSorted = Some False\<rparr>)"

definition click_header :: "column_def \<Rightarrow> sorting \<Rightarrow> sorting" where
  \<comment> \<open>column.toggleSorting(desc) sorts by this column only (documented of the table)\<close>
  "click_header c s = [(cd_id c, sh_onClick (sortableHeader c s))]"

definition sort_menu :: "column_def list \<Rightarrow> sorting \<Rightarrow> (string \<times> string \<times> icon option) list" where
  \<comment> \<open>id, name and arrow of each entry; columns without an accessor cannot sort\<close>
  "sort_menu columns s = map (\<lambda>c. (cd_id c, cd_name c,
       if at_idx (map fst s) 0 = Some (cd_id c)
       then (if at_idx (map snd s) 0 = Some True then Some ArrowUpIcon else Some ArrowDownIcon) else None))
     (filter (\<lambda>c. cd_accessor c \<noteq> None) columns)"

lemma header_agrees_with_menu:
  assumes "length s \<le> 1"
  shows "click_header c s = sort_menu_select (cd_id c) s"
proof (cases s)
  case (Cons p ps)
  then show ?thesis using assms
    by (cases p) (auto simp: click_header_def sortableHeader_def getIsSorted_def sort_menu_select_def Let_def)
qed (simp add: click_header_def sortableHeader_def getIsSorted_def sort_menu_select_def Let_def)

lemma sorting_of_clicks:
  "length s \<le> 1 \<Longrightarrow> length (fold (\<lambda>(c, menu). if menu then sort_menu_select (cd_id c) else click_header c) clicks s) \<le> 1"
  by (induction clicks arbitrary: s) (auto simp: click_header_def sort_menu_select_def)

text \<open>
  Sorting is by one column at a time: whether a column is chosen by its header or in the menu makes
  no difference, for any run of clicks from a stored sorting of one column.
\<close>
theorem header_and_menu_sort_alike:
  assumes "length s \<le> 1"
  shows "fold (\<lambda>(c, menu). if menu then sort_menu_select (cd_id c) else click_header c) clicks s
     = fold (\<lambda>(c, menu). sort_menu_select (cd_id c)) clicks s"
  using assms
proof (induction clicks arbitrary: s)
  case (Cons p clicks)
  then show ?case
    using header_agrees_with_menu [OF Cons.prems, of "fst p"] sorting_of_clicks [OF Cons.prems, of "[p]"]
    by (cases p) (auto simp: sort_menu_select_def)
qed simp

theorem header_and_menu_sort_alike_witness:
  "fold (\<lambda>(c, menu). if menu then sort_menu_select (cd_id c) else click_header c)
      [(number_column ''cpu'' ''CPU'' CpuIcon Col_cpu (meter_cell Col_cpu), False), (number_column ''cpu'' ''CPU'' CpuIcon Col_cpu (meter_cell Col_cpu), True)] [(''system'', False)]
   = [(''cpu'', True)]"
  using header_and_menu_sort_alike [of "[(''system'', False)]"
    "[(number_column ''cpu'' ''CPU'' CpuIcon Col_cpu (meter_cell Col_cpu), False), (number_column ''cpu'' ''CPU'' CpuIcon Col_cpu (meter_cell Col_cpu), True)]"]
  by (simp add: sort_menu_select_def number_column_def)

subsection \<open>Visible fields\<close>

definition visibleColumns :: "(string \<Rightarrow> bool) \<Rightarrow> column_def list \<Rightarrow> column_def list" where
  "visibleColumns isVisible columns = filter (\<lambda>c. isVisible (cd_id c)) columns"

definition fields_menu :: "(string \<Rightarrow> bool) \<Rightarrow> column_def list \<Rightarrow> (string \<times> bool) list" where
  \<comment> \<open>the name of each entry and whether it is checked; a column hides unless it says it does not\<close>
  "fields_menu isVisible columns =
     map (\<lambda>c. (cd_name c, isVisible (cd_id c))) (filter (\<lambda>c. orelse (cd_enableHiding c) True) columns)"

definition one_toggle :: "(string \<Rightarrow> bool) \<Rightarrow> (string \<Rightarrow> bool) \<Rightarrow> bool" where
  \<comment> \<open>documented of toggleVisibility: it changes the visibility of its own column only\<close>
  "one_toggle v w \<longleftrightarrow> (\<exists>c b. w = v(c := b))"

lemma one_toggle_length:
  assumes "one_toggle v w" and "distinct (map cd_id columns)"
    and "length (visibleColumns v columns) = length (visibleColumns w columns)"
  shows "visibleColumns v columns = visibleColumns w columns"
proof -
  obtain c b where w: "w = v(c := b)" using assms(1) by (auto simp: one_toggle_def)
  have "w = v" if ex: "\<exists>x \<in> set columns. cd_id x = c"
  proof (rule ccontr)
    assume "w \<noteq> v"
    then have b: "b = (\<not> v c)" by (cases "b = v c") (auto simp: w fun_upd_idem)
    obtain x where x: "x \<in> set columns" "cd_id x = c" using ex by blast
    then obtain as bs where cols: "columns = as @ x # bs" by (auto dest: split_list)
    have "cd_id y \<noteq> c" if "y \<in> set as \<union> set bs" for y
      using assms(2) x(2) that by (auto simp: cols) (metis imageI)+
    then have "visibleColumns w as = visibleColumns v as" "visibleColumns w bs = visibleColumns v bs"
      by (auto simp: visibleColumns_def w intro!: filter_cong)
    then show False using assms(3) x(2) b by (auto simp: cols visibleColumns_def w split: if_splits)
  qed
  moreover have "visibleColumns w columns = visibleColumns v columns" if "\<not> (\<exists>x \<in> set columns. cd_id x = c)"
    using that by (auto simp: visibleColumns_def w intro!: filter_cong)
  ultimately show ?thesis by metis
qed

subsection \<open>A row of the table and its memo: SystemTableRow\<close>

record table_row =
  tr_dimmed :: bool
  tr_cells :: "(string \<times> nat \<times> cell_content) list"  \<comment> \<open>column, width, content\<close>

definition row_element :: "cell_context \<Rightarrow> system_record \<Rightarrow> column_def list \<Rightarrow> table_row" where
  "row_element cx system visible =
     \<lparr>tr_dimmed = (sys_status system = Paused),
      tr_cells = map (\<lambda>c. (cd_id c, column_size c, cd_cell c cx system)) visible\<rparr>"

record row_deps =
  rd_system :: system_record
  rd_status :: system_status
  rd_colLength :: nat

definition SystemTableRow ::
  "cell_context \<Rightarrow> system_record \<Rightarrow> column_def list \<Rightarrow>
   (row_deps \<times> table_row) option \<Rightarrow> (row_deps \<times> table_row) option" where
  \<comment> \<open>a rendering with useMemo: the element of before unless a dependency changed; colLength is the
      number of visible columns\<close>
  "SystemTableRow cx system visible memo =
     (let deps = \<lparr>rd_system = system, rd_status = sys_status system, rd_colLength = length visible\<rparr>
      in case memo of
           Some (old, element) \<Rightarrow> if old = deps then memo else Some (deps, row_element cx system visible)
         | None \<Rightarrow> Some (deps, row_element cx system visible))"

fun toggles_from :: "(string \<Rightarrow> bool) \<Rightarrow> (system_record \<times> (string \<Rightarrow> bool)) list \<Rightarrow> bool" where
  \<comment> \<open>between two renderings at most one column was toggled\<close>
  "toggles_from v [] = True"
| "toggles_from v ((sys, w) # rs) = (one_toggle v w \<and> toggles_from w rs)"

definition render_row ::
  "cell_context \<Rightarrow> column_def list \<Rightarrow> system_record \<times> (string \<Rightarrow> bool) \<Rightarrow>
   (row_deps \<times> table_row) option \<Rightarrow> (row_deps \<times> table_row) option" where
  "render_row cx columns r = SystemTableRow cx (fst r) (visibleColumns (snd r) columns)"

definition memo_of :: "cell_context \<Rightarrow> column_def list \<Rightarrow> system_record \<times> (string \<Rightarrow> bool) \<Rightarrow>
   (row_deps \<times> table_row) option" where
  "memo_of cx columns r = render_row cx columns r None"

lemma render_row_step:
  assumes "distinct (map cd_id columns)" and "one_toggle (snd r) (snd r')"
  shows "render_row cx columns r' (memo_of cx columns r) = memo_of cx columns r'"
  using one_toggle_length [OF assms(2,1)]
  by (auto simp: memo_of_def render_row_def SystemTableRow_def Let_def)

text \<open>
  The row's memo depends on the number of visible columns instead of the columns. That is enough:
  when columns are shown and hidden one at a time, whatever becomes of the system meanwhile, the
  row shown is the one of the current system and the current columns.
\<close>
theorem memoized_row_is_current:
  assumes "toggles_from (snd r) rs"
  shows "map_option snd (fold (render_row cx SystemsTableColumns) rs (memo_of cx SystemsTableColumns r))
     = Some (row_element cx (fst (last (r # rs))) (visibleColumns (snd (last (r # rs))) SystemsTableColumns))"
proof -
  have "toggles_from (snd r) rs \<Longrightarrow> fold (render_row cx SystemsTableColumns) rs (memo_of cx SystemsTableColumns r)
      = memo_of cx SystemsTableColumns (last (r # rs))" for r rs
  proof (induction rs arbitrary: r)
    case (Cons r' rs)
    then show ?case using render_row_step [OF columns_distinct, of r r'] by (cases r') auto
  qed simp
  then show ?thesis using assms by (simp add: memo_of_def render_row_def SystemTableRow_def Let_def)
qed

theorem memoized_row_is_current_witness:
  "map_option (map fst \<circ> tr_cells \<circ> snd) (fold (render_row sample_context SystemsTableColumns)
      [(sample_system ''a'' ''web'' Up, \<lambda>c. c \<noteq> ''cpu''), (sample_system ''a'' ''web'' Up, \<lambda>c. True)]
      (memo_of sample_context SystemsTableColumns (sample_system ''a'' ''web'' Up, \<lambda>c. True)))
   = Some (map cd_id SystemsTableColumns)"
proof -
  let ?r = "(sample_system ''a'' ''web'' Up, \<lambda>c. True)"
  let ?rs = "[(sample_system ''a'' ''web'' Up, \<lambda>c. c \<noteq> ''cpu''), ?r]"
  have "one_toggle (\<lambda>c. True) (\<lambda>c. c \<noteq> ''cpu'')" unfolding one_toggle_def
    by (intro exI [of _ "''cpu''"] exI [of _ False] ext) simp
  moreover have "one_toggle (\<lambda>c. c \<noteq> ''cpu'') (\<lambda>c. True)" unfolding one_toggle_def
    by (intro exI [of _ "''cpu''"] exI [of _ True] ext) simp
  ultimately have "toggles_from (snd ?r) ?rs" by simp
  from memoized_row_is_current [OF this, of sample_context] show ?thesis
    by (auto simp: row_element_def visibleColumns_def comp_def)
qed

subsection \<open>A card of the grid: SystemCard\<close>

record system_card =
  sc_dimmed :: bool
  sc_dot :: string
  sc_name :: string
  sc_actions :: bool
  sc_fields :: "(string \<times> icon option \<times> string \<times> cell_content) list"

definition SystemCard ::
  "cell_context \<Rightarrow> (string \<Rightarrow> bool) \<Rightarrow> column_def list \<Rightarrow> column_def list \<Rightarrow> system_record \<Rightarrow> system_card" where
  \<comment> \<open>the cells of the row are given by their columns\<close>
  "SystemCard cx isVisible columns cells system =
     \<lparr>sc_dimmed = (sys_status system = Paused), sc_dot = indicator_class None system, sc_name = sys_name system,
      sc_actions = (''actions'' \<in> cd_id ` set columns \<and> isVisible ''actions''),
      sc_fields = concat (map (\<lambda>c.
        if \<not> isVisible (cd_id c) \<or> cd_id c = ''system'' \<or> cd_id c = ''actions'' then []
        else (case find (\<lambda>d. cd_id d = cd_id c) cells of
            None \<Rightarrow> []
          | Some d \<Rightarrow> [(cd_id c, if cd_id c = ''lastSeen'' then Some EyeIcon else cd_Icon c, cd_name c @ '':'', cd_cell d cx system)]))
        columns)\<rparr>"

lemma find_column: "distinct (map cd_id cs) \<Longrightarrow> c \<in> set cs \<Longrightarrow> find (\<lambda>d. cd_id d = cd_id c) cs = Some c"
  by (induction cs) auto

text \<open>
  A card shows what the row shows: with the table's columns, its fields are the cells of the row
  except name and actions, each once and in the same order, and it is dimmed when the row is.
\<close>
theorem card_shows_the_row:
  "map (\<lambda>(i, icon, label, e). (i, e)) (sc_fields (SystemCard cx isVisible SystemsTableColumns SystemsTableColumns system))
     = filter (\<lambda>(i, e). i \<noteq> ''system'' \<and> i \<noteq> ''actions'')
         (map (\<lambda>(i, w, e). (i, e)) (tr_cells (row_element cx system (visibleColumns isVisible SystemsTableColumns))))
   \<and> sc_dimmed (SystemCard cx isVisible SystemsTableColumns SystemsTableColumns system)
     = tr_dimmed (row_element cx system (visibleColumns isVisible SystemsTableColumns))"
proof -
  have "set columns \<subseteq> set SystemsTableColumns \<Longrightarrow>
     map (\<lambda>(i, icon, label, e). (i, e)) (sc_fields (SystemCard cx isVisible columns SystemsTableColumns system))
     = filter (\<lambda>(i, e). i \<noteq> ''system'' \<and> i \<noteq> ''actions'')
         (map (\<lambda>(i, w, e). (i, e)) (tr_cells (row_element cx system (visibleColumns isVisible columns))))" for columns
    by (induction columns) (auto simp: SystemCard_def row_element_def visibleColumns_def find_column [OF columns_distinct])
  then show ?thesis by (simp add: SystemCard_def row_element_def)
qed

subsection \<open>The virtual rows: AllSystemsTable\<close>

record virtual_item =
  vi_index :: nat
  vi_start :: int
  vi_end :: int

definition estimateSize :: "nat \<Rightarrow> int" where
  "estimateSize rows = (if 10 < rows then 56 else 60)"

definition paddingTop :: "virtual_item list \<Rightarrow> int \<Rightarrow> int" where
  \<comment> \<open>a ?? 0 - b is a ?? (0 - b)\<close>
  "paddingTop virtualRows scrollMargin =
     max 0 (case virtualRows of [] \<Rightarrow> 0 - scrollMargin | v # _ \<Rightarrow> vi_start v)"

definition paddingBottom :: "virtual_item list \<Rightarrow> int \<Rightarrow> int" where
  "paddingBottom virtualRows totalSize =
     max 0 (totalSize - (case at_last virtualRows of None \<Rightarrow> 0 | Some v \<Rightarrow> vi_end v))"

definition virtualized :: "int list \<Rightarrow> nat \<Rightarrow> nat \<Rightarrow> virtual_item list" where
  \<comment> \<open>documented of the virtualizer without scroll margin: its items are consecutive rows, each where
      the sizes of the rows before it end\<close>
  "virtualized sizes a b =
     map (\<lambda>i. \<lparr>vi_index = i, vi_start = sum_list (take i sizes), vi_end = sum_list (take (Suc i) sizes)\<rparr>) [a..<b]"

record 'r table_body =
  tb_height :: int
  tb_padding :: "int \<times> int"
  tb_minHeight :: bool
  tb_rows :: "('r \<times> int) list"  \<comment> \<open>a row and its height\<close>
  tb_message :: "nat option"  \<comment> \<open>the columns spanned by the message that there are no rows\<close>

definition virtual_table :: "int \<Rightarrow> virtual_item list \<Rightarrow> int \<Rightarrow> int \<Rightarrow> 'r list \<Rightarrow> nat \<Rightarrow> 'r table_body" where
  \<comment> \<open>the body of a virtual table under a header of the given height\<close>
  "virtual_table header virtualRows scrollMargin totalSize rows colLength =
     \<lparr>tb_height = totalSize + header,
      tb_padding = (paddingTop virtualRows scrollMargin, paddingBottom virtualRows totalSize),
      tb_minHeight = (rows = [] \<or> 2 < length rows),
      tb_rows = (if rows = [] then [] else map (\<lambda>v. (rows ! vi_index v, vi_end v - vi_start v)) virtualRows),
      tb_message = (if rows = [] then Some colLength else None)\<rparr>"

abbreviation AllSystemsTable :: "virtual_item list \<Rightarrow> int \<Rightarrow> int \<Rightarrow> 'r list \<Rightarrow> nat \<Rightarrow> 'r table_body" where
  "AllSystemsTable \<equiv> virtual_table 50"

lemma sum_list_take_Suc: "i < length xs \<Longrightarrow> sum_list (take (Suc i) xs) = sum_list (take i xs) + (xs ! i :: int)"
  by (simp add: take_Suc_conv_app_nth)

lemma virtualized_heights:
  "b \<le> length sizes \<Longrightarrow> map (\<lambda>v. vi_end v - vi_start v) (virtualized sizes a b) = map ((!) sizes) [a..<b]"
  by (auto simp: virtualized_def sum_list_take_Suc)

lemma sum_list_upt: "a \<le> b \<Longrightarrow> b \<le> length sizes \<Longrightarrow>
   sum_list (take a sizes) + sum_list (map ((!) sizes) [a..<b]) = sum_list (take b (sizes :: int list))"
  by (induction b) (auto simp: le_Suc_eq sum_list_take_Suc)

lemma sum_list_take_le: "list_all (\<lambda>x. 0 \<le> x) sizes \<Longrightarrow> sum_list (take b (sizes :: int list)) \<le> sum_list sizes"
proof -
  assume "list_all (\<lambda>x. 0 \<le> x) sizes"
  then have "0 \<le> sum_list (drop b sizes)" by (intro sum_list_nonneg) (auto simp: list_all_iff dest: in_set_dropD)
  moreover have "sum_list sizes = sum_list (take b sizes) + sum_list (drop b sizes)"
    by (metis append_take_drop_id sum_list_append)
  ultimately show ?thesis by simp
qed

lemma sum_list_take_nonneg: "list_all (\<lambda>x. 0 \<le> x) sizes \<Longrightarrow> 0 \<le> sum_list (take b (sizes :: int list))"
  by (intro sum_list_nonneg) (auto simp: list_all_iff dest: in_set_takeD)

lemma padding_exact:
  assumes "a < b" and "b \<le> length sizes" and "list_all (\<lambda>x. 0 \<le> x) sizes"
  shows "paddingTop (virtualized sizes a b) 0 = sum_list (take a sizes)"
    and "paddingBottom (virtualized sizes a b) (sum_list sizes) = sum_list sizes - sum_list (take b sizes)"
proof -
  have "virtualized sizes a b = \<lparr>vi_index = a, vi_start = sum_list (take a sizes), vi_end = sum_list (take (Suc a) sizes)\<rparr>
      # virtualized sizes (Suc a) b"
    using assms(1) by (simp add: virtualized_def upt_conv_Cons)
  then show "paddingTop (virtualized sizes a b) 0 = sum_list (take a sizes)"
    using sum_list_take_nonneg [OF assms(3)] by (simp add: paddingTop_def)
  have "last (virtualized sizes a b) = \<lparr>vi_index = b - 1, vi_start = sum_list (take (b - 1) sizes), vi_end = sum_list (take b sizes)\<rparr>"
    using assms(1) by (simp add: virtualized_def last_map)
  moreover have "virtualized sizes a b \<noteq> []" using assms(1) by (simp add: virtualized_def)
  ultimately show "paddingBottom (virtualized sizes a b) (sum_list sizes) = sum_list sizes - sum_list (take b sizes)"
    using sum_list_take_le [OF assms(3), of b] by (simp add: paddingBottom_def at_last_def)
qed

text \<open>
  C40. The table is as high as all its rows though only some are drawn: for any window of the rows the
  padding above is the height of the rows before it, the padding below that of the rows after it,
  the rows drawn are those of the window, and together they fill the height left by the header.
\<close>
theorem virtual_rows_fill_the_table:
  fixes header :: int and colLength :: nat
  assumes "a < b" and "b \<le> length rows" and "length sizes = length rows" and "list_all (\<lambda>x. 0 \<le> x) sizes"
  defines "t \<equiv> virtual_table header (virtualized sizes a b) 0 (sum_list sizes) rows colLength"
  shows "map fst (tb_rows t) = take (b - a) (drop a rows)
    \<and> fst (tb_padding t) = sum_list (take a sizes) \<and> snd (tb_padding t) = sum_list (drop b sizes)
    \<and> header + fst (tb_padding t) + sum_list (map snd (tb_rows t)) + snd (tb_padding t) = tb_height t"
proof -
  have b: "b \<le> length sizes" using assms(2,3) by simp
  have rows: "rows \<noteq> []" using assms(1,2) by auto
  have "map fst (tb_rows t) = map ((!) rows) [a..<b]"
    using rows by (simp add: t_def virtual_table_def virtualized_def)
  also have "\<dots> = take (b - a) (drop a rows)"
    using assms(1,2) by (intro nth_equalityI) simp_all
  finally have drawn: "map fst (tb_rows t) = take (b - a) (drop a rows)" .
  have "map snd (tb_rows t) = map (\<lambda>v. vi_end v - vi_start v) (virtualized sizes a b)"
    using rows by (simp add: t_def virtual_table_def comp_def)
  then have heights: "map snd (tb_rows t) = map ((!) sizes) [a..<b]"
    using virtualized_heights [OF b] by simp
  have split: "sum_list sizes = sum_list (take b sizes) + sum_list (drop b sizes)"
    by (metis append_take_drop_id sum_list_append)
  have pad: "tb_padding t = (sum_list (take a sizes), sum_list (drop b sizes))"
    using padding_exact [OF assms(1) b assms(4)] split by (simp add: t_def virtual_table_def)
  have "tb_height t = sum_list sizes + header" by (simp add: t_def virtual_table_def)
  then show ?thesis
    using drawn heights pad split sum_list_upt [OF less_imp_le [OF assms(1)] b] by simp
qed

theorem virtual_rows_fill_the_table_witness:
  "map fst (tb_rows (AllSystemsTable (virtualized [60, 60, 60] 1 2) 0 (sum_list [60, 60, 60]) [''a'', ''b'', ''c''] 9)) = [''b'']"
  using virtual_rows_fill_the_table [where a = 1 and b = 2 and rows = "[''a'', ''b'', ''c'']" and
    sizes = "[60, 60, 60]" and header = 50 and colLength = 9] by simp

subsection \<open>The actions of a row: ActionsButton\<close>

record actions_state =
  as_deleteOpen :: bool
  as_editOpen :: bool
  as_editOpened :: bool

definition actions_initial :: actions_state where
  "actions_initial = \<lparr>as_deleteOpen = False, as_editOpen = False, as_editOpened = False\<rparr>"

datatype actions_click =
    Click_edit | Click_pause | Click_copy_name | Click_copy_host | Click_delete
  | Edit_onOpenChange bool | Delete_onOpenChange bool | Click_continue

datatype actions_call = No_request | Update_request string system_status | Copy_request "string option" | Delete_request string

fun actions_step :: "system_record \<Rightarrow> actions_click \<Rightarrow> actions_state \<Rightarrow> actions_call \<times> actions_state" where
  \<comment> \<open>the button that continues exists only in the open dialog, which closes behind it\<close>
  "actions_step system Click_edit s = (No_request, s\<lparr>as_editOpened := True, as_editOpen := True\<rparr>)"
| "actions_step system Click_pause s = (Update_request (sys_id system) (toggle_pause (sys_status system)), s)"
| "actions_step system Click_copy_name s = (Copy_request (Some (sys_name system)), s)"
| "actions_step system Click_copy_host s = (Copy_request (sys_host system), s)"
| "actions_step system Click_delete s = (No_request, s\<lparr>as_deleteOpen := True\<rparr>)"
| "actions_step system (Edit_onOpenChange b) s = (No_request, s\<lparr>as_editOpen := b\<rparr>)"
| "actions_step system (Delete_onOpenChange b) s = (No_request, s\<lparr>as_deleteOpen := b\<rparr>)"
| "actions_step system Click_continue s =
     (if as_deleteOpen s then (Delete_request (sys_id system), s\<lparr>as_deleteOpen := False\<rparr>) else (No_request, s))"

definition delete_title :: "system_record \<Rightarrow> actions_state \<Rightarrow> string option" where
  "delete_title system s =
     (if as_deleteOpen s then Some (''Are you sure you want to delete '' @ sys_name system @ ''?'') else None)"

definition edit_dialog :: "system_record \<Rightarrow> actions_state \<Rightarrow> (string \<times> bool) option" where
  \<comment> \<open>the system the edit dialog is made for, once it was opened, and whether it is open\<close>
  "edit_dialog system s = (if as_editOpened s then Some (sys_id system, as_editOpen s) else None)"

definition pause_label :: "system_record \<Rightarrow> string" where
  "pause_label system = (if sys_status system = Paused then ''Resume'' else ''Pause'')"

lemma edit_dialog_open:
  assumes "as_editOpen s \<longrightarrow> as_editOpened s" and "\<And>b. c = Edit_onOpenChange b \<Longrightarrow> b \<longrightarrow> as_editOpened s"
  shows "as_editOpen (snd (actions_step system c s)) \<longrightarrow> as_editOpened (snd (actions_step system c s))"
  using assms by (cases c) auto

subsection \<open>Rows that come and go\<close>

text \<open>
  React keeps the state of a row's components under the row's key. The grid gives a card the id of
  its system as its key; the table gives a row the id TanStack makes for it, which is its index in
  the data, since the table has no getRowId.
\<close>

datatype view_mode = Table_view | Grid_view

definition row_keys :: "view_mode \<Rightarrow> system_record list \<Rightarrow> (string \<times> system_record) list" where
  "row_keys mode data = (case mode of
       Table_view \<Rightarrow> map (\<lambda>(i, r). (nat_str i, r)) (enumerate 0 data)
     | Grid_view \<Rightarrow> map (\<lambda>r. (sys_id r, r)) data)"

definition reconcile :: "(string \<times> 'r) list \<Rightarrow> 's \<Rightarrow> (string \<times> 's) list \<Rightarrow> (string \<times> 's) list" where
  \<comment> \<open>documented of React: a child whose key stays keeps its state, any other starts anew\<close>
  "reconcile children new st = map (\<lambda>(k, c). (k, orelse (map_of st k) new)) children"

datatype dialog_log = Asked string | Deleted view_mode string

record rows_state =
  rs_mode :: view_mode
  rs_rows :: "(string \<times> system_record) list"
  rs_states :: "(string \<times> actions_state) list"
  rs_log :: "dialog_log list"

definition rows_initial :: "view_mode \<Rightarrow> rows_state" where
  "rows_initial mode = \<lparr>rs_mode = mode, rs_rows = [], rs_states = [], rs_log = []\<rparr>"

datatype rows_action =
    Show_rows "system_record list"
  | Set_view view_mode "system_record list"
  | Click_row string actions_click

definition click_log :: "view_mode \<Rightarrow> system_record \<Rightarrow> actions_click \<Rightarrow> actions_call \<Rightarrow> dialog_log list" where
  \<comment> \<open>that the question was asked about a system, and that a deletion was sent\<close>
  "click_log mode system c call =
     (if c = Click_delete \<or> c = Delete_onOpenChange True then [Asked (sys_id system)] else [])
     @ (case call of Delete_request i \<Rightarrow> [Deleted mode i] | _ \<Rightarrow> [])"

fun rows_step :: "rows_action \<Rightarrow> rows_state \<Rightarrow> rows_state" where
  \<comment> \<open>the other view is another element, so nothing is kept\<close>
  "rows_step (Show_rows data) s =
     s\<lparr>rs_rows := row_keys (rs_mode s) data,
       rs_states := reconcile (row_keys (rs_mode s) data) actions_initial (rs_states s)\<rparr>"
| "rows_step (Set_view mode data) s =
     s\<lparr>rs_mode := mode, rs_rows := row_keys mode data,
       rs_states := reconcile (row_keys mode data) actions_initial (if mode = rs_mode s then rs_states s else [])\<rparr>"
| "rows_step (Click_row key c) s =
     (case (map_of (rs_rows s) key, map_of (rs_states s) key) of
        (Some system, Some st) \<Rightarrow>
          (let (call, st') = actions_step system c st
           in s\<lparr>rs_states := AList.update key st' (rs_states s), rs_log := rs_log s @ click_log (rs_mode s) system c call\<rparr>)
      | _ \<Rightarrow> s)"

definition asked_first :: "dialog_log list \<Rightarrow> bool" where
  \<comment> \<open>every deletion sent from the grid was asked for before\<close>
  "asked_first lg \<longleftrightarrow> (\<forall>pre post i. lg = pre @ Deleted Grid_view i # post \<longrightarrow> Asked i \<in> set pre)"

definition grid_open_asked :: "rows_state \<Rightarrow> bool" where
  "grid_open_asked s \<longleftrightarrow> (rs_mode s = Grid_view \<longrightarrow>
     (\<forall>k r. map_of (rs_rows s) k = Some r \<longrightarrow> sys_id r = k)
     \<and> (\<forall>k st. map_of (rs_states s) k = Some st \<and> as_deleteOpen st \<longrightarrow> Asked k \<in> set (rs_log s)))"

lemma asked_first_Nil: "asked_first []"
  by (simp add: asked_first_def)

lemma asked_first_snoc:
  "asked_first (lg @ [e]) \<longleftrightarrow> asked_first lg \<and> (\<forall>i. e = Deleted Grid_view i \<longrightarrow> Asked i \<in> set lg)"
proof
  assume a: "asked_first (lg @ [e])"
  have "Asked i \<in> set pre" if "lg = pre @ Deleted Grid_view i # post" for pre post i
    using a that by (simp add: asked_first_def)
  moreover have "Asked i \<in> set lg" if "e = Deleted Grid_view i" for i
    using a that by (simp add: asked_first_def)
  ultimately show "asked_first lg \<and> (\<forall>i. e = Deleted Grid_view i \<longrightarrow> Asked i \<in> set lg)"
    by (simp add: asked_first_def)
next
  assume a: "asked_first lg \<and> (\<forall>i. e = Deleted Grid_view i \<longrightarrow> Asked i \<in> set lg)"
  have "Asked i \<in> set pre" if "lg @ [e] = pre @ Deleted Grid_view i # post" for pre post i
  proof (cases post rule: rev_cases)
    case Nil
    then show ?thesis using a that by simp
  next
    case (snoc post' x)
    then have "lg = pre @ Deleted Grid_view i # post'" using that by simp
    then show ?thesis using a by (simp add: asked_first_def)
  qed
  then show "asked_first (lg @ [e])" by (simp add: asked_first_def)
qed

lemma map_of_row_keys_grid: "map_of (row_keys Grid_view data) k = Some r \<Longrightarrow> sys_id r = k"
  by (auto simp: row_keys_def dest!: map_of_SomeD)

lemma map_of_reconcile:
  "map_of (reconcile children new st) k = Some s \<Longrightarrow> map_of st k = Some s \<or> s = new"
  by (induction children) (auto simp: reconcile_def orelse_def split: if_splits option.splits)

lemma actions_step_open:
  "as_deleteOpen (snd (actions_step system c st)) \<Longrightarrow>
     as_deleteOpen st \<or> c = Click_delete \<or> c = Delete_onOpenChange True"
  by (cases c) (auto split: if_splits)

lemma actions_step_delete:
  "fst (actions_step system c st) = Delete_request i \<Longrightarrow> i = sys_id system \<and> as_deleteOpen st \<and> c = Click_continue"
  by (cases c) (auto split: if_splits)

lemma asked_first_append:
  assumes "asked_first lg" and "\<And>i. call = Delete_request i \<Longrightarrow> mode = Grid_view \<Longrightarrow> Asked i \<in> set lg"
  shows "asked_first (lg @ click_log mode system c call)"
proof -
  have asked: "asked_first (lg @ [Asked i])" for i using assms(1) by (simp add: asked_first_snoc)
  show ?thesis
    using asked_first_snoc [of "lg @ [Asked (sys_id system)]"] asked_first_snoc [of lg] assms asked
    by (cases call) (auto simp: click_log_def)
qed

lemma rows_step_asked:
  assumes "grid_open_asked s" and "asked_first (rs_log s)"
  shows "grid_open_asked (rows_step a s) \<and> asked_first (rs_log (rows_step a s))"
proof (cases a)
  case (Show_rows data)
  then show ?thesis using assms
    by (auto simp: grid_open_asked_def actions_initial_def dest: map_of_row_keys_grid map_of_reconcile)
next
  case (Set_view mode data)
  then show ?thesis using assms
    by (auto simp: grid_open_asked_def actions_initial_def dest: map_of_row_keys_grid map_of_reconcile split: if_splits)
next
  case (Click_row key c)
  show ?thesis
  proof (cases "map_of (rs_rows s) key = None \<or> map_of (rs_states s) key = None")
    case True
    then show ?thesis using assms Click_row by (auto split: option.splits)
  next
    case False
    then obtain system st where found: "map_of (rs_rows s) key = Some system" "map_of (rs_states s) key = Some st" by auto
    obtain call st' where step: "actions_step system c st = (call, st')" by fastforce
    let ?lg = "rs_log s @ click_log (rs_mode s) system c call"
    have after: "rows_step a s = s\<lparr>rs_states := AList.update key st' (rs_states s), rs_log := ?lg\<rparr>"
      using found step Click_row by simp
    have grid: "sys_id system = key" "as_deleteOpen st \<Longrightarrow> Asked key \<in> set (rs_log s)" if "rs_mode s = Grid_view"
      using assms(1) found that by (auto simp: grid_open_asked_def)
    have "asked_first ?lg"
    proof (rule asked_first_append [OF assms(2)])
      fix i
      assume "call = Delete_request i" "rs_mode s = Grid_view"
      then show "Asked i \<in> set (rs_log s)" using actions_step_delete [of system c st i] step grid by simp
    qed
    moreover have "as_deleteOpen st' \<Longrightarrow> rs_mode s = Grid_view \<Longrightarrow> Asked key \<in> set ?lg"
      using actions_step_open [of system c st] step grid by (auto simp: click_log_def)
    then have "grid_open_asked (rows_step a s)"
      using assms(1) by (auto simp: after grid_open_asked_def update_conv')
    ultimately show ?thesis using after by simp
  qed
qed

text \<open>
  C18. Which system a confirmed deletion deletes. In the grid always one whose deletion was asked for
  before, whatever systems come and go and however often the view is changed. In the table the open
  question moves on to the system that takes the row's place: asked about one system, which then
  disappears, the same dialog deletes the next one.
\<close>
theorem grid_deletes_what_was_asked:
  "asked_first (rs_log (fold rows_step as (rows_initial mode)))
   \<and> (sys_id r \<noteq> sys_id r' \<longrightarrow>
       rs_log (fold rows_step [Show_rows [r, r'], Click_row ''0'' Click_delete, Show_rows [r'], Click_row ''0'' Click_continue]
         (rows_initial Table_view)) = [Asked (sys_id r), Deleted Table_view (sys_id r')])"
proof
  have "grid_open_asked s \<and> asked_first (rs_log s) \<Longrightarrow>
      grid_open_asked (fold rows_step as s) \<and> asked_first (rs_log (fold rows_step as s))" for s
  proof (induction as arbitrary: s)
    case (Cons a as)
    then show ?case using rows_step_asked [of s a] by simp
  qed simp
  moreover have "grid_open_asked (rows_initial mode) \<and> asked_first (rs_log (rows_initial mode))"
    by (simp add: grid_open_asked_def rows_initial_def asked_first_Nil)
  ultimately show "asked_first (rs_log (fold rows_step as (rows_initial mode)))" by blast
  have "nat_str 0 = ''0''" by code_simp
  then show "sys_id r \<noteq> sys_id r' \<longrightarrow>
       rs_log (fold rows_step [Show_rows [r, r'], Click_row ''0'' Click_delete, Show_rows [r'], Click_row ''0'' Click_continue]
         (rows_initial Table_view)) = [Asked (sys_id r), Deleted Table_view (sys_id r')]"
    by (simp add: rows_initial_def row_keys_def reconcile_def actions_initial_def click_log_def orelse_def)
qed

theorem grid_deletes_what_was_asked_witness:
  "rs_log (fold rows_step [Show_rows [sample_system ''a'' ''web'' Up, sample_system ''b'' ''db'' Up], Click_row ''0'' Click_delete,
       Show_rows [sample_system ''b'' ''db'' Up], Click_row ''0'' Click_continue] (rows_initial Table_view))
   = [Asked ''a'', Deleted Table_view ''b'']"
  using grid_deletes_what_was_asked [of "[]" Table_view "sample_system ''a'' ''web'' Up" "sample_system ''b'' ''db'' Up"]
  by (simp add: sample_system_def)

subsection \<open>The toolbar and the page\<close>

record toolbar =
  tl_filter :: string
  tl_clear :: bool
  tl_view :: "(string \<times> bool) list"
  tl_status :: status_filter
  tl_statusLabels :: "(string \<times> string) list"
  tl_sort :: "(string \<times> string \<times> icon option) list"
  tl_fields :: "(string \<times> bool) list"

definition CardHead ::
  "string \<Rightarrow> view_mode \<Rightarrow> status_filter \<Rightarrow> sm_state \<Rightarrow> sorting \<Rightarrow> (string \<Rightarrow> bool) \<Rightarrow> column_def list \<Rightarrow> toolbar" where
  \<comment> \<open>the entries of the four menus, with what is chosen\<close>
  "CardHead filterText viewMode statusFilter stores s isVisible columns =
     \<lparr>tl_filter = filterText, tl_clear = (filterText \<noteq> ''''),
      tl_view = [(''Table'', viewMode = Table_view), (''Grid'', viewMode = Grid_view)], tl_status = statusFilter,
      tl_statusLabels = [(''all'', ''All Systems''),
        (''up'', ''Up ('' @ nat_str (length (obj_values (upSystems stores))) @ '')''),
        (''down'', ''Down ('' @ nat_str (length (obj_values (downSystems stores))) @ '')''),
        (''paused'', ''Paused ('' @ nat_str (length (obj_values (pausedSystems stores))) @ '')'')],
      tl_sort = sort_menu columns s, tl_fields = fields_menu isVisible columns\<rparr>"

datatype systems_page =
    Table_page "system_record table_body"
  | Grid_page "system_card list"
  | No_systems_found

definition SystemsTable ::
  "cell_context \<Rightarrow> view_mode \<Rightarrow> (string \<Rightarrow> bool) \<Rightarrow> virtual_item list \<Rightarrow> int \<Rightarrow> int \<Rightarrow> system_record list
   \<Rightarrow> systems_page" where
  \<comment> \<open>the rows are those of the table's model, filtered and sorted\<close>
  "SystemsTable cx viewMode isVisible virtualRows scrollMargin totalSize rows =
     (if viewMode = Table_view
      then Table_page (AllSystemsTable virtualRows scrollMargin totalSize rows
             (length (visibleColumns isVisible SystemsTableColumns)))
      else if rows \<noteq> []
      then Grid_page (map (SystemCard cx isVisible SystemsTableColumns SystemsTableColumns) rows)
      else No_systems_found)"

lemma fields_menu_names:
  "map fst (fields_menu isVisible SystemsTableColumns)
     = [''CPU'', ''Memory'', ''Disk'', ''GPU'', ''Load Avg'', ''Net'', ''Uptime'', ''Actions'']"
  by (simp add: fields_menu_def SystemsTableColumns_def number_column_def)

lemma sort_menu_names:
  "map (fst \<circ> snd) (sort_menu SystemsTableColumns s)
     = [''System'', ''CPU'', ''Memory'', ''Disk'', ''GPU'', ''Load Avg'', ''Net'', ''Uptime'']"
  by (simp add: sort_menu_def SystemsTableColumns_def number_column_def)

end
