(* ===== verification/History_View.thy ===== *)
theory History_View
  imports Alerts_History Systems_View
begin

section \<open>The alert history table at work: alerts-history-data-table.tsx, alerts-history-columns.tsx\<close>

text \<open>
  The column definitions with headers, accessors and cells; the rows of the table (filtered, sorted,
  one page of them); the component's state with every action on it, where a bulk deletion sends its
  batches one after the other while other actions go on; and what is rendered. The lemmas show that
  the page stays in range, that the pages hold each filtered row once, what sorting by system
  compares, and which records a bulk deletion deletes, failed requests included.
\<close>

subsection \<open>Columns\<close>

datatype history_cell =
    Select_cell bool
  | System_text string
  | Name_text bool string  \<comment> \<open>whether an icon stands before the name\<close>
  | Value_text string
  | State_badge bool string  \<comment> \<open>green or yellow\<close>
  | Date_text "(string \<times> string) option"  \<comment> \<open>title and text\<close>
  | Duration_text "string option"

record history_context =
  hx_num :: "rat \<Rightarrow> string"
  hx_shortDate :: "string \<Rightarrow> string"
  hx_parse :: "string \<Rightarrow> int option"

record history_column =
  hc_id :: string
  hc_header :: "string option"  \<comment> \<open>None: the checkbox of the page\<close>
  hc_enableSorting :: bool
  hc_clicks :: bool
  hc_invertSorting :: bool
  hc_cell :: "history_context \<Rightarrow> bool \<Rightarrow> alerts_history_record \<Rightarrow> history_cell"

definition select_column :: history_column where
  "select_column = \<lparr>hc_id = ''select'', hc_header = None, hc_enableSorting = False, hc_clicks = False, hc_invertSorting = False,
     hc_cell = (\<lambda>cx selected r. Select_cell selected)\<rparr>"

definition alertsHistoryColumns :: "history_column list" where
  "alertsHistoryColumns =
     [\<lparr>hc_id = ''system'', hc_header = Some ''System'', hc_enableSorting = True, hc_clicks = True, hc_invertSorting = False,
       hc_cell = (\<lambda>cx sel r. System_text (ah_display r))\<rparr>,
      \<lparr>hc_id = ''name'', hc_header = Some ''Name'', hc_enableSorting = True, hc_clicks = True, hc_invertSorting = False,
       hc_cell = (\<lambda>cx sel r. Name_text (map_of alertInfo (ah_name r) \<noteq> None) (name_accessor r))\<rparr>,
      \<lparr>hc_id = ''value'', hc_header = Some ''Value'', hc_enableSorting = False, hc_clicks = False, hc_invertSorting = False,
       hc_cell = (\<lambda>cx sel r. Value_text (value_cell (hx_num cx) r))\<rparr>,
      \<lparr>hc_id = ''state'', hc_header = Some ''State'', hc_enableSorting = True, hc_clicks = True, hc_invertSorting = False,
       hc_cell = (\<lambda>cx sel r. State_badge (str_truthy (ah_resolved r)) (state_cell r))\<rparr>,
      \<lparr>hc_id = ''created'', hc_header = Some ''Created'', hc_enableSorting = True, hc_clicks = True, hc_invertSorting = True,
       hc_cell = (\<lambda>cx sel r. Date_text (Some (ah_created r @ '' UTC'', hx_shortDate cx (ah_created r))))\<rparr>,
      \<lparr>hc_id = ''resolved'', hc_header = Some ''Resolved'', hc_enableSorting = True, hc_clicks = True, hc_invertSorting = True,
       hc_cell = (\<lambda>cx sel r. Date_text (if str_truthy (ah_resolved r)
          then Some (the (ah_resolved r) @ '' UTC'', hx_shortDate cx (the (ah_resolved r))) else None))\<rparr>,
      \<lparr>hc_id = ''duration'', hc_header = Some ''Duration'', hc_enableSorting = True, hc_clicks = True, hc_invertSorting = True,
       hc_cell = (\<lambda>cx sel r. Duration_text (duration_cell (hx_parse cx) r))\<rparr>]"

definition history_columns :: "history_column list" where
  "history_columns = select_column # alertsHistoryColumns"

text \<open>
  What the columns hold for the table's own comparison; state and duration have comparators of their
  own. A record is what the server sends: the request names its fields.
\<close>

definition history_value :: "history_context \<Rightarrow> string \<Rightarrow> alerts_history_record \<Rightarrow> string option" where
  \<comment> \<open>the accessors of the columns whose texts the table compares\<close>
  "history_value cx column r =
     (if column = ''system'' then (if ah_system r = '''' then None else Some (ah_system r))
      else if column = ''name'' then Some (name_accessor r)
      else if column = ''created'' then Some (hx_shortDate cx (ah_created r))
      else if column = ''resolved'' then ah_resolved r
      else None)"

definition history_compare ::
  "history_context \<Rightarrow> (string \<Rightarrow> int) \<Rightarrow> (string option \<Rightarrow> string option \<Rightarrow> int) \<Rightarrow> string \<Rightarrow> alerts_history_record \<Rightarrow>
   alerts_history_record \<Rightarrow> int" where
  \<comment> \<open>auto is the table's comparison of two values\<close>
  "history_compare cx get_time auto column a b =
     (if column = ''state'' then state_sortingFn a b
      else if column = ''duration'' then duration_sortingFn get_time a b
      else auto (history_value cx column a) (history_value cx column b))"

definition history_fields :: "string list" where
  "history_fields = [''id'', ''name'', ''value'', ''state'', ''created'', ''resolved'', ''expand.system.name'']"

definition served :: "string list \<Rightarrow> alerts_history_record \<Rightarrow> bool" where
  \<comment> \<open>documented of PocketBase: a field that is not asked for is not sent (the empty string here)\<close>
  "served asked r \<longleftrightarrow> (''system'' \<notin> set asked \<longrightarrow> ah_system r = '''')"

subsection \<open>Rows: filtered, sorted, one page\<close>

record history_table =
  ht_context :: history_context
  ht_getTime :: "string \<Rightarrow> int"
  ht_auto :: "string option \<Rightarrow> string option \<Rightarrow> int"
  ht_sort :: "(nat \<Rightarrow> nat \<Rightarrow> int) \<Rightarrow> nat list \<Rightarrow> nat list"

definition table_sort_documented :: "((nat \<Rightarrow> nat \<Rightarrow> int) \<Rightarrow> nat list \<Rightarrow> nat list) \<Rightarrow> bool" where
  \<comment> \<open>sorting reorders the rows, and leaves rows that compare equal where they are\<close>
  "table_sort_documented srt \<longleftrightarrow> (\<forall>f xs. mset (srt f xs) = mset xs)
     \<and> (\<forall>f xs. (\<forall>a \<in> set xs. \<forall>b \<in> set xs. f a b = 0) \<longrightarrow> srt f xs = xs)"

definition filtered_rows :: "history_table \<Rightarrow> string \<Rightarrow> alerts_history_record list \<Rightarrow> nat list" where
  "filtered_rows tb flt data =
     filter (\<lambda>i. history_globalFilterFn (hx_shortDate (ht_context tb)) (data ! i) flt) [0..<length data]"

definition sorted_rows :: "history_table \<Rightarrow> sorting \<Rightarrow> string \<Rightarrow> alerts_history_record list \<Rightarrow> nat list" where
  \<comment> \<open>sorting by the one column of the sorting state; a column may invert it\<close>
  "sorted_rows tb st flt data = (case st of
       [] \<Rightarrow> filtered_rows tb flt data
     | (c, desc) # _ \<Rightarrow>
         (let sign = (if desc then - 1 else 1) * (if c \<in> {''created'', ''resolved'', ''duration''} then - 1 else 1 :: int)
          in ht_sort tb (\<lambda>i j. sign * history_compare (ht_context tb) (ht_getTime tb) (ht_auto tb) c (data ! i) (data ! j))
               (filtered_rows tb flt data)))"

definition page_rows :: "nat \<times> nat \<Rightarrow> nat list \<Rightarrow> nat list" where
  \<comment> \<open>page index and size\<close>
  "page_rows p rows = take (snd p) (drop (fst p * snd p) rows)"

definition getPageCount :: "nat \<Rightarrow> nat \<Rightarrow> nat" where
  "getPageCount rows pageSize = (rows + pageSize - 1) div pageSize"

lemma mset_sorted_rows:
  "table_sort_documented (ht_sort tb) \<Longrightarrow> mset (sorted_rows tb st flt data) = mset (filtered_rows tb flt data)"
  by (auto simp: sorted_rows_def table_sort_documented_def Let_def split: list.splits prod.splits)

lemma length_sorted_rows:
  "table_sort_documented (ht_sort tb) \<Longrightarrow> length (sorted_rows tb st flt data) = length (filtered_rows tb flt data)"
  using mset_sorted_rows [of tb st flt data] by (metis size_mset)

lemma pages_from:
  "concat (map (\<lambda>i. page_rows (i, k) rows) [0..<n]) = take (n * k) rows"
proof (induction n)
  case (Suc n)
  then show ?case by (simp add: page_rows_def take_add [symmetric] add.commute)
qed simp

lemma page_count_covers: "0 < k \<Longrightarrow> n \<le> getPageCount n k * k"
proof -
  assume k: "0 < k"
  have "(n + k - 1) div k * k + (n + k - 1) mod k = n + k - 1" by (rule div_mult_mod_eq)
  moreover have "(n + k - 1) mod k < k" using k by simp
  ultimately show ?thesis unfolding getPageCount_def by linarith
qed

lemma pages_partition:
  "0 < k \<Longrightarrow> concat (map (\<lambda>i. page_rows (i, k) rows) [0..<getPageCount (length rows) k]) = rows"
  by (simp add: pages_from page_count_covers)

lemma in_page_count: "0 < k \<Longrightarrow> i < getPageCount n k \<longleftrightarrow> i * k < n"
proof -
  assume k: "0 < k"
  have "i < (n + k - 1) div k \<longleftrightarrow> Suc i * k \<le> n + k - 1"
    using less_eq_div_iff_mult_less_eq [OF k, of "Suc i" "n + k - 1"] by (simp add: Suc_le_eq)
  also have "\<dots> \<longleftrightarrow> i * k < n" using k by (cases n) auto
  finally show ?thesis by (simp add: getPageCount_def)
qed

text \<open>
  Sorting by system does nothing: the request does not name the field the column compares, so every
  row compares equal and the rows stay as they are, in either direction.
\<close>
theorem sorting_by_system_does_nothing:
  assumes "table_sort_documented (ht_sort tb)" and "\<And>v. ht_auto tb v v = 0" and "list_all (served history_fields) data"
  shows "sorted_rows tb [(''system'', desc)] flt data = sorted_rows tb [] flt data"
proof -
  have "ah_system (data ! i) = ''''" if "i < length data" for i
    using assms(3) that by (auto simp: list_all_length served_def history_fields_def)
  then show ?thesis
    using assms(1,2)
    by (auto simp: sorted_rows_def table_sort_documented_def history_compare_def history_value_def filtered_rows_def Let_def)
qed

subsection \<open>The state and its actions\<close>

text \<open>
  A deletion under way is the list of its batches that are not answered, the first one sent. The lists
  at the end only record: the ids of each confirmed deletion, the ids that requests deleted, and the
  ids of the batches that failed or were given up after a failure.
\<close>

record history_state =
  hs_data :: "alerts_history_record list"
  hs_sorting :: sorting
  hs_selection :: "nat list"
  hs_filter :: string
  hs_deleteOpen :: bool
  hs_page :: "nat \<times> nat"  \<comment> \<open>pageIndex and pageSize\<close>
  hs_jobs :: "string list list list"
  hs_toasts :: "(string \<times> string) list"
  hs_confirmed :: "string list"
  hs_deleted :: "string list"
  hs_lost :: "string list"

definition history_initial :: "nat \<times> nat \<Rightarrow> history_state" where
  \<comment> \<open>the page is the stored one\<close>
  "history_initial stored = \<lparr>hs_data = [], hs_sorting = [], hs_selection = [], hs_filter = '''', hs_deleteOpen = False,
     hs_page = stored, hs_jobs = [], hs_toasts = [], hs_confirmed = [], hs_deleted = [], hs_lost = []\<rparr>"

datatype history_action =
    Loaded "alerts_history_record list"
  | Feed_event string alerts_history_record
  | Click_head history_column
  | Toggle_row nat bool
  | Toggle_page bool
  | Type_filter string
  | Choose_size nat
  | First_page
  | Previous_page
  | Next_page
  | Last_page
  | Delete_open bool
  | Continue_delete
  | Batch_answer nat bool

definition to_first :: "history_state \<Rightarrow> history_state" where
  \<comment> \<open>documented of the table: new data, filters and sortings bring back the first page\<close>
  "to_first s = s\<lparr>hs_page := (0, snd (hs_page s))\<rparr>"

definition current_rows :: "history_table \<Rightarrow> history_state \<Rightarrow> nat list" where
  "current_rows tb s = sorted_rows tb (hs_sorting s) (hs_filter s) (hs_data s)"

definition current_page :: "history_table \<Rightarrow> history_state \<Rightarrow> nat list" where
  "current_page tb s = page_rows (hs_page s) (current_rows tb s)"

definition pageCount :: "history_table \<Rightarrow> history_state \<Rightarrow> nat" where
  "pageCount tb s = getPageCount (length (current_rows tb s)) (snd (hs_page s))"

definition getCanPreviousPage :: "history_state \<Rightarrow> bool" where
  "getCanPreviousPage s \<longleftrightarrow> 0 < fst (hs_page s)"

definition getCanNextPage :: "history_table \<Rightarrow> history_state \<Rightarrow> bool" where
  "getCanNextPage tb s \<longleftrightarrow> Suc (fst (hs_page s)) < pageCount tb s"

definition set_page_index :: "nat \<Rightarrow> history_state \<Rightarrow> history_state" where
  "set_page_index i s = s\<lparr>hs_page := (i, snd (hs_page s))\<rparr>"

definition setPageSize :: "nat \<Rightarrow> history_state \<Rightarrow> history_state" where
  \<comment> \<open>documented of the table: the first row shown stays on the page\<close>
  "setPageSize k s = s\<lparr>hs_page := ((fst (hs_page s) * snd (hs_page s)) div k, k)\<rparr>"

definition selected_data :: "history_state \<Rightarrow> string list" where
  \<comment> \<open>getSelectedRowModel: of all rows of the data\<close>
  "selected_data s = selected_ids (hs_selection s) (hs_data s)"

definition shown_selected :: "history_table \<Rightarrow> history_state \<Rightarrow> nat list" where
  \<comment> \<open>getFilteredSelectedRowModel\<close>
  "shown_selected tb s = filter (\<lambda>i. i \<in> set (hs_selection s)) (filtered_rows tb (hs_filter s) (hs_data s))"

definition answer_batch :: "nat \<Rightarrow> bool \<Rightarrow> history_state \<Rightarrow> history_state" where
  \<comment> \<open>what follows await batch.send(): the next batch, the end, or the catch block\<close>
  "answer_batch j ok s = (case hs_jobs s ! j of
       [] \<Rightarrow> s
     | b # rest \<Rightarrow>
         if \<not> ok then s\<lparr>hs_jobs := (hs_jobs s)[j := []],
           hs_toasts := hs_toasts s @ [(''Error'', ''Failed to delete records.'')], hs_lost := hs_lost s @ b @ concat rest\<rparr>
         else if rest = [] then s\<lparr>hs_jobs := (hs_jobs s)[j := []], hs_deleted := hs_deleted s @ b, hs_selection := []\<rparr>
         else s\<lparr>hs_jobs := (hs_jobs s)[j := rest], hs_deleted := hs_deleted s @ b\<rparr>)"

fun history_step :: "history_table \<Rightarrow> history_action \<Rightarrow> history_state \<Rightarrow> history_state" where
  "history_step tb (Loaded items) s = to_first (s\<lparr>hs_data := items\<rparr>)"
| "history_step tb (Feed_event a r) s =
     (if a \<in> {''create'', ''update'', ''delete''} then to_first (s\<lparr>hs_data := history_event (a, r) (hs_data s)\<rparr>) else s)"
| "history_step tb (Click_head c) s =
     (if hc_clicks c \<and> hc_enableSorting c
      then to_first (s\<lparr>hs_sorting := [(hc_id c, getIsSorted (hc_id c) (hs_sorting s) = Some False)]\<rparr>) else s)"
| "history_step tb (Toggle_row i b) s =
     s\<lparr>hs_selection := (if b then List.insert i (hs_selection s) else removeAll i (hs_selection s))\<rparr>"
| "history_step tb (Toggle_page b) s =
     s\<lparr>hs_selection := (if b then fold List.insert (current_page tb s) (hs_selection s)
                        else fold removeAll (current_page tb s) (hs_selection s))\<rparr>"
| "history_step tb (Type_filter x) s = to_first (s\<lparr>hs_filter := x\<rparr>)"
| "history_step tb (Choose_size k) s = (if k \<in> set page_sizes then setPageSize k s else s)"
| "history_step tb First_page s = (if getCanPreviousPage s then set_page_index 0 s else s)"
| "history_step tb Previous_page s = (if getCanPreviousPage s then set_page_index (fst (hs_page s) - 1) s else s)"
| "history_step tb Next_page s = (if getCanNextPage tb s then set_page_index (Suc (fst (hs_page s))) s else s)"
| "history_step tb Last_page s = (if getCanNextPage tb s then set_page_index (pageCount tb s - 1) s else s)"
| "history_step tb (Delete_open b) s = (if shown_selected tb s \<noteq> [] then s\<lparr>hs_deleteOpen := b\<rparr> else s)"
| "history_step tb Continue_delete s =
     (if hs_deleteOpen s \<and> shown_selected tb s \<noteq> []
      then s\<lparr>hs_deleteOpen := False, hs_jobs := hs_jobs s @ [handleBulkDelete (selected_data s)],
             hs_confirmed := hs_confirmed s @ selected_data s\<rparr>
      else s)"
| "history_step tb (Batch_answer j ok) s = (if j < length (hs_jobs s) then answer_batch j ok s else s)"

subsection \<open>The page stays in range\<close>

definition page_ok :: "history_table \<Rightarrow> history_state \<Rightarrow> bool" where
  "page_ok tb s \<longleftrightarrow> snd (hs_page s) \<in> set page_sizes \<and> fst (hs_page s) < max 1 (pageCount tb s)"

lemma page_sizes_pos: "k \<in> set page_sizes \<Longrightarrow> 0 < k"
  by (auto simp: page_sizes_def)

lemma page_ok_first [keeps]: "snd (hs_page s) \<in> set page_sizes \<Longrightarrow> page_ok tb (to_first s)"
  by (simp add: page_ok_def to_first_def)

lemma current_rows_fields:
  "current_rows tb (s\<lparr>hs_page := p\<rparr>) = current_rows tb s" "current_rows tb (s\<lparr>hs_selection := sel\<rparr>) = current_rows tb s"
  "current_rows tb (s\<lparr>hs_deleteOpen := b\<rparr>) = current_rows tb s"
  "pageCount tb (s\<lparr>hs_selection := sel\<rparr>) = pageCount tb s" "pageCount tb (s\<lparr>hs_deleteOpen := b\<rparr>) = pageCount tb s"
  by (simp_all add: current_rows_def pageCount_def)

lemma page_ok_selection: "page_ok tb (s\<lparr>hs_selection := sel\<rparr>) = page_ok tb s"
  by (simp add: page_ok_def current_rows_fields)

lemma page_ok_size:
  assumes "page_ok tb s" and "k \<in> set page_sizes"
  shows "page_ok tb (setPageSize k s)"
proof -
  let ?n = "length (current_rows tb s)" and ?i = "fst (hs_page s)" and ?old = "snd (hs_page s)"
  let ?first = "?i * ?old"
  have k: "0 < k" and old: "0 < ?old" using assms page_sizes_pos by (auto simp: page_ok_def)
  have first: "?first = 0 \<or> ?first < ?n"
    using assms(1) in_page_count [OF old] by (auto simp: page_ok_def pageCount_def max_def split: if_splits)
  have "?first div k * k \<le> ?first" by simp
  then have "?first div k = 0 \<or> ?first div k * k < ?n" using first le_less_trans by (metis div_0)
  then have "?first div k < max 1 (getPageCount ?n k)"
    using in_page_count [OF k, of "?first div k" ?n] by (auto simp: max_def)
  then show ?thesis using assms(2) by (simp add: page_ok_def setPageSize_def pageCount_def current_rows_fields)
qed

lemma page_ok_index:
  "page_ok tb s \<Longrightarrow> i < max 1 (pageCount tb s) \<Longrightarrow> page_ok tb (set_page_index i s)"
  by (simp add: page_ok_def set_page_index_def pageCount_def current_rows_fields)

lemma page_ok_cong:
  "hs_page t = hs_page s \<Longrightarrow> hs_data t = hs_data s \<Longrightarrow> hs_sorting t = hs_sorting s \<Longrightarrow> hs_filter t = hs_filter s
   \<Longrightarrow> page_ok tb t = page_ok tb s"
  by (simp add: page_ok_def pageCount_def current_rows_def)

lemma page_ok_step [keeps]:
  assumes "page_ok tb s"
  shows "page_ok tb (history_step tb a s)"
proof -
  have size: "snd (hs_page s) \<in> set page_sizes" using assms by (simp add: page_ok_def)
  show ?thesis
  proof (cases a)
    case (Batch_answer j ok)
    have "page_ok tb (answer_batch j ok s) = page_ok tb s"
      by (rule page_ok_cong) (auto simp: answer_batch_def split: list.splits)
    then show ?thesis using assms Batch_answer by simp
  next
    case Continue_delete
    have "page_ok tb (history_step tb a s) = page_ok tb s"
      by (rule page_ok_cong) (simp_all add: Continue_delete)
    then show ?thesis using assms by simp
  next
    case (Choose_size k)
    then show ?thesis using assms page_ok_size by simp
  next
    case (Delete_open b)
    have "page_ok tb (history_step tb a s) = page_ok tb s"
      by (rule page_ok_cong) (simp_all add: Delete_open)
    then show ?thesis using assms by simp
  qed (use assms size in \<open>auto intro!: page_ok_first page_ok_index simp: page_ok_selection getCanNextPage_def page_ok_def [of tb s]\<close>)
qed

subsection \<open>Bulk deletion among other actions\<close>

definition jobs_pending :: "history_state \<Rightarrow> string multiset" where
  "jobs_pending s = mset (concat (map concat (hs_jobs s)))"

definition deletion_ledger :: "history_state \<Rightarrow> bool" where
  \<comment> \<open>each confirmed id is deleted, still under way, or lost to a failure that was shown; no batch under
      way is empty\<close>
  "deletion_ledger s \<longleftrightarrow> mset (hs_confirmed s) = mset (hs_deleted s) + jobs_pending s + mset (hs_lost s)
     \<and> (hs_toasts s = [] \<longrightarrow> hs_lost s = [])"

lemma jobs_pending_update:
  "j < length (hs_jobs s) \<Longrightarrow> mset (concat (map concat ((hs_jobs s)[j := job]))) + mset (concat (hs_jobs s ! j))
     = jobs_pending s + mset (concat job)"
proof -
  assume j: "j < length (hs_jobs s)"
  obtain xs y ys where split: "hs_jobs s = xs @ y # ys" "length xs = j" using id_take_nth_drop [OF j] j by (metis length_take min.absorb4)
  then have "hs_jobs s ! j = y" "(hs_jobs s)[j := job] = xs @ job # ys" by (auto simp: nth_append list_update_append)
  then show ?thesis by (simp add: jobs_pending_def split)
qed

lemma deletion_ledger_answer:
  assumes "deletion_ledger s" and "j < length (hs_jobs s)"
  shows "deletion_ledger (answer_batch j ok s)"
proof (cases "hs_jobs s ! j")
  case Nil
  then show ?thesis using assms by (simp add: answer_batch_def)
next
  case (Cons b rest)
  have upd: "jobs_pending s + mset (concat job) = mset b + mset (concat rest) + mset (concat (map concat ((hs_jobs s)[j := job])))" for job
    using jobs_pending_update [OF assms(2), of job] Cons by (simp add: union_ac)
  have gone: "jobs_pending s = mset b + mset (concat rest) + mset (concat (map concat ((hs_jobs s)[j := []])))"
    and later: "jobs_pending s = mset b + mset (concat (map concat ((hs_jobs s)[j := rest])))"
    using upd [of "[]"] upd [of rest] by (simp_all add: union_ac)
  consider "\<not> ok" | "ok" "rest = []" | "ok" "rest \<noteq> []" by blast
  then show ?thesis
  proof cases
    case 1
    then show ?thesis using assms(1) Cons unfolding deletion_ledger_def gone by (simp add: answer_batch_def jobs_pending_def)
  next
    case 2
    then show ?thesis using assms(1) Cons unfolding deletion_ledger_def gone by (simp add: answer_batch_def jobs_pending_def)
  next
    case 3
    then show ?thesis using assms(1) Cons unfolding deletion_ledger_def later by (simp add: answer_batch_def jobs_pending_def)
  qed
qed

lemma deletion_ledger_cong:
  "hs_jobs t = hs_jobs s \<Longrightarrow> hs_confirmed t = hs_confirmed s \<Longrightarrow> hs_deleted t = hs_deleted s \<Longrightarrow> hs_lost t = hs_lost s
   \<Longrightarrow> hs_toasts t = hs_toasts s \<Longrightarrow> deletion_ledger t = deletion_ledger s"
  by (simp add: deletion_ledger_def jobs_pending_def)

lemma deletion_ledger_step [keeps]:
  assumes "deletion_ledger s"
  shows "deletion_ledger (history_step tb a s)"
proof (cases a)
  case Continue_delete
  then show ?thesis using assms
    by (auto simp: deletion_ledger_def jobs_pending_def handleBulkDelete_def concat_delete_loop)
next
  case (Batch_answer j ok)
  then show ?thesis using assms deletion_ledger_answer by simp
qed (use assms in \<open>auto simp: to_first_def setPageSize_def set_page_index_def deletion_ledger_def jobs_pending_def\<close>)

lemma deletion_ledger_run: "deletion_ledger s \<Longrightarrow> deletion_ledger (fold (history_step tb) as s)"
  by (induction as arbitrary: s) (simp_all add: deletion_ledger_step)

lemma confirmed_by_step:
  "hs_confirmed (history_step tb a s) = hs_confirmed s
     @ (if a = Continue_delete \<and> hs_deleteOpen s \<and> shown_selected tb s \<noteq> [] then selected_data s else [])"
  by (cases a) (auto simp: to_first_def setPageSize_def set_page_index_def answer_batch_def split: list.splits)

text \<open>
  C33. Whatever else happens meanwhile, bulk deletions delete what was selected when they were confirmed,
  each record once per confirmation: once none is under way and no error
  was shown all of it is deleted, and at any time nothing else is.
\<close>
theorem bulk_delete_complete:
  fixes tb :: history_table and stored :: "nat \<times> nat"
  defines "s \<equiv> \<lambda>as. fold (history_step tb) as (history_initial stored)"
  shows "mset (hs_deleted (s as)) \<subseteq># mset (hs_confirmed (s as))
    \<and> (list_all (\<lambda>job. job = []) (hs_jobs (s as)) \<and> hs_toasts (s as) = [] \<longrightarrow>
         mset (hs_deleted (s as)) = mset (hs_confirmed (s as)))
    \<and> hs_confirmed (s (as @ [Continue_delete])) = hs_confirmed (s as)
        @ (if hs_deleteOpen (s as) \<and> shown_selected tb (s as) \<noteq> [] then selected_data (s as) else [])"
proof -
  have ledger: "deletion_ledger (s as)" unfolding s_def
    by (rule deletion_ledger_run) (simp add: deletion_ledger_def jobs_pending_def history_initial_def)
  have "jobs_pending (s as) = {#}" if "list_all (\<lambda>job. job = []) (hs_jobs (s as))"
    using that by (auto simp: jobs_pending_def list_all_iff)
  moreover have "hs_confirmed (s (as @ [Continue_delete])) = hs_confirmed (history_step tb Continue_delete (s as))"
    by (simp add: s_def)
  ultimately show ?thesis using ledger unfolding confirmed_by_step by (auto simp: deletion_ledger_def)
qed

text \<open>
  What is deleted is more than what is counted on the page: the count and the delete button are about
  the rows that pass the filter, the deletion about all selected rows.
\<close>

lemma shown_selected_subset:
  "set (map (\<lambda>i. ah_id (hs_data s ! i)) (shown_selected tb s)) \<subseteq> set (selected_data s)"
  by (auto simp: shown_selected_def filtered_rows_def selected_data_def selected_ids_def)

definition sample_table :: history_table where
  "sample_table = \<lparr>ht_context = \<lparr>hx_num = (\<lambda>x. ''0''), hx_shortDate = (\<lambda>x. x), hx_parse = (\<lambda>x. None)\<rparr>, ht_getTime = (\<lambda>x. 0),
     ht_auto = (\<lambda>a b. 0), ht_sort = (\<lambda>f xs. xs)\<rparr>"

definition sample_named :: "string \<Rightarrow> string \<Rightarrow> alerts_history_record" where
  "sample_named i n = (sample_history i 1)\<lparr>ah_system := '''', ah_system_name := Some n\<rparr>"

lemma sample_table_documented: "table_sort_documented (ht_sort sample_table)"
  by (simp add: table_sort_documented_def sample_table_def)

theorem sorting_by_system_does_nothing_witness:
  "sorted_rows sample_table [(''system'', False)] '''' [sample_named ''a'' ''web'', sample_named ''b'' ''db''] = [0, 1]"
proof -
  have "list_all (served history_fields) [sample_named ''a'' ''web'', sample_named ''b'' ''db'']"
    by (simp add: served_def sample_named_def)
  moreover have "ht_auto sample_table v v = 0" for v by (simp add: sample_table_def)
  moreover have "sorted_rows sample_table [] '''' [sample_named ''a'' ''web'', sample_named ''b'' ''db''] = [0, 1]" by code_simp
  ultimately show ?thesis using sorting_by_system_does_nothing [OF sample_table_documented] by metis
qed

lemma hidden_rows_are_deleted:
  "let s = fold (history_step sample_table) [Loaded [sample_named ''a'' ''web'', sample_named ''b'' ''db''],
       Toggle_row 0 True, Toggle_row 1 True, Type_filter ''web'', Delete_open True, Continue_delete, Batch_answer 0 True]
       (history_initial (0, 10))
   in shown_selected sample_table (s\<lparr>hs_selection := [0, 1]\<rparr>) = [0] \<and> hs_deleted s = [''a'', ''b'']"
  by code_simp

subsection \<open>A well-formed state\<close>

definition history_typed :: "history_table \<Rightarrow> history_state \<Rightarrow> bool" where
  \<comment> \<open>the page size is one that is offered and the page exists; sorting is by one column that can sort;
      no row is selected twice; no request deletes more than 21 records\<close>
  "history_typed tb s \<longleftrightarrow> page_ok tb s
     \<and> (hs_sorting s = [] \<or> (\<exists>c desc. hs_sorting s = [(c, desc)] \<and> c \<in> hc_id ` set (filter hc_enableSorting history_columns)))
     \<and> distinct (hs_selection s)
     \<and> list_all (list_all (\<lambda>b. 0 < length b \<and> length b \<le> 21)) (hs_jobs s)"

fun history_click_ok :: "history_action \<Rightarrow> bool" where
  \<comment> \<open>headers are those of the table\<close>
  "history_click_ok (Click_head c) = (c \<in> set history_columns)"
| "history_click_ok a = True"

lemma distinct_fold_insert: "distinct xs \<Longrightarrow> distinct (fold List.insert ys xs)"
  by (induction ys arbitrary: xs) simp_all

lemma distinct_fold_removeAll: "distinct xs \<Longrightarrow> distinct (fold removeAll ys xs)"
  by (induction ys arbitrary: xs) (simp_all add: distinct_removeAll)

lemma answer_batch_jobs:
  assumes "list_all (list_all P) (hs_jobs s)" and "j < length (hs_jobs s)"
  shows "list_all (list_all P) (hs_jobs (answer_batch j ok s))"
proof -
  have "list_all P (hs_jobs s ! j)" using assms by (simp add: list_all_length)
  moreover have "list_all Q (xs[k := y])" if "list_all Q xs" "Q y" for Q k and xs :: "string list list list" and y
    using that set_update_subset_insert [of xs k y] by (auto simp: list_all_iff)
  ultimately show ?thesis using assms(1) by (auto simp: answer_batch_def split: list.splits)
qed

lemma history_typed_step [keeps]:
  assumes "history_typed tb s" and "history_click_ok a"
  shows "history_typed tb (history_step tb a s)"
proof -
  have p: "page_ok tb (history_step tb a s)" using assms(1) page_ok_step by (simp add: history_typed_def)
  have jobs: "list_all (list_all (\<lambda>b. 0 < length b \<and> length b \<le> 21)) (hs_jobs (history_step tb a s))"
  proof (cases a)
    case Continue_delete
    then show ?thesis using assms(1) bulk_delete_batches [of "selected_data s"] by (simp add: history_typed_def)
  next
    case (Batch_answer j ok)
    then show ?thesis using assms(1) answer_batch_jobs by (simp add: history_typed_def)
  qed (use assms(1) in \<open>auto simp: history_typed_def to_first_def setPageSize_def set_page_index_def\<close>)
  have sel: "distinct (hs_selection (history_step tb a s))"
    using assms(1) by (cases a) (auto simp: history_typed_def to_first_def setPageSize_def set_page_index_def answer_batch_def
      distinct_removeAll distinct_fold_insert distinct_fold_removeAll split: list.splits)
  have "hs_sorting (history_step tb a s) = hs_sorting s
      \<or> (\<exists>c desc. hs_sorting (history_step tb a s) = [(c, desc)] \<and> c \<in> hc_id ` set (filter hc_enableSorting history_columns))"
    using assms(2) by (cases a) (auto simp: to_first_def setPageSize_def set_page_index_def answer_batch_def split: list.splits)
  then show ?thesis using p jobs sel assms(1) by (auto simp: history_typed_def)
qed

text \<open>
  C30. The table's state stays well formed under every action once the records are loaded, whatever page was
  stored, as long as its size is one that is offered: the page shown exists, sorting is by one
  column that can sort, and deletions under way are in batches of 1 to 21 records.
\<close>
theorem history_table_typed:
  assumes "snd stored \<in> set page_sizes" and "list_all history_click_ok as"
  shows "history_typed tb (fold (history_step tb) (Loaded items # as) (history_initial stored))"
proof -
  have "history_typed tb s \<Longrightarrow> list_all history_click_ok as \<Longrightarrow> history_typed tb (fold (history_step tb) as s)" for s
    by (induction as arbitrary: s) (simp_all add: history_typed_step)
  moreover have "history_typed tb (history_step tb (Loaded items) (history_initial stored))"
    using assms(1) page_ok_first [of "history_initial stored\<lparr>hs_data := items\<rparr>" tb]
    by (simp add: history_typed_def history_initial_def to_first_def)
  ultimately show ?thesis using assms(2) by simp
qed

theorem history_table_typed_witness:
  "history_typed sample_table (fold (history_step sample_table)
     [Loaded (map (\<lambda>i. sample_named i ''web'') [''a'', ''b'']), Click_head (hd alertsHistoryColumns), Toggle_page True, Next_page]
     (history_initial (7, 10)))"
  by (rule history_table_typed) (simp_all add: page_sizes_def history_columns_def alertsHistoryColumns_def)

subsection \<open>What is rendered\<close>

datatype history_check = Unchecked | Checked | Indeterminate

definition page_check :: "history_table \<Rightarrow> history_state \<Rightarrow> history_check" where
  \<comment> \<open>all rows of the page, some of them, none (documented of getIsAllPageRowsSelected and getIsSomePageRowsSelected)\<close>
  "page_check tb s =
     (let rows = current_page tb s
      in if rows \<noteq> [] \<and> set rows \<subseteq> set (hs_selection s) then Checked
         else if set rows \<inter> set (hs_selection s) \<noteq> {} then Indeterminate else Unchecked)"

datatype history_head = Head_checkbox history_check | Head_button string bool  \<comment> \<open>whether it sorts\<close>

definition history_head :: "history_table \<Rightarrow> history_state \<Rightarrow> history_column \<Rightarrow> history_head" where
  "history_head tb s c = (case hc_header c of
       None \<Rightarrow> Head_checkbox (page_check tb s)
     | Some x \<Rightarrow> Head_button x (hc_clicks c))"

record history_page =
  hp_bulk :: bool
  hp_dialog :: bool
  hp_filter :: string
  hp_head :: "history_head list"
  hp_rows :: "(bool \<times> history_cell list) list"
  hp_noResults :: "nat option"
  hp_selected :: string
  hp_size :: string
  hp_sizes :: "string list"
  hp_position :: string
  hp_back :: bool  \<comment> \<open>whether the two buttons back are enabled\<close>
  hp_on :: bool

definition AlertsHistoryDataTable :: "history_table \<Rightarrow> history_state \<Rightarrow> history_page" where
  "AlertsHistoryDataTable tb s =
     (let rows = current_page tb s; shown = length (shown_selected tb s)
      in \<lparr>hp_bulk = 0 < shown, hp_dialog = (0 < shown \<and> hs_deleteOpen s), hp_filter = hs_filter s,
          hp_head = map (history_head tb s) history_columns,
          hp_rows = map (\<lambda>i. (i \<in> set (hs_selection s),
            map (\<lambda>c. hc_cell c (ht_context tb) (i \<in> set (hs_selection s)) (hs_data s ! i)) history_columns)) rows,
          hp_noResults = (if rows = [] then Some (length history_columns) else None),
          hp_selected = nat_str shown @ '' of '' @ nat_str (length (filtered_rows tb (hs_filter s) (hs_data s))) @ '' row(s) selected.'',
          hp_size = nat_str (snd (hs_page s)), hp_sizes = map nat_str page_sizes,
          hp_position = ''Page '' @ nat_str (Suc (fst (hs_page s))) @ '' of '' @ nat_str (pageCount tb s),
          hp_back = getCanPreviousPage s, hp_on = getCanNextPage tb s\<rparr>)"

definition export_click :: "history_table \<Rightarrow> history_state \<Rightarrow> string option" where
  \<comment> \<open>the file of the export button: all selected rows of the data\<close>
  "export_click tb s =
     (if shown_selected tb s = [] then None
      else handleExportCSV (hx_num (ht_context tb)) (hx_shortDate (ht_context tb)) (hx_parse (ht_context tb))
        (map ((!) (hs_data s)) (filter (\<lambda>i. i \<in> set (hs_selection s)) [0..<length (hs_data s)])))"

lemma page_drop: "concat (map (\<lambda>i. page_rows (i, k) rows) [0..<n]) @ page_rows (n, k) rows = take (Suc n * k) rows"
  using pages_from [of k rows "Suc n"] by simp

text \<open>
  In a well-formed state no filtered row is out of reach, and the message that there are no results
  stands only when the filter leaves none: going through the pages shows each row that passes the
  filter exactly once.
\<close>
theorem history_pages_show_all:
  assumes "table_sort_documented (ht_sort tb)" and "page_ok tb s"
  shows "(hp_noResults (AlertsHistoryDataTable tb s) \<noteq> None \<longleftrightarrow> filtered_rows tb (hs_filter s) (hs_data s) = [])
    \<and> mset (concat (map (\<lambda>i. current_page tb (set_page_index i s)) [0..<pageCount tb s]))
        = mset (filtered_rows tb (hs_filter s) (hs_data s))"
proof
  let ?n = "length (current_rows tb s)" and ?k = "snd (hs_page s)" and ?i = "fst (hs_page s)"
  have k: "0 < ?k" using assms(2) page_sizes_pos by (simp add: page_ok_def)
  have n: "?n = length (filtered_rows tb (hs_filter s) (hs_data s))"
    using length_sorted_rows [OF assms(1)] by (simp add: current_rows_def)
  have "?i * ?k < ?n" if "0 < ?n"
    using assms(2) in_page_count [OF k, of ?i ?n] in_page_count [OF k, of 0 ?n] that by (auto simp: page_ok_def pageCount_def max_def)
  then have "current_page tb s = [] \<longleftrightarrow> ?n = 0" using k by (cases "?n = 0") (simp_all add: current_page_def page_rows_def)
  then show "hp_noResults (AlertsHistoryDataTable tb s) \<noteq> None \<longleftrightarrow> filtered_rows tb (hs_filter s) (hs_data s) = []"
    using n by (auto simp: AlertsHistoryDataTable_def Let_def)
  have "current_page tb (set_page_index i s) = page_rows (i, ?k) (current_rows tb s)" for i
    by (simp add: current_page_def set_page_index_def current_rows_fields)
  then have "concat (map (\<lambda>i. current_page tb (set_page_index i s)) [0..<pageCount tb s]) = current_rows tb s"
    using pages_partition [OF k, of "current_rows tb s"] by (simp add: pageCount_def)
  then show "mset (concat (map (\<lambda>i. current_page tb (set_page_index i s)) [0..<pageCount tb s]))
        = mset (filtered_rows tb (hs_filter s) (hs_data s))"
    using mset_sorted_rows [OF assms(1)] by (simp add: current_rows_def)
qed

definition sample_history_state :: history_state where
  "sample_history_state = (history_initial (0, 10))\<lparr>hs_data := map (\<lambda>i. sample_named i ''web'') [''a'', ''b'']\<rparr>"

theorem history_pages_show_all_witness:
  "hp_noResults (AlertsHistoryDataTable sample_table sample_history_state) = None"
proof -
  have rows: "filtered_rows sample_table (hs_filter sample_history_state) (hs_data sample_history_state) = [0, 1]" by code_simp
  have "page_ok sample_table sample_history_state" by code_simp
  from history_pages_show_all [OF sample_table_documented this] show ?thesis by (auto simp: rows)
qed

text \<open>
  A realtime event while the question is open can leave no row selected, which takes the dialog away
  without closing it: the next row that is selected brings it back.
\<close>

lemma dialog_reopens:
  "map (hp_dialog \<circ> AlertsHistoryDataTable sample_table)
     (let s1 = fold (history_step sample_table) [Loaded (map (\<lambda>i. sample_named i ''web'') [''a'', ''b'']), Toggle_row 1 True,
                 Delete_open True] (history_initial (0, 10));
          s2 = history_step sample_table (Feed_event ''delete'' (sample_named ''b'' ''web'')) s1
      in [s1, s2, history_step sample_table (Toggle_row 0 True) s2]) = [True, False, True]"
  by code_simp

lemma mset_two: "mset xs = mset [a, b] \<Longrightarrow> xs \<in> {[a, b], [b, a]}"
proof -
  assume m: "mset xs = mset [a, b]"
  then have "length xs = 2" using mset_eq_length [OF m] by simp
  then obtain x y where "xs = [x, y]" by (auto simp: length_Suc_conv numeral_2_eq_2)
  then show ?thesis using m by (auto simp: add_eq_conv_ex)
qed

theorem bulk_delete_complete_witness:
  "hs_deleted (fold (history_step sample_table) [Loaded [sample_named ''a'' ''web'', sample_named ''b'' ''db''], Toggle_page True,
      Delete_open True, Continue_delete, Feed_event ''delete'' (sample_named ''a'' ''web''), Batch_answer 0 True]
      (history_initial (0, 10))) \<in> {[''a'', ''b''], [''b'', ''a'']}"
proof -
  define s where "s as = fold (history_step sample_table) as (history_initial (0, 10))" for as
  let ?as = "[Loaded [sample_named ''a'' ''web'', sample_named ''b'' ''db''], Toggle_page True, Delete_open True, Continue_delete,
    Feed_event ''delete'' (sample_named ''a'' ''web''), Batch_answer 0 True]"
  have s: "hs_confirmed (s ?as) = [''a'', ''b'']" "hs_jobs (s ?as) = [[]]" "hs_toasts (s ?as) = []"
    unfolding s_def by code_simp+
  note all = bulk_delete_complete [where tb = sample_table and stored = "(0, 10)" and as = ?as, folded s_def, THEN conjunct2, THEN conjunct1, THEN mp]
  have "mset (hs_deleted (s ?as)) = mset [''a'', ''b'']"
    unfolding s(1) [symmetric] by (rule all) (simp only: s list.pred_inject simp_thms)
  then have "hs_deleted (s ?as) \<in> {[''a'', ''b''], [''b'', ''a'']}" by (rule mset_two)
  then show ?thesis unfolding s_def .
qed

end
