(* ===== verification/Alerts_UI.thy ===== *)
theory Alerts_UI
  imports Alert_Manager Lib_Format
begin

section \<open>Alert settings and active alerts: alerts/alerts-sheet.tsx, alerts/alert-button.tsx, active-alerts.tsx\<close>

text \<open>
  The alert sheet of a system: which systems a change is sent to, the requests and the debouncers
  they go through, the limits on typed values, copying the alerts of another system; the button's
  highlight; and the list of active alerts with its memo key. The lemmas state whom a change
  reaches, that typed values stay within limits, that copying mirrors the source, and which
  requests are lost when changes follow each other quickly.
\<close>

definition alertKeys :: "string list" where "alertKeys = obj_keys alertInfo"

definition alertDebounce :: int where "alertDebounce = 400"

subsection \<open>Requests\<close>

record upsert_args =
  up_name :: string
  up_value :: rat
  up_min :: int
  up_systems :: "string list"

record delete_args =
  de_name :: string
  de_systems :: "string list"

datatype alert_request = Post_alert upsert_args | Delete_alert delete_args

definition upsertAlerts :: "(int \<times> upsert_args) list \<Rightarrow> alert_request list" where
  \<comment> \<open>the requests sent for the timed calls: one debounced function for all alerts\<close>
  "upsertAlerts calls = map Post_alert (debounced alertDebounce calls)"

definition deleteAlerts :: "(int \<times> delete_args) list \<Rightarrow> alert_request list" where
  "deleteAlerts calls = map Delete_alert (debounced alertDebounce calls)"

text \<open>
  Two alerts changed within 400 ms of each other lose the first change: the debounced upsert
  is shared by all alert types, so only the second call's request is sent.
\<close>
theorem quick_upsert_lost:
  assumes "t' < t + 400"
  shows "upsertAlerts [(t, a), (t', b)] = [Post_alert b]"
  using assms by (simp add: upsertAlerts_def debounced_two alertDebounce_def)

definition sample_upsert :: "string \<Rightarrow> upsert_args" where
  "sample_upsert n = \<lparr>up_name = n, up_value = 80, up_min = 10, up_systems = [''s'']\<rparr>"

theorem quick_upsert_lost_witness:
  "upsertAlerts [(0, sample_upsert ''CPU''), (300, sample_upsert ''Memory'')] = [Post_alert (sample_upsert ''Memory'')]"
  by (rule quick_upsert_lost) simp

subsection \<open>Whom a change reaches\<close>

definition getSystemIds ::
  "bool \<Rightarrow> bool \<Rightarrow> string \<Rightarrow> string \<Rightarrow> alerts_store \<Rightarrow> string list \<Rightarrow> string list" where
  \<comment> \<open>is_global, overwriteExisting, the alert key, the sheet's system, the alerts when the tab was
      opened, and the ids of $systems\<close>
  "getSystemIds is_global overwriteExisting alertKey systemId initialAlertsState allSystems =
     (if \<not> is_global then [systemId]
      else filter (\<lambda>i. overwriteExisting
             \<or> (case map_of initialAlertsState i of None \<Rightarrow> True | Some m \<Rightarrow> map_of m alertKey = None)) allSystems)"

definition sendUpsert :: "string \<Rightarrow> int \<Rightarrow> rat \<Rightarrow> string list \<Rightarrow> upsert_args option" where
  \<comment> \<open>the call of upsertAlerts, for the systems of getSystemIds, if any\<close>
  "sendUpsert alertKey m v systems =
     (if systems \<noteq> [] then Some \<lparr>up_name = alertKey, up_value = v, up_min = m, up_systems = systems\<rparr> else None)"

datatype toggle_effect = Upsert "upsert_args option" | Remove delete_args

definition onCheckedChange ::
  "bool \<Rightarrow> bool \<Rightarrow> string \<Rightarrow> int \<Rightarrow> rat \<Rightarrow> string list \<Rightarrow> alerts_store \<Rightarrow> toggle_effect \<times> alerts_store" where
  \<comment> \<open>the switch: the call made, and initialAlertsState, which a forced deletion changes in place\<close>
  "onCheckedChange newChecked overwriteExisting alertKey m v systems initialAlertsState =
     (if newChecked then (Upsert (sendUpsert alertKey m v systems), initialAlertsState)
      else (Remove \<lparr>de_name = alertKey, de_systems = systems\<rparr>,
            if overwriteExisting then map (\<lambda>(k, curAlerts). (k, AList.delete alertKey curAlerts)) initialAlertsState
            else initialAlertsState))"

text \<open>
  A change of all systems spares existing alerts unless overwriting is chosen: it reaches a
  system exactly when the system is known and, without overwriting, had no alert of that type
  when the tab was opened. A change of one system reaches that system only.
\<close>
theorem getSystemIds_exact:
  "set (getSystemIds is_global ow key sid initial systems) =
     (if is_global then {i. i \<in> set systems \<and> (ow \<or> alert_view initial (i, key) = None)} else {sid})"
  by (auto simp: getSystemIds_def alert_view_def split: option.splits)

lemma unchecking_always_deletes:
  \<comment> \<open>the comment in the source excludes the case of all systems without overwriting\<close>
  "fst (onCheckedChange False ow key m v systems initial) = Remove \<lparr>de_name = key, de_systems = systems\<rparr>"
  by (simp add: onCheckedChange_def)

lemma sendUpsert_empty: "sendUpsert key m v systems = None \<longleftrightarrow> systems = []"
  by (simp add: sendUpsert_def)

lemma map_of_map_values: "map_of (map (\<lambda>(k, v). (k, f v)) xs) k = map_option f (map_of xs k)"
  by (induction xs) auto

lemma forced_delete_reopens:
  \<comment> \<open>after a forced deletion every known system is reached again, with or without overwriting\<close>
  "set (getSystemIds True False key sid (snd (onCheckedChange False True key m v systems initial)) allSystems)
     = set allSystems"
  by (auto simp: getSystemIds_def onCheckedChange_def map_of_map_values split: option.splits)

subsection \<open>Values\<close>

definition initial_checked :: "bool \<Rightarrow> alert_record option \<Rightarrow> bool" where
  "initial_checked is_global alert = (if is_global then False else alert \<noteq> None)"

definition initial_min :: "alert_record option \<Rightarrow> int" where
  "initial_min alert = (case alert of Some a \<Rightarrow> if al_min a = 0 then 10 else al_min a | None \<Rightarrow> 10)"

definition initial_value :: "alert_info \<Rightarrow> alert_record option \<Rightarrow> rat" where
  "initial_value info alert =
     or_num (map_option al_value alert) (if str_truthy (ai_singleDesc info) then 0 else orelse (ai_start info) 80)"

definition value_input :: "alert_info \<Rightarrow> rat option \<Rightarrow> rat option" where
  \<comment> \<open>the value field: parsed is parseFloat of the text, None for NaN; the result is the new value\<close>
  "value_input info parsed = map_option (\<lambda>val.
     let val = (case ai_max info of Some m \<Rightarrow> min val m | None \<Rightarrow> val)
     in case ai_min info of Some m \<Rightarrow> max val m | None \<Rightarrow> val) parsed"

definition min_input :: "int option \<Rightarrow> int option" where
  \<comment> \<open>the minutes field: parsed is parseInt of the text\<close>
  "min_input parsed = map_option (\<lambda>val. max 1 (min val 60)) parsed"

lemma min_input_range: "min_input p = Some v \<Longrightarrow> 1 \<le> v \<and> v \<le> 60"
  by (auto simp: min_input_def)

lemma min_input_id: "1 \<le> v \<Longrightarrow> v \<le> 60 \<Longrightarrow> min_input (Some v) = Some v"
  by (simp add: min_input_def)

text \<open>
  Typed thresholds respect the alert's limits: for the load averages the sent value is within
  0.1 and 100, for the bandwidth at most 250, and a value within the limits is sent unchanged;
  the alert types with no limit of their own take any number.
\<close>
theorem value_input_limits:
  assumes "map_of alertInfo name = Some info" and "value_input info (Some x) = Some v"
  shows "(name \<in> {''LoadAvg1'', ''LoadAvg5'', ''LoadAvg15''} \<longrightarrow>
            1 / 10 \<le> v \<and> v \<le> 100 \<and> (1 / 10 \<le> x \<and> x \<le> 100 \<longrightarrow> v = x))
     \<and> (name = ''Bandwidth'' \<longrightarrow> v \<le> 250 \<and> (x \<le> 250 \<longrightarrow> v = x))
     \<and> (name \<in> {''Status'', ''CPU'', ''Memory'', ''Disk'', ''GPU''} \<longrightarrow> v = x)"
  using assms
  by (auto simp: alertInfo_def value_input_def plain_alert_info_def load_alert_info_def Let_def
      min_def max_def split: if_splits)

theorem value_input_limits_witness:
  "(''LoadAvg5'' \<in> {''LoadAvg1'', ''LoadAvg5'', ''LoadAvg15''} \<longrightarrow>
            1 / 10 \<le> (100 :: rat) \<and> (100 :: rat) \<le> 100 \<and> (1 / 10 \<le> (700 :: rat) \<and> (700 :: rat) \<le> 100 \<longrightarrow> (100 :: rat) = 700))
     \<and> (''LoadAvg5'' = ''Bandwidth'' \<longrightarrow> (100 :: rat) \<le> 250 \<and> ((700 :: rat) \<le> 250 \<longrightarrow> (100 :: rat) = 700))
     \<and> (''LoadAvg5'' \<in> {''Status'', ''CPU'', ''Memory'', ''Disk'', ''GPU''} \<longrightarrow> (100 :: rat) = 700)"
  by (rule value_input_limits [of "''LoadAvg5''" "load_alert_info ''Load Average 5m'' ''Triggers when 5 minute load average exceeds a threshold''"])
    (simp_all add: alertInfo_def value_input_def load_alert_info_def plain_alert_info_def)

subsection \<open>Copying alerts\<close>

definition alerts_of :: "alerts_store \<Rightarrow> string \<Rightarrow> system_alerts" where
  "alerts_of alerts i = orelse (map_of alerts i) []"

definition systemsWithAlerts :: "alerts_store \<Rightarrow> system_record list \<Rightarrow> string \<Rightarrow> system_record list" where
  "systemsWithAlerts alerts systems systemId =
     filter (\<lambda>s. sys_id s \<noteq> systemId \<and> alerts_of alerts (sys_id s) \<noteq> []) systems"

definition copy_requests :: "system_alerts \<Rightarrow> system_alerts \<Rightarrow> string \<Rightarrow> alert_request list" where
  \<comment> \<open>the requests of copyAlertsFromSystem for the source's and the target's alerts\<close>
  "copy_requests sourceAlerts currentTargetAlerts systemId =
     (let namesToDelete = filter (\<lambda>n. map_of sourceAlerts n = None) (map fst currentTargetAlerts)
      in map (\<lambda>(k, a). Post_alert \<lparr>up_name = al_name a, up_value = al_value a, up_min = al_min a,
               up_systems = [systemId]\<rparr>) sourceAlerts
         @ map (\<lambda>n. Delete_alert \<lparr>de_name = n, de_systems = [systemId]\<rparr>) namesToDelete)"

definition copied_alerts :: "system_alerts \<Rightarrow> string \<Rightarrow> system_alerts" where
  "copied_alerts sourceAlerts systemId =
     fold (\<lambda>(k, a) m. AList.update (al_name a) (a\<lparr>al_system := systemId, al_triggered := False\<rparr>) m) sourceAlerts []"

definition copyAlertsFromSystem ::
  "alerts_set_key \<Rightarrow> bool \<Rightarrow> string \<Rightarrow> string \<Rightarrow> alerts_store \<Rightarrow> alert_request list \<times> alerts_store" where
  \<comment> \<open>all_ok: every request succeeded\<close>
  "copyAlertsFromSystem set_key all_ok sourceSystemId systemId alerts =
     (let sourceAlerts = alerts_of alerts sourceSystemId
      in if sourceAlerts = [] then ([], alerts)
         else (copy_requests sourceAlerts (alerts_of alerts systemId) systemId,
               if all_ok then set_key systemId (Some (copied_alerts sourceAlerts systemId)) alerts else alerts))"

fun serve :: "alert_request \<Rightarrow> (string \<times> string \<Rightarrow> (rat \<times> int) option) \<Rightarrow> (string \<times> string \<Rightarrow> (rat \<times> int) option)" where
  \<comment> \<open>what the hub keeps for a system and an alert name: threshold and minutes\<close>
  "serve (Post_alert u) m = (\<lambda>(s, n). if s \<in> set (up_systems u) \<and> n = up_name u then Some (up_value u, up_min u) else m (s, n))"
| "serve (Delete_alert d) m = (\<lambda>(s, n). if s \<in> set (de_systems d) \<and> n = de_name d then None else m (s, n))"

definition names_keyed :: "system_alerts \<Rightarrow> bool" where
  "names_keyed m \<longleftrightarrow> distinct (map fst m) \<and> list_all (\<lambda>(k, a). al_name a = k) m"

lemma serve_posts:
  "list_all (\<lambda>(k, a). al_name a = k) src \<Longrightarrow> distinct (map fst src) \<Longrightarrow>
   fold serve (map (\<lambda>(k, a). Post_alert \<lparr>up_name = al_name a, up_value = al_value a, up_min = al_min a,
     up_systems = [sid]\<rparr>) src) m (s, n)
   = (if s = sid \<and> map_of src n \<noteq> None then map_option (\<lambda>a. (al_value a, al_min a)) (map_of src n) else m (s, n))"
proof (induction src arbitrary: m)
  case (Cons x src)
  obtain k a where x: "x = (k, a)" by (cases x)
  have "map_of src k = None" using Cons.prems by (simp add: x map_of_eq_None_iff)
  then show ?case using Cons by (auto simp: x)
qed simp

lemma serve_deletes:
  "fold serve (map (\<lambda>n. Delete_alert \<lparr>de_name = n, de_systems = [sid]\<rparr>) ns) m (s, n)
   = (if s = sid \<and> n \<in> set ns then None else m (s, n))"
  by (induction ns arbitrary: m) auto

lemma copied_alerts_at:
  assumes "names_keyed src"
  shows "map_of (copied_alerts src sid) n = map_option (\<lambda>a. a\<lparr>al_system := sid, al_triggered := False\<rparr>) (map_of src n)"
proof -
  have "map_of (fold (\<lambda>(k, a) m. AList.update (al_name a) (a\<lparr>al_system := sid, al_triggered := False\<rparr>) m) src m) n
      = (case map_of src n of None \<Rightarrow> map_of m n | Some a \<Rightarrow> Some (a\<lparr>al_system := sid, al_triggered := False\<rparr>))"
    if "names_keyed src" for m
    using that
  proof (induction src arbitrary: m)
    case (Cons x src)
    obtain k a where x: "x = (k, a)" by (cases x)
    have "map_of src k = None" "names_keyed src" "al_name a = k"
      using Cons.prems by (simp_all add: x map_of_eq_None_iff names_keyed_def)
    then show ?case using Cons.IH by (auto simp: x split: option.splits)
  qed simp
  from this [OF assms, of "[]"] show ?thesis by (auto simp: copied_alerts_def split: option.splits)
qed

text \<open>
  Copying mirrors the source: if the hub has the target's alerts as the store shows them, the
  requests leave it with exactly the source's thresholds and minutes for the target and everything
  of other systems as it was; and when they all succeed the store shows those alerts for the target,
  under its id and not triggered.
\<close>
theorem copy_mirrors_source:
  assumes "set_key_documented sk" and "names_keyed (alerts_of alerts src)" and "alerts_of alerts src \<noteq> []"
    and "\<And>n. hub (sid, n) \<noteq> None \<Longrightarrow> map_of (alerts_of alerts sid) n \<noteq> None"
  shows "fold serve (fst (copyAlertsFromSystem sk True src sid alerts)) hub (s, n)
      = (if s = sid then map_option (\<lambda>a. (al_value a, al_min a)) (map_of (alerts_of alerts src) n) else hub (s, n))
    \<and> alert_view (snd (copyAlertsFromSystem sk True src sid alerts)) (sid, n)
      = map_option (\<lambda>a. a\<lparr>al_system := sid, al_triggered := False\<rparr>) (map_of (alerts_of alerts src) n)"
proof -
  let ?src = "alerts_of alerts src"
  have ns: "n \<in> set (filter (\<lambda>n. map_of ?src n = None) (map fst (alerts_of alerts sid)))
      \<longleftrightarrow> map_of ?src n = None \<and> map_of (alerts_of alerts sid) n \<noteq> None"
    by (auto simp: map_of_eq_None_iff)
  have keyed: "list_all (\<lambda>(k, a). al_name a = k) ?src" "distinct (map fst ?src)"
    using assms(2) by (simp_all add: names_keyed_def)
  have "fold serve (copy_requests ?src (alerts_of alerts sid) sid) hub (s, n)
      = (if s = sid then map_option (\<lambda>a. (al_value a, al_min a)) (map_of ?src n) else hub (s, n))"
    using assms(4) [of n] ns
    by (cases "map_of ?src n"; cases "hub (sid, n)")
      (auto simp: copy_requests_def Let_def serve_deletes serve_posts [OF keyed] simp del: set_filter)
  moreover have "alert_view (sk sid (Some (copied_alerts ?src sid)) alerts) (sid, n)
      = map_option (\<lambda>a. a\<lparr>al_system := sid, al_triggered := False\<rparr>) (map_of ?src n)"
    using assms(1) by (simp add: alert_view_def set_key_documented_def copied_alerts_at [OF assms(2)])
  ultimately show ?thesis
    using assms(3) by (simp add: copyAlertsFromSystem_def Let_def)
qed

theorem copy_mirrors_source_witness:
  "fold serve (fst (copyAlertsFromSystem js_set_key True ''a'' ''b'' [(''a'', [(''CPU'', sample_alert ''a'' ''CPU'' 80)])]))
       (\<lambda>_. None) (''b'', ''CPU'')
      = (if ''b'' = ''b'' then map_option (\<lambda>a. (al_value a, al_min a))
           (map_of (alerts_of [(''a'', [(''CPU'', sample_alert ''a'' ''CPU'' 80)])] ''a'') ''CPU'') else None)
    \<and> alert_view (snd (copyAlertsFromSystem js_set_key True ''a'' ''b'' [(''a'', [(''CPU'', sample_alert ''a'' ''CPU'' 80)])])) (''b'', ''CPU'')
      = map_option (\<lambda>a. a\<lparr>al_system := ''b'', al_triggered := False\<rparr>)
          (map_of (alerts_of [(''a'', [(''CPU'', sample_alert ''a'' ''CPU'' 80)])] ''a'') ''CPU'')"
  by (rule copy_mirrors_source [OF js_set_key_documented])
    (simp_all add: alerts_of_def names_keyed_def sample_alert_def)

subsection \<open>The button and the active alerts\<close>

definition hasSystemAlert :: "alerts_store \<Rightarrow> string \<Rightarrow> bool" where
  "hasSystemAlert alerts i = (0 < length (alerts_of alerts i))"

definition activeAlerts :: "alerts_store \<Rightarrow> alert_record list" where
  "activeAlerts alerts =
     filter (\<lambda>a. al_triggered a \<and> map_of alertInfo (al_name a) \<noteq> None)
       (concat (map (\<lambda>(k, m). map snd m) (obj_entries alerts)))"

definition alertsKey :: "(rat \<Rightarrow> string) \<Rightarrow> alerts_store \<Rightarrow> string" where
  \<comment> \<open>the memo key of the list shown: alertsKey.join("")\<close>
  "alertsKey num_str alerts =
     join '''' (map (\<lambda>a. al_system a @ num_str (al_value a) @ int_str (al_min a)) (activeAlerts alerts))"

definition alert_description :: "(rat \<Rightarrow> string) \<Rightarrow> alert_record \<Rightarrow> alert_info \<Rightarrow> string" where
  \<comment> \<open>the text of an active alert; no entry of alertInfo inverts its condition\<close>
  "alert_description num_str a info =
     (if al_name a = ''Status'' then ''Connection is down''
      else ''Exceeds '' @ num_str (al_value a) @ ai_unit info @ '' in last '' @ plural (al_min a) ''# minute'' ''# minutes'')"

lemma set_activeAlerts:
  "set (activeAlerts alerts) = {a. al_triggered a \<and> map_of alertInfo (al_name a) \<noteq> None
     \<and> (\<exists>(k, m) \<in> set alerts. a \<in> snd ` set m)}"
  by (auto simp: activeAlerts_def)

text \<open>
  The memo key of the active alerts does not tell alert types apart: an active alert and
  another of the same system, threshold and minutes but of another type give the same key, so the
  list on screen keeps showing the old one when the new one replaces it.
\<close>
theorem active_alerts_key_collision:
  assumes "al_system a = al_system b" and "al_value a = al_value b" and "al_min a = al_min b"
    and "al_triggered a" and "al_triggered b"
    and "map_of alertInfo (al_name a) \<noteq> None" and "map_of alertInfo (al_name b) \<noteq> None"
  shows "alertsKey num_str [(s, [(al_name a, a)])] = alertsKey num_str [(s, [(al_name b, b)])]
     \<and> activeAlerts [(s, [(al_name a, a)])] = [a] \<and> activeAlerts [(s, [(al_name b, b)])] = [b]"
proof -
  have "activeAlerts [(s, [(al_name x, x)])] = [x]" if "al_triggered x" "map_of alertInfo (al_name x) \<noteq> None" for x
    using that by (cases "is_array_index s") (simp_all add: activeAlerts_def obj_entries_def)
  then show ?thesis using assms by (simp add: alertsKey_def)
qed

theorem active_alerts_key_collision_witness:
  "alertsKey (\<lambda>_. ''80'') [(''s'', [(al_name (sample_alert ''s'' ''CPU'' 80\<lparr>al_triggered := True\<rparr>), sample_alert ''s'' ''CPU'' 80\<lparr>al_triggered := True\<rparr>)])]
     = alertsKey (\<lambda>_. ''80'') [(''s'', [(al_name (sample_alert ''s'' ''Disk'' 80\<lparr>al_triggered := True\<rparr>), sample_alert ''s'' ''Disk'' 80\<lparr>al_triggered := True\<rparr>)])]
     \<and> activeAlerts [(''s'', [(al_name (sample_alert ''s'' ''CPU'' 80\<lparr>al_triggered := True\<rparr>), sample_alert ''s'' ''CPU'' 80\<lparr>al_triggered := True\<rparr>)])]
       = [sample_alert ''s'' ''CPU'' 80\<lparr>al_triggered := True\<rparr>]
     \<and> activeAlerts [(''s'', [(al_name (sample_alert ''s'' ''Disk'' 80\<lparr>al_triggered := True\<rparr>), sample_alert ''s'' ''Disk'' 80\<lparr>al_triggered := True\<rparr>)])]
       = [sample_alert ''s'' ''Disk'' 80\<lparr>al_triggered := True\<rparr>]"
  by (rule active_alerts_key_collision) (simp_all add: sample_alert_def alertInfo_def)

end
