(* ===== verification/Alerts_Dialog.thy ===== *)
theory Alerts_Dialog
  imports Alerts_UI
begin

section \<open>The alert dialog and its button: alerts/alerts-sheet.tsx, alerts/alert-button.tsx\<close>

text \<open>
  The state of one alert's controls and what each control sends; the two tabs of the dialog with
  the alerts kept when the tab of all systems was opened, which may or may not be the store's own
  objects; and the bell button, which memoizes its dialog. The lemmas show that what is sent is
  what is shown, that forced deletions never change the store's objects, and whose dialog the
  button opens.
\<close>

subsection \<open>One alert's controls: AlertContent\<close>

record content_state =
  ac_checked :: bool
  ac_min :: int
  ac_value :: rat

definition mount_content :: "bool \<Rightarrow> alert_info \<Rightarrow> alert_record option \<Rightarrow> content_state" where
  "mount_content is_global info alert =
     \<lparr>ac_checked = initial_checked is_global alert, ac_min = initial_min alert, ac_value = initial_value info alert\<rparr>"

datatype content_action =
    Toggle bool
  | Value_slide rat
  | Value_commit rat
  | Value_typed "rat option"
  | Min_slide int
  | Min_commit int
  | Min_typed "int option"

text \<open>What a control sends: the arguments of upsertAlerts or of deleteAlerts, if anything.\<close>

datatype content_call = No_call | Upsert_call "upsert_args option" | Delete_call delete_args

definition has_value_controls :: "alert_info \<Rightarrow> bool" where
  "has_value_controls info \<longleftrightarrow> \<not> str_truthy (ai_singleDesc info)"

fun content_step :: "string \<Rightarrow> alert_info \<Rightarrow> string list \<Rightarrow> content_action \<Rightarrow> content_state \<Rightarrow> content_call \<times> content_state" where
  \<comment> \<open>systems is the result of getSystemIds; sliders and fields exist only while the alert is checked,
      those of the value only without a single description\<close>
  "content_step key info systems (Toggle b) s =
     (if b then Upsert_call (sendUpsert key (ac_min s) (ac_value s) systems)
      else Delete_call \<lparr>de_name = key, de_systems = systems\<rparr>, s\<lparr>ac_checked := b\<rparr>)"
| "content_step key info systems (Value_slide v) s =
     (No_call, if ac_checked s \<and> has_value_controls info then s\<lparr>ac_value := v\<rparr> else s)"
| "content_step key info systems (Value_commit v) s =
     (if ac_checked s \<and> has_value_controls info then (Upsert_call (sendUpsert key (ac_min s) v systems), s) else (No_call, s))"
| "content_step key info systems (Value_typed parsed) s =
     (if ac_checked s \<and> has_value_controls info then
        (case value_input info parsed of
           Some v \<Rightarrow> (Upsert_call (sendUpsert key (ac_min s) v systems), s\<lparr>ac_value := v\<rparr>)
         | None \<Rightarrow> (No_call, s))
      else (No_call, s))"
| "content_step key info systems (Min_slide m) s = (No_call, if ac_checked s then s\<lparr>ac_min := m\<rparr> else s)"
| "content_step key info systems (Min_commit m) s =
     (if ac_checked s then (Upsert_call (sendUpsert key m (ac_value s) systems), s) else (No_call, s))"
| "content_step key info systems (Min_typed parsed) s =
     (if ac_checked s then
        (case min_input parsed of
           Some m \<Rightarrow> (Upsert_call (sendUpsert key m (ac_value s) systems), s\<lparr>ac_min := m\<rparr>)
         | None \<Rightarrow> (No_call, s))
      else (No_call, s))"

fun content_run ::
  "string \<Rightarrow> alert_info \<Rightarrow> string list \<Rightarrow> content_action list \<Rightarrow> content_state \<Rightarrow> (content_call \<times> content_state) list" where
  \<comment> \<open>the call of each action with the state after it\<close>
  "content_run key info systems [] s = []"
| "content_run key info systems (a # as) s =
     (let r = content_step key info systems a s in r # content_run key info systems as (snd r))"

fun slider_ok :: "alert_info \<Rightarrow> content_action \<Rightarrow> content_state \<Rightarrow> bool" where
  \<comment> \<open>documented of the slider: its values are within its limits, and it commits the value it last slid to\<close>
  "slider_ok info (Value_slide v) s = (orelse (ai_min info) 1 \<le> v \<and> v \<le> orelse (ai_max info) 99)"
| "slider_ok info (Value_commit v) s = (v = ac_value s)"
| "slider_ok info (Min_slide m) s = (1 \<le> m \<and> m \<le> 60)"
| "slider_ok info (Min_commit m) s = (m = ac_min s)"
| "slider_ok info a s = True"

fun sliders_ok :: "string \<Rightarrow> alert_info \<Rightarrow> string list \<Rightarrow> content_action list \<Rightarrow> content_state \<Rightarrow> bool" where
  "sliders_ok key info systems [] s = True"
| "sliders_ok key info systems (a # as) s =
     (slider_ok info a s \<and> sliders_ok key info systems as (snd (content_step key info systems a s)))"

definition call_shows :: "string \<Rightarrow> string list \<Rightarrow> content_call \<Rightarrow> content_state \<Rightarrow> bool" where
  \<comment> \<open>a call is for the alert and the systems, with the minutes and the value on screen\<close>
  "call_shows key systems c s = (case c of
       No_call \<Rightarrow> True
     | Upsert_call None \<Rightarrow> systems = []
     | Upsert_call (Some u) \<Rightarrow> ac_checked s
         \<and> u = \<lparr>up_name = key, up_value = ac_value s, up_min = ac_min s, up_systems = systems\<rparr>
     | Delete_call d \<Rightarrow> \<not> ac_checked s \<and> d = \<lparr>de_name = key, de_systems = systems\<rparr>)"

lemma content_step_shows:
  "slider_ok info a s \<Longrightarrow> call_shows key systems (fst (content_step key info systems a s)) (snd (content_step key info systems a s))"
  by (cases a) (auto simp: call_shows_def sendUpsert_def split: option.splits)

lemma content_step_min:
  "slider_ok info a s \<Longrightarrow> 1 \<le> ac_min s \<Longrightarrow> ac_min s \<le> 60 \<Longrightarrow>
     1 \<le> ac_min (snd (content_step key info systems a s)) \<and> ac_min (snd (content_step key info systems a s)) \<le> 60"
  by (cases a) (auto split: option.splits dest: min_input_range)

lemma content_run_shows:
  assumes "sliders_ok key info systems as s" and "1 \<le> ac_min s" and "ac_min s \<le> 60"
  shows "list_all (\<lambda>(c, s'). call_shows key systems c s' \<and> 1 \<le> ac_min s' \<and> ac_min s' \<le> 60) (content_run key info systems as s)"
  using assms
proof (induction as arbitrary: s)
  case (Cons a as)
  let ?r = "content_step key info systems a s"
  have "1 \<le> ac_min (snd ?r) \<and> ac_min (snd ?r) \<le> 60" using content_step_min [of info a s] Cons.prems by simp
  moreover have "call_shows key systems (fst ?r) (snd ?r)" using content_step_shows [of info a s] Cons.prems by simp
  ultimately show ?case using Cons.IH [of "snd ?r"] Cons.prems by (simp add: Let_def case_prod_unfold)
qed simp

text \<open>
  What is sent is what is shown: after any use of the switch, sliders and fields, each call carries
  the alert's name, the systems it is for, and the value and minutes on screen at that moment; an
  upsert is sent only while the alert is switched on, a deletion only when it has been switched
  off; and the minutes stay between 1 and 60 if the stored ones are.
\<close>
theorem alert_controls_send_what_is_shown:
  assumes "sliders_ok key info systems as (mount_content is_global info alert)"
    and "\<And>a. alert = Some a \<Longrightarrow> 0 \<le> al_min a \<and> al_min a \<le> 60"
  shows "list_all (\<lambda>(c, s). call_shows key systems c s \<and> 1 \<le> ac_min s \<and> ac_min s \<le> 60)
     (content_run key info systems as (mount_content is_global info alert))"
proof (rule content_run_shows [OF assms(1)])
  show "1 \<le> ac_min (mount_content is_global info alert)" "ac_min (mount_content is_global info alert) \<le> 60"
    using assms(2) by (auto simp: mount_content_def initial_min_def split: option.splits)
qed

theorem alert_controls_send_what_is_shown_witness:
  "map fst (content_run ''CPU'' (plain_alert_info ''CPU Usage'' ''%'' ''d'') [''s''] [Toggle True, Min_typed (Some 90)]
      (mount_content False (plain_alert_info ''CPU Usage'' ''%'' ''d'') None))
   = [Upsert_call (Some \<lparr>up_name = ''CPU'', up_value = 80, up_min = 10, up_systems = [''s'']\<rparr>),
      Upsert_call (Some \<lparr>up_name = ''CPU'', up_value = 80, up_min = 60, up_systems = [''s'']\<rparr>)]"
proof -
  let ?info = "plain_alert_info ''CPU Usage'' ''%'' ''d''"
  have "list_all (\<lambda>(c, s). call_shows ''CPU'' [''s''] c s \<and> 1 \<le> ac_min s \<and> ac_min s \<le> 60)
     (content_run ''CPU'' ?info [''s''] [Toggle True, Min_typed (Some 90)] (mount_content False ?info None))"
    by (rule alert_controls_send_what_is_shown) simp_all
  then show ?thesis
    by (simp add: mount_content_def initial_min_def initial_value_def initial_checked_def plain_alert_info_def or_num_def
        sendUpsert_def min_input_def Let_def call_shows_def)
qed

subsection \<open>The tabs and the alerts they compare with: AlertDialogContent\<close>

text \<open>
  The Map objects of the store and of initialAlertsState, by address. A forced deletion changes the
  objects of initialAlertsState in place; the store's own objects are never changed, a new one is
  put in with setKey. Selecting the tab of all systems clones the store; selecting the other tab
  takes the store's objects themselves.
\<close>

record objects_state =
  ob_map :: "nat \<Rightarrow> system_alerts"
  ob_next :: nat
  ob_store :: "(string \<times> nat) list"
  ob_initial :: "(string \<times> nat) list"
  ob_tab :: string

fun clone_objects :: "(string \<times> nat) list \<Rightarrow> objects_state \<Rightarrow> (string \<times> nat) list \<times> objects_state" where
  \<comment> \<open>structuredClone: a new object for each\<close>
  "clone_objects [] s = ([], s)"
| "clone_objects ((i, a) # refs) s =
     (let n = ob_next s;
          (refs', s') = clone_objects refs (s\<lparr>ob_map := (ob_map s)(n := ob_map s a), ob_next := Suc n\<rparr>)
      in ((i, n) # refs', s'))"

definition select_tab :: "string \<Rightarrow> objects_state \<Rightarrow> objects_state" where
  \<comment> \<open>setCurrentTab and alertsWhenGlobalSelected, whose memo depends on the tab alone\<close>
  "select_tab tab s =
     (if tab = ob_tab s then s
      else if tab = ''global'' then (let (refs, s') = clone_objects (ob_store s) s in s'\<lparr>ob_initial := refs, ob_tab := tab\<rparr>)
      else s\<lparr>ob_initial := ob_store s, ob_tab := tab\<rparr>)"

definition force_delete :: "string \<Rightarrow> objects_state \<Rightarrow> objects_state" where
  \<comment> \<open>the loop over initialAlertsState; only the controls of the tab of all systems are given it\<close>
  "force_delete key s =
     (if ob_tab s = ''global''
      then s\<lparr>ob_map := fold (\<lambda>(i, a) m. m(a := AList.delete key (m a))) (ob_initial s) (ob_map s)\<rparr> else s)"

definition store_set :: "string \<Rightarrow> system_alerts \<Rightarrow> objects_state \<Rightarrow> objects_state" where
  \<comment> \<open>$alerts.setKey with a new Map\<close>
  "store_set i m s = s\<lparr>ob_map := (ob_map s)(ob_next s := m), ob_store := AList.update i (ob_next s) (ob_store s),
     ob_next := Suc (ob_next s)\<rparr>"

datatype objects_action = Select_tab string | Force_delete string | Store_set string system_alerts

fun objects_act :: "objects_action \<Rightarrow> objects_state \<Rightarrow> objects_state" where
  "objects_act (Select_tab t) s = select_tab t s"
| "objects_act (Force_delete k) s = force_delete k s"
| "objects_act (Store_set i m) s = store_set i m s"

definition store_contents :: "objects_state \<Rightarrow> string \<Rightarrow> system_alerts option" where
  "store_contents s i = map_option (ob_map s) (map_of (ob_store s) i)"

definition objects_ok :: "objects_state \<Rightarrow> bool" where
  "objects_ok s \<longleftrightarrow> snd ` set (ob_store s) \<subseteq> {..< ob_next s} \<and> snd ` set (ob_initial s) \<subseteq> {..< ob_next s}
     \<and> (ob_tab s = ''global'' \<longrightarrow> snd ` set (ob_initial s) \<inter> snd ` set (ob_store s) = {})"

lemma clone_objects_spec:
  "clone_objects refs s = (refs', s') \<Longrightarrow>
     ob_store s' = ob_store s \<and> ob_tab s' = ob_tab s \<and> ob_next s \<le> ob_next s'
     \<and> snd ` set refs' \<subseteq> {ob_next s ..< ob_next s'} \<and> (\<forall>a < ob_next s. ob_map s' a = ob_map s a)"
proof (induction refs s arbitrary: refs' s' rule: clone_objects.induct)
  case (2 i a refs s)
  let ?s = "s\<lparr>ob_map := (ob_map s)(ob_next s := ob_map s a), ob_next := Suc (ob_next s)\<rparr>"
  obtain rs t where c: "clone_objects refs ?s = (rs, t)" by fastforce
  then have "refs' = (i, ob_next s) # rs" "s' = t" using 2(2) by (auto simp: Let_def)
  moreover have "ob_store t = ob_store s \<and> ob_tab t = ob_tab s \<and> Suc (ob_next s) \<le> ob_next t
      \<and> snd ` set rs \<subseteq> {Suc (ob_next s) ..< ob_next t} \<and> (\<forall>a < Suc (ob_next s). ob_map t a = ob_map ?s a)"
    using 2(1) [OF refl c] by simp
  ultimately show ?case by (auto simp: less_Suc_eq)
qed simp

lemma map_of_in_image: "map_of m i = Some a \<Longrightarrow> a \<in> snd ` set m"
  by (force dest: map_of_SomeD)

lemma select_tab_spec:
  assumes "objects_ok s"
  shows "objects_ok (select_tab t s) \<and> store_contents (select_tab t s) = store_contents s"
proof (cases "t \<noteq> ob_tab s \<and> t = ''global''")
  case True
  obtain refs s' where c: "clone_objects (ob_store s) s = (refs, s')" by fastforce
  note f = clone_objects_spec [OF c]
  have sel: "select_tab t s = s'\<lparr>ob_initial := refs, ob_tab := t\<rparr>" using True c by (auto simp: select_tab_def)
  have st: "snd ` set (ob_store s) \<subseteq> {..< ob_next s}" using assms by (simp add: objects_ok_def)
  have "snd ` set refs \<inter> snd ` set (ob_store s) = {}" using f st by fastforce
  moreover have "snd ` set refs \<subseteq> {..< ob_next s'}" using f by fastforce
  moreover have "snd ` set (ob_store s) \<subseteq> {..< ob_next s'}" using f st by fastforce
  ultimately have "objects_ok (select_tab t s)" using f by (simp add: sel objects_ok_def)
  moreover have "store_contents (select_tab t s) i = store_contents s i" for i
    using f st map_of_in_image [of "ob_store s" i] by (cases "map_of (ob_store s) i") (auto simp: sel store_contents_def)
  ultimately show ?thesis by blast
next
  case False
  then show ?thesis using assms by (auto simp: select_tab_def objects_ok_def store_contents_def)
qed

lemma fold_delete_other:
  "a \<notin> snd ` set refs \<Longrightarrow> fold (\<lambda>(i, a) m. m(a := AList.delete key (m a))) refs m a = m a"
  by (induction refs arbitrary: m) auto

lemma force_delete_spec:
  assumes "objects_ok s"
  shows "objects_ok (force_delete k s) \<and> store_contents (force_delete k s) = store_contents s"
proof (cases "ob_tab s = ''global''")
  case True
  have "store_contents (force_delete k s) i = store_contents s i" for i
  proof (cases "map_of (ob_store s) i")
    case (Some a)
    then have "a \<notin> snd ` set (ob_initial s)"
      using assms True map_of_in_image [OF Some] by (auto simp: objects_ok_def)
    then show ?thesis using True Some by (simp add: force_delete_def store_contents_def fold_delete_other)
  qed (simp add: force_delete_def store_contents_def)
  then show ?thesis using assms True by (auto simp: force_delete_def objects_ok_def)
qed (use assms in \<open>simp add: force_delete_def\<close>)

lemma set_update_refs: "snd ` set (AList.update i n m) \<subseteq> insert n (snd ` set m)"
  by (induction m) auto

lemma disjoint_from_update: "A \<inter> B = {} \<Longrightarrow> n \<notin> A \<Longrightarrow> C \<subseteq> insert n B \<Longrightarrow> A \<inter> C = {}"
  by blast

lemma store_set_spec:
  assumes "objects_ok s"
  shows "objects_ok (store_set i m s) \<and> store_contents (store_set i m s) = (store_contents s)(i \<mapsto> m)"
proof
  have lt: "snd ` set (ob_store s) \<subseteq> {..< ob_next s}" "snd ` set (ob_initial s) \<subseteq> {..< ob_next s}"
    using assms by (simp_all add: objects_ok_def)
  let ?refs = "AList.update i (ob_next s) (ob_store s)"
  have sub: "snd ` set ?refs \<subseteq> insert (ob_next s) (snd ` set (ob_store s))" by (rule set_update_refs)
  have wide: "{..< ob_next s} \<subseteq> {..< Suc (ob_next s)}" "ob_next s \<in> {..< Suc (ob_next s)}" by simp_all
  have "insert (ob_next s) (snd ` set (ob_store s)) \<subseteq> {..< Suc (ob_next s)}"
    by (rule insert_subsetI [OF wide(2) subset_trans [OF lt(1) wide(1)]])
  with sub have "snd ` set ?refs \<subseteq> {..< Suc (ob_next s)}" by (rule subset_trans)
  moreover have "snd ` set (ob_initial s) \<subseteq> {..< Suc (ob_next s)}" using lt(2) wide(1) by (rule subset_trans)
  moreover have "snd ` set (ob_initial s) \<inter> snd ` set ?refs = {}" if "ob_tab s = ''global''"
  proof -
    have "snd ` set (ob_initial s) \<inter> snd ` set (ob_store s) = {}" using assms that by (simp add: objects_ok_def)
    moreover have "ob_next s \<notin> snd ` set (ob_initial s)"
      using subsetD [OF lt(2), of "ob_next s"] by (meson lessThan_iff less_irrefl)
    ultimately show ?thesis using sub by (rule disjoint_from_update)
  qed
  moreover have "ob_store (store_set i m s) = ?refs" "ob_initial (store_set i m s) = ob_initial s"
      "ob_next (store_set i m s) = Suc (ob_next s)" "ob_tab (store_set i m s) = ob_tab s"
    by (simp_all add: store_set_def)
  ultimately show "objects_ok (store_set i m s)" unfolding objects_ok_def by presburger
  show "store_contents (store_set i m s) = (store_contents s)(i \<mapsto> m)"
  proof
    fix j
    show "store_contents (store_set i m s) j = ((store_contents s)(i \<mapsto> m)) j"
    proof (cases "map_of (ob_store s) j")
      case (Some a)
      then have "a < ob_next s" using lt(1) map_of_in_image [OF Some] by auto
      then show ?thesis using Some by (simp add: store_set_def store_contents_def)
    qed (simp add: store_set_def store_contents_def)
  qed
qed

fun only_set :: "objects_action \<Rightarrow> (string \<Rightarrow> system_alerts option) \<Rightarrow> (string \<Rightarrow> system_alerts option)" where
  \<comment> \<open>the contents of the store if nothing but setKey touched it\<close>
  "only_set (Store_set i m) c = c(i \<mapsto> m)"
| "only_set a c = c"

definition objects_initial :: "(string \<times> system_alerts) list \<Rightarrow> objects_state" where
  \<comment> \<open>the dialog as it opens on a store\<close>
  "objects_initial alerts =
     (let refs = zip (map fst alerts) [0..< length alerts]
      in \<lparr>ob_map = (\<lambda>a. if a < length alerts then snd (alerts ! a) else []), ob_next = length alerts,
          ob_store = refs, ob_initial = refs, ob_tab = ''system''\<rparr>)"

lemma objects_initial_ok: "objects_ok (objects_initial alerts)"
  by (auto simp: objects_ok_def objects_initial_def Let_def set_zip)

text \<open>
  A forced deletion forgets only the dialog's own copy: whatever tabs are selected, deletions forced
  and realtime updates stored, in any order, the store holds what the updates alone put there, so
  its objects, which every other component shows, are never changed in place.
\<close>
theorem forced_deletion_spares_store:
  "store_contents (fold objects_act as (objects_initial alerts))
     = fold only_set as (store_contents (objects_initial alerts))"
proof -
  have "objects_ok s \<Longrightarrow> objects_ok (fold objects_act as s)
      \<and> store_contents (fold objects_act as s) = fold only_set as (store_contents s)" for s
  proof (induction as arbitrary: s)
    case (Cons a as)
    have "objects_ok (objects_act a s) \<and> store_contents (objects_act a s) = only_set a (store_contents s)"
      using Cons.prems select_tab_spec force_delete_spec store_set_spec by (cases a) simp_all
    then show ?case using Cons.IH by simp
  qed simp
  then show ?thesis using objects_initial_ok by blast
qed

subsection \<open>The bell button\<close>

text \<open>
  The button's element is memoized on whether it was opened and whether the system has alerts. The
  memo holds these and the system the element was made for.
\<close>

record button_state =
  bt_opened :: bool
  bt_memo :: "((bool \<times> bool) \<times> string) option"

definition button_initial :: button_state where
  "button_initial = \<lparr>bt_opened = False, bt_memo = None\<rparr>"

definition render_button :: "string \<times> bool \<Rightarrow> button_state \<Rightarrow> button_state" where
  \<comment> \<open>rendering for a system that has alerts or not\<close>
  "render_button p s =
     (case bt_memo s of
        Some (deps, element) \<Rightarrow> if deps = (bt_opened s, snd p) then s else s\<lparr>bt_memo := Some ((bt_opened s, snd p), fst p)\<rparr>
      | None \<Rightarrow> s\<lparr>bt_memo := Some ((bt_opened s, snd p), fst p)\<rparr>)"

definition click_button :: "string \<times> bool \<Rightarrow> button_state \<Rightarrow> button_state" where
  \<comment> \<open>setOpened(true), then the next rendering\<close>
  "click_button p s = render_button p (s\<lparr>bt_opened := True\<rparr>)"

definition dialog_system :: "button_state \<Rightarrow> string option" where
  \<comment> \<open>the system of the dialog in the sheet\<close>
  "dialog_system s = (case bt_memo s of Some ((True, has), i) \<Rightarrow> Some i | _ \<Rightarrow> None)"

definition never_opened :: "button_state \<Rightarrow> bool" where
  "never_opened s \<longleftrightarrow> \<not> bt_opened s \<and> (case bt_memo s of Some ((opened, has), i) \<Rightarrow> \<not> opened | None \<Rightarrow> True)"

lemma never_opened_render: "never_opened s \<Longrightarrow> never_opened (render_button p s)"
  by (cases "bt_memo s") (auto simp: never_opened_def render_button_def split: if_splits)

lemma never_opened_run: "never_opened s \<Longrightarrow> never_opened (fold render_button ps s)"
  by (induction ps arbitrary: s) (simp_all add: never_opened_render)

text \<open>
  A row of the systems table keeps its button when another system moves into its place. A button that
  has not been opened opens the dialog of its current system; but once opened it keeps the
  dialog of that system for every later one with alerts, or without, as it had: clicking the bell of
  one system then shows, and changes, the alerts of another.
\<close>
theorem opened_button_keeps_system:
  "dialog_system (click_button (j, h) (fold render_button ps button_initial)) = Some j
   \<and> (list_all (\<lambda>p. snd p = h) ps \<longrightarrow>
        dialog_system (click_button (k, h) (fold render_button ps (click_button (j, h) button_initial))) = Some j)"
proof -
  have "never_opened (fold render_button ps button_initial)"
    by (rule never_opened_run) (simp add: never_opened_def button_initial_def)
  then have "dialog_system (click_button (j, h) (fold render_button ps button_initial)) = Some j"
    by (auto simp: never_opened_def click_button_def render_button_def dialog_system_def split: option.splits)
  moreover have "fold render_button ps s = s" if "list_all (\<lambda>p. snd p = h) ps" "bt_opened s" "bt_memo s = Some ((True, h), j)" for s
    using that by (induction ps) (auto simp: render_button_def)
  then have "list_all (\<lambda>p. snd p = h) ps \<Longrightarrow> fold render_button ps (click_button (j, h) button_initial) = click_button (j, h) button_initial"
    by (simp add: button_initial_def click_button_def render_button_def)
  then have "list_all (\<lambda>p. snd p = h) ps \<longrightarrow>
      dialog_system (click_button (k, h) (fold render_button ps (click_button (j, h) button_initial))) = Some j"
    by (simp add: button_initial_def click_button_def render_button_def dialog_system_def)
  ultimately show ?thesis by blast
qed

theorem opened_button_keeps_system_witness:
  "dialog_system (click_button (''b'', True) (fold render_button [(''b'', True)] (click_button (''a'', True) button_initial))) = Some ''a''"
  using opened_button_keeps_system [of "''a''" True "[(''b'', True)]" "''b''"] by simp

end
