(* ===== verification/Alerts_Sheet.thy ===== *)
theory Alerts_Sheet
  imports Alerts_Dialog
begin

section \<open>The alert dialog as a whole: AlertDialogContent of alerts/alerts-sheet.tsx\<close>

text \<open>
  The dialog of one system: its tabs, each with the controls of all alert types; the menu to copy
  another system's alerts; the debounced requests with their timers; and what is rendered. The
  lemmas show what the controls hold after mounting and copying, that the hub ends with what the
  control used last shows, and which systems are spared when all systems are changed.
\<close>

subsection \<open>The two debounced functions\<close>

text \<open>
  upsertAlerts and deleteAlerts each have one timer, set anew by each call. Both wait equally long, so
  the timers are a list in the order they were set, which is the order they run out.
\<close>

type_synonym alert_timers = "(int \<times> alert_request) list"

fun is_post :: "alert_request \<Rightarrow> bool" where
  "is_post (Post_alert u) = True"
| "is_post (Delete_alert d) = False"

fun request_name :: "alert_request \<Rightarrow> string" where
  "request_name (Post_alert u) = up_name u"
| "request_name (Delete_alert d) = de_name d"

fun request_systems :: "alert_request \<Rightarrow> string list" where
  "request_systems (Post_alert u) = up_systems u"
| "request_systems (Delete_alert d) = de_systems d"

definition call_debounced :: "int \<Rightarrow> alert_request \<Rightarrow> alert_timers \<Rightarrow> alert_timers" where
  "call_debounced now r timers = filter (\<lambda>(d, q). is_post q \<noteq> is_post r) timers @ [(now + alertDebounce, r)]"

fun call_request :: "content_call \<Rightarrow> alert_request option" where
  "call_request No_call = None"
| "call_request (Upsert_call u) = map_option Post_alert u"
| "call_request (Delete_call d) = Some (Delete_alert d)"

subsection \<open>State and actions\<close>

text \<open>
  The stores are values; initialAlertsState is what was kept of the alerts when the tab was chosen. A
  copy waits for its requests with the alerts it copies. Only the chosen tab's controls are mounted.
\<close>

record alerts_dialog_state =
  dg_now :: int
  dg_alerts :: alerts_store
  dg_systems :: "string list"
  dg_tab :: string
  dg_copyKey :: nat
  dg_overwrite :: bool
  dg_initial :: alerts_store
  dg_contents :: "(string \<times> content_state) list"
  dg_timers :: alert_timers
  dg_copies :: "system_alerts list"
  dg_sent :: "alert_request list"
  dg_toasts :: nat

definition mount_contents :: "string \<Rightarrow> bool \<Rightarrow> alerts_store \<Rightarrow> (string \<times> content_state) list" where
  "mount_contents systemId is_global alerts =
     map (\<lambda>(name, info). (name, mount_content is_global info (map_of (alerts_of alerts systemId) name))) alertInfo"

definition dialog_initial :: "string \<Rightarrow> alerts_store \<Rightarrow> string list \<Rightarrow> alerts_dialog_state" where
  "dialog_initial systemId alerts systems =
     \<lparr>dg_now = 0, dg_alerts = alerts, dg_systems = systems, dg_tab = ''system'', dg_copyKey = 0, dg_overwrite = False,
      dg_initial = alerts, dg_contents = mount_contents systemId False alerts, dg_timers = [], dg_copies = [], dg_sent = [],
      dg_toasts = 0\<rparr>"

datatype dialog_action =
    Choose_tab string
  | Overwrite_existing bool
  | Use_control string content_action
  | Copy_from string
  | Copy_answer nat bool
  | Alerts_changed alerts_store
  | Systems_changed "string list"
  | Wait nat

definition dialog_targets :: "string \<Rightarrow> string \<Rightarrow> alerts_dialog_state \<Rightarrow> string list" where
  \<comment> \<open>getSystemIds of the mounted controls of an alert type\<close>
  "dialog_targets systemId key s =
     getSystemIds (dg_tab s = ''global'') (dg_tab s = ''global'' \<and> dg_overwrite s) key systemId (dg_initial s) (dg_systems s)"

definition use_control :: "string \<Rightarrow> string \<Rightarrow> content_action \<Rightarrow> alerts_dialog_state \<Rightarrow> alerts_dialog_state" where
  "use_control systemId key a s = (case (map_of (dg_contents s) key, map_of alertInfo key) of
       (Some c, Some info) \<Rightarrow>
         (let (call, c') = content_step key info (dialog_targets systemId key s) a c;
              timers = (case call_request call of Some r \<Rightarrow> call_debounced (dg_now s) r (dg_timers s) | None \<Rightarrow> dg_timers s);
              initial = (if a = Toggle False \<and> dg_tab s = ''global'' \<and> dg_overwrite s
                         then map (\<lambda>(i, m). (i, AList.delete key m)) (dg_initial s) else dg_initial s)
          in s\<lparr>dg_contents := AList.update key c' (dg_contents s), dg_timers := timers, dg_initial := initial\<rparr>)
     | _ \<Rightarrow> s)"

definition choose_tab :: "string \<Rightarrow> string \<Rightarrow> alerts_dialog_state \<Rightarrow> alerts_dialog_state" where
  \<comment> \<open>the other tab's controls are mounted, with the alerts of now\<close>
  "choose_tab systemId tab s =
     (if tab = dg_tab s \<or> tab \<notin> {''system'', ''global''} then s
      else s\<lparr>dg_tab := tab, dg_initial := dg_alerts s, dg_contents := mount_contents systemId (tab = ''global'') (dg_alerts s)\<rparr>)"

definition copy_menu :: "string \<Rightarrow> alerts_dialog_state \<Rightarrow> string list" where
  \<comment> \<open>the systems offered: those with alerts, in the tab of the system\<close>
  "copy_menu systemId s =
     (if dg_tab s = ''system'' then filter (\<lambda>i. i \<noteq> systemId \<and> alerts_of (dg_alerts s) i \<noteq> []) (dg_systems s) else [])"

definition copy_from :: "string \<Rightarrow> string \<Rightarrow> alerts_dialog_state \<Rightarrow> alerts_dialog_state" where
  \<comment> \<open>the requests before the await\<close>
  "copy_from systemId source s =
     (let sourceAlerts = alerts_of (dg_alerts s) source
      in if source \<notin> set (copy_menu systemId s) \<or> sourceAlerts = [] then s
         else s\<lparr>dg_sent := dg_sent s @ copy_requests sourceAlerts (alerts_of (dg_alerts s) systemId) systemId,
                dg_copies := dg_copies s @ [sourceAlerts]\<rparr>)"

definition copy_answer :: "alerts_set_key \<Rightarrow> string \<Rightarrow> nat \<Rightarrow> bool \<Rightarrow> alerts_dialog_state \<Rightarrow> alerts_dialog_state" where
  \<comment> \<open>after the await: the store is updated and the system's controls are mounted anew\<close>
  "copy_answer set_key systemId k ok s =
     (if length (dg_copies s) \<le> k then s
      else (let src = dg_copies s ! k;
                s' = s\<lparr>dg_copies := take k (dg_copies s) @ drop (Suc k) (dg_copies s)\<rparr>;
                alerts = set_key systemId (Some (copied_alerts src systemId)) (dg_alerts s)
            in if \<not> ok then s'\<lparr>dg_toasts := Suc (dg_toasts s)\<rparr>
               else s'\<lparr>dg_alerts := alerts, dg_copyKey := Suc (dg_copyKey s),
                       dg_contents := (if dg_tab s = ''system'' then mount_contents systemId False alerts else dg_contents s)\<rparr>))"

definition run_timers :: "alerts_dialog_state \<Rightarrow> alerts_dialog_state" where
  "run_timers s = s\<lparr>dg_sent := dg_sent s @ map snd (filter (\<lambda>(d, r). d \<le> dg_now s) (dg_timers s)),
     dg_timers := filter (\<lambda>(d, r). \<not> d \<le> dg_now s) (dg_timers s)\<rparr>"

fun dialog_step :: "alerts_set_key \<Rightarrow> string \<Rightarrow> dialog_action \<Rightarrow> alerts_dialog_state \<Rightarrow> alerts_dialog_state" where
  "dialog_step sk systemId (Choose_tab t) s = choose_tab systemId t s"
| "dialog_step sk systemId (Overwrite_existing b) s = (if dg_tab s = ''global'' then s\<lparr>dg_overwrite := b\<rparr> else s)"
| "dialog_step sk systemId (Use_control key a) s = use_control systemId key a s"
| "dialog_step sk systemId (Copy_from i) s = copy_from systemId i s"
| "dialog_step sk systemId (Copy_answer k ok) s = copy_answer sk systemId k ok s"
| "dialog_step sk systemId (Alerts_changed alerts) s = s\<lparr>dg_alerts := alerts\<rparr>"
| "dialog_step sk systemId (Systems_changed systems) s = s\<lparr>dg_systems := systems\<rparr>"
| "dialog_step sk systemId (Wait d) s = run_timers (s\<lparr>dg_now := dg_now s + int d\<rparr>)"

subsection \<open>The hub ends with what the control shows\<close>

definition timers_ok :: "alerts_dialog_state \<Rightarrow> bool" where
  "timers_ok s \<longleftrightarrow> list_all (\<lambda>(d, r). d \<le> dg_now s + alertDebounce) (dg_timers s)"

lemma timers_ok_step [keeps]: "timers_ok s \<Longrightarrow> timers_ok (dialog_step sk sid a s)"
  by (cases a) (auto simp: timers_ok_def use_control_def choose_tab_def copy_from_def copy_answer_def run_timers_def
      call_debounced_def list_all_iff Let_def split: option.splits prod.splits)

lemma timers_ok_run: "timers_ok s \<Longrightarrow> timers_ok (fold (dialog_step sk sid) as s)"
  by (induction as arbitrary: s) (simp_all add: timers_ok_step)

lemma run_all_timers:
  "timers_ok s \<Longrightarrow> alertDebounce \<le> int d \<Longrightarrow> dg_sent (dialog_step sk sid (Wait d) s) = dg_sent s @ map snd (dg_timers s)"
proof -
  assume "timers_ok s" and "alertDebounce \<le> int d"
  then have "filter (\<lambda>(e, r). e \<le> dg_now s + int d) (dg_timers s) = dg_timers s"
    by (auto simp: timers_ok_def list_all_iff filter_id_conv)
  then show ?thesis by (simp add: run_timers_def)
qed

definition shown_in_hub :: "content_state \<Rightarrow> (rat \<times> int) option" where
  \<comment> \<open>threshold and minutes while the alert is switched on\<close>
  "shown_in_hub c = (if ac_checked c then Some (ac_value c, ac_min c) else None)"

lemma call_request_in_hub:
  assumes "call_shows key systems call c" and "call_request call = Some r" and "i \<in> set systems"
  shows "serve r m (i, key) = shown_in_hub c"
  using assms by (cases call) (auto simp: call_shows_def shown_in_hub_def split: option.splits)

lemma use_control_spec:
  assumes "map_of (dg_contents s) key = Some c" and "map_of alertInfo key = Some info"
    and "content_step key info (dialog_targets sid key s) a c = (call, c')" and "call_request call = Some r"
  shows "map_of (dg_contents (use_control sid key a s)) key = Some c'"
    and "dg_sent (use_control sid key a s) @ map snd (dg_timers (use_control sid key a s))
      = dg_sent s @ map snd (filter (\<lambda>(d, q). is_post q \<noteq> is_post r) (dg_timers s)) @ [r]"
  using assms by (simp_all add: use_control_def call_debounced_def update_conv')



subsection \<open>Systems that are spared\<close>

fun plain_global :: "dialog_action \<Rightarrow> bool" where
  \<comment> \<open>nothing but overwriting and leaving the tab\<close>
  "plain_global (Choose_tab t) = False"
| "plain_global (Overwrite_existing b) = (\<not> b)"
| "plain_global a = True"

definition spares :: "alerts_store \<Rightarrow> alert_request \<Rightarrow> bool" where
  "spares alerts r \<longleftrightarrow> list_all (\<lambda>i. alert_view alerts (i, request_name r) = None) (request_systems r)"

definition sparing :: "alerts_store \<Rightarrow> alerts_dialog_state \<Rightarrow> bool" where
  "sparing alerts s \<longleftrightarrow> dg_tab s = ''global'' \<and> \<not> dg_overwrite s \<and> dg_initial s = alerts
     \<and> list_all (spares alerts) (dg_sent s) \<and> list_all (\<lambda>(d, r). spares alerts r) (dg_timers s)"

lemma content_step_request:
  "call_request (fst (content_step key info systems a c)) = Some r \<Longrightarrow> request_name r = key \<and> request_systems r = systems"
  by (cases a) (auto simp: sendUpsert_def split: if_splits option.splits)

lemma targets_spared:
  "sparing alerts s \<Longrightarrow> request_name r = key \<Longrightarrow> request_systems r = dialog_targets sid key s \<Longrightarrow> spares alerts r"
  by (auto simp: spares_def sparing_def dialog_targets_def getSystemIds_def list_all_iff alert_view_def split: option.splits)

lemma sparing_step:
  assumes "sparing alerts s" and "plain_global a"
  shows "sparing alerts (dialog_step sk sid a s)"
proof (cases a)
  case (Use_control key b)
  show ?thesis
  proof (cases "map_of (dg_contents s) key = None \<or> map_of alertInfo key = None")
    case True
    then show ?thesis using assms Use_control by (auto simp: use_control_def split: option.splits)
  next
    case False
    then obtain c info where c: "map_of (dg_contents s) key = Some c" "map_of alertInfo key = Some info" by auto
    obtain call c' where step: "content_step key info (dialog_targets sid key s) b c = (call, c')" by fastforce
    have "spares alerts r" if "call_request call = Some r" for r
      using content_step_request [of key info "dialog_targets sid key s" b c r] step that targets_spared [OF assms(1)] by simp
    then show ?thesis using assms(1) c step Use_control
      by (auto simp: use_control_def sparing_def call_debounced_def list_all_iff split: option.splits)
  qed
next
  case (Copy_answer k ok)
  then show ?thesis using assms by (auto simp: sparing_def copy_answer_def Let_def)
qed (use assms in \<open>auto simp: sparing_def copy_from_def copy_menu_def run_timers_def list_all_iff Let_def\<close>)



subsection \<open>Mounting and copying\<close>

lemma mounted_content:
  "map_of (mount_contents sid g alerts) key
     = map_option (\<lambda>info. mount_content g info (map_of (alerts_of alerts sid) key)) (map_of alertInfo key)"
proof -
  have "map_of (map (\<lambda>(n, info). (n, f n info)) xs) k = map_option (f k) (map_of xs k)" for f :: "string \<Rightarrow> alert_info \<Rightarrow> content_state" and xs k
    by (induction xs) auto
  then show ?thesis by (simp add: mount_contents_def)
qed

text \<open>
  After a copy the system's controls show the copied alerts: an alert is switched on exactly when the
  source had it, and then with the source's threshold and minutes, where these are not zero.
\<close>
lemma copied_controls:
  assumes "set_key_documented sk" and "names_keyed src" and "dg_tab s = ''system''" and "k < length (dg_copies s)" and "dg_copies s ! k = src"
    and "map_of alertInfo key = Some info"
  shows "\<exists>c. map_of (dg_contents (copy_answer sk sid k True s)) key = Some c \<and> (ac_checked c \<longleftrightarrow> map_of src key \<noteq> None)
     \<and> (\<forall>a. map_of src key = Some a \<and> al_value a \<noteq> 0 \<and> al_min a \<noteq> 0 \<longrightarrow> ac_value c = al_value a \<and> ac_min c = al_min a)"
proof -
  have "alerts_of (sk sid (Some (copied_alerts src sid)) (dg_alerts s)) sid = copied_alerts src sid"
    using assms(1) by (simp add: alerts_of_def set_key_documented_def)
  then show ?thesis using assms(3-6) copied_alerts_at [OF assms(2), of sid key]
    by (auto simp: copy_answer_def Let_def mounted_content mount_content_def initial_checked_def initial_min_def initial_value_def or_num_def
      split: option.splits)
qed

text \<open>
  The other way round the controls do not follow the store: an alert that changes while the dialog is
  open is not shown, until a copy or the other tab mounts them anew.
\<close>
lemma controls_do_not_follow:
  "dg_contents (dialog_step sk sid (Alerts_changed alerts) s) = dg_contents s"
  by simp

text \<open>
  A change made less than 400 ms before a copy is sent after it: the hub keeps that change while the
  dialog shows the copied alert.
\<close>
lemma copy_overtakes_change:
  "let s = fold (dialog_step js_set_key ''a'') [Use_control ''CPU'' (Toggle True), Wait 300, Copy_from ''b'', Copy_answer 0 True, Wait 400]
       (dialog_initial ''a'' [(''b'', [(''CPU'', sample_alert ''b'' ''CPU'' 50)])] [''a'', ''b''])
   in map_option ac_value (map_of (dg_contents s) ''CPU'') = Some 50
      \<and> map_option fst (fold serve (dg_sent s) (\<lambda>_. None) (''a'', ''CPU'')) = Some 80"
  by code_simp

subsection \<open>What is rendered\<close>

record alert_card =
  cv_id :: string
  cv_title :: string
  cv_desc :: "string option"
  cv_checked :: bool
  cv_value :: "(string \<times> rat \<times> rat \<times> rat \<times> rat) option"  \<comment> \<open>text, value, step, least, greatest\<close>
  cv_minutes :: "(string \<times> int) option"

definition AlertContent :: "(rat \<Rightarrow> string) \<Rightarrow> string \<Rightarrow> string \<Rightarrow> alert_info \<Rightarrow> content_state \<Rightarrow> alert_card" where
  \<comment> \<open>no entry of alertInfo inverts its condition\<close>
  "AlertContent num_str idPrefix alertKey info c =
     \<lparr>cv_id = idPrefix @ ''-'' @ alertKey, cv_title = ai_name info,
      cv_desc = (if ac_checked c then None else Some (ai_desc info)), cv_checked = ac_checked c,
      cv_value = (if ac_checked c \<and> has_value_controls info
        then Some (''Average exceeds '' @ num_str (ac_value c) @ ai_unit info, ac_value c, orelse (ai_step info) 1,
          orelse (ai_min info) 1, orelse (ai_max info) 99) else None),
      cv_minutes = (if ac_checked c
        then Some ((if has_value_controls info then '''' else the (ai_singleDesc info) @ '' '') @ ''For '' @ int_str (ac_min c) @ '' ''
          @ (if ac_min c = 1 then ''minute'' else ''minutes''), ac_min c) else None)\<rparr>"

record alert_dialog =
  dv_name :: string
  dv_copy :: "(string \<times> string) list option"  \<comment> \<open>the menu, when it is there: ids and names\<close>
  dv_key :: nat
  dv_overwrite :: "bool option"
  dv_cards :: "alert_card list"

definition AlertDialogContent :: "(rat \<Rightarrow> string) \<Rightarrow> system_record \<Rightarrow> system_record list \<Rightarrow> alerts_dialog_state \<Rightarrow> alert_dialog" where
  \<comment> \<open>systems is $systems\<close>
  "AlertDialogContent num_str system systems s =
     (let is_global = dg_tab s = ''global'';
          others = systemsWithAlerts (dg_alerts s) systems (sys_id system)
      in \<lparr>dv_name = sys_name system,
          dv_copy = (if others \<noteq> [] \<and> \<not> is_global then Some (map (\<lambda>x. (sys_id x, sys_name x)) others) else None),
          dv_key = dg_copyKey s, dv_overwrite = (if is_global then Some (dg_overwrite s) else None),
          dv_cards = concat (map (\<lambda>(key, info). case map_of (dg_contents s) key of None \<Rightarrow> []
            | Some c \<Rightarrow> [AlertContent num_str (if is_global then ''sidebar-global'' else ''sidebar-'' @ sys_id system) key info c]) alertInfo)\<rparr>)"

lemma dialog_shows_every_type:
  "map cv_title (dv_cards (AlertDialogContent num_str system systems (dialog_initial (sys_id system) alerts (map sys_id systems))))
     = map (ai_name \<circ> snd) alertInfo"
proof -
  have "concat (map (\<lambda>(key, info). case map_of (mount_contents sid g as) key of None \<Rightarrow> [] | Some c \<Rightarrow> [f key info c]) xs)
      = map (\<lambda>(key, info). f key info (the (map_of (mount_contents sid g as) key))) xs"
    if "set xs \<subseteq> set alertInfo" for xs sid g as and f :: "string \<Rightarrow> alert_info \<Rightarrow> content_state \<Rightarrow> alert_card"
    using that by (induction xs) (auto simp: mounted_content alertInfo_def split: option.splits)
  from this [of alertInfo] show ?thesis
    by (auto simp: AlertDialogContent_def dialog_initial_def AlertContent_def Let_def)
qed

end
