(* ===== verification/Settings_Page.thy ===== *)
theory Settings_Page
  imports Alerts_Dialog Ui_State
begin

section \<open>The settings page, signing in and the navigation bar\<close>

text \<open>
  The page of the notification settings (routes/settings/notifications.tsx): its form with the
  requests under way, and the alerts of all systems, which are the controls of the alert dialog
  over the live store instead of a copy of it; then signing in (login.tsx), the navigation bar
  (navbar.tsx), the list of active alerts with its memo (active-alerts.tsx), the theme button and
  the chart time menu. The lemmas show what the two ways to edit the alerts of all systems send,
  that requests of the form never overlap, and what stale lists show.
\<close>

subsection \<open>The alerts of all systems, in the dialog and on the settings page\<close>

text \<open>
  The tab of all systems compares with the alerts kept when it was opened; the settings page passes
  the store itself as initialAlertsState, which is another after every event.
\<close>

datatype global_place = All_systems_tab | Settings_section

record global_state =
  gl_live :: alerts_store
  gl_kept :: alerts_store
  gl_content :: content_state

definition compared :: "global_place \<Rightarrow> global_state \<Rightarrow> alerts_store" where
  "compared place s = (case place of All_systems_tab \<Rightarrow> gl_kept s | Settings_section \<Rightarrow> gl_live s)"

definition open_global :: "global_place \<Rightarrow> alert_info \<Rightarrow> alert_record option \<Rightarrow> alerts_store \<Rightarrow> global_state" where
  \<comment> \<open>alert is the dialog's system's own, none on the settings page\<close>
  "open_global place info alert store =
     \<lparr>gl_live = store, gl_kept = store,
      gl_content = mount_content True info (case place of All_systems_tab \<Rightarrow> alert | Settings_section \<Rightarrow> None)\<rparr>"

definition forced_delete :: "string \<Rightarrow> alerts_store \<Rightarrow> alerts_store" where
  \<comment> \<open>the loop over initialAlertsState that deletes in place\<close>
  "forced_delete key store = map (\<lambda>(k, curAlerts). (k, AList.delete key curAlerts)) store"

definition global_act ::
  "global_place \<Rightarrow> string \<Rightarrow> alert_info \<Rightarrow> string list \<Rightarrow> bool \<Rightarrow> content_action \<Rightarrow> global_state \<Rightarrow> content_call \<times> global_state" where
  "global_act place key info allSystems overwriteExisting a s =
     (let systems = getSystemIds True overwriteExisting key '''' (compared place s) allSystems;
          (call, content) = content_step key info systems a (gl_content s);
          s = s\<lparr>gl_content := content\<rparr>
      in (call,
          if a = Toggle False \<and> overwriteExisting
          then (case place of All_systems_tab \<Rightarrow> s\<lparr>gl_kept := forced_delete key (gl_kept s)\<rparr>
                | Settings_section \<Rightarrow> s\<lparr>gl_live := forced_delete key (gl_live s)\<rparr>)
          else s))"

text \<open>
  What the hub then sends back: one event for every system of the request, with ids it gives. The
  store takes them as of any other change.
\<close>

definition hub_alert :: "(string \<Rightarrow> string) \<Rightarrow> string \<Rightarrow> rat \<Rightarrow> int \<Rightarrow> string \<Rightarrow> alert_record" where
  "hub_alert ids name v m i =
     \<lparr>al_id = ids i, al_system = i, al_name = name, al_triggered = False, al_value = v, al_min = m\<rparr>"

definition settle :: "alerts_set_key \<Rightarrow> (string \<Rightarrow> string) \<Rightarrow> content_call \<Rightarrow> alerts_store \<Rightarrow> alerts_store" where
  "settle sk ids call live = (case call of
       No_call \<Rightarrow> live
     | Upsert_call None \<Rightarrow> live
     | Upsert_call (Some u) \<Rightarrow> alerts_add sk (map (hub_alert ids (up_name u) (up_value u) (up_min u)) (up_systems u)) live
     | Delete_call d \<Rightarrow> alerts_remove sk (map (hub_alert ids (de_name d) 0 0) (de_systems d)) live)"

fun global_run ::
  "alerts_set_key \<Rightarrow> (string \<Rightarrow> string) \<Rightarrow> global_place \<Rightarrow> string \<Rightarrow> alert_info \<Rightarrow> string list \<Rightarrow> content_action list \<Rightarrow>
   global_state \<Rightarrow> content_call list" where
  \<comment> \<open>the calls of the actions without overwriting, each settled before the next\<close>
  "global_run sk ids place key info allSystems [] s = []"
| "global_run sk ids place key info allSystems (a # as) s =
     (let (call, s') = global_act place key info allSystems False a s
      in call # global_run sk ids place key info allSystems as (s'\<lparr>gl_live := settle sk ids call (gl_live s')\<rparr>))"

definition without_alert :: "alerts_store \<Rightarrow> string \<Rightarrow> string list \<Rightarrow> string list" where
  "without_alert store key allSystems = filter (\<lambda>i. alert_view store (i, key) = None) allSystems"

definition call_reaches :: "string list \<Rightarrow> content_call \<Rightarrow> bool" where
  \<comment> \<open>a call is for exactly these systems, and none is made for no system\<close>
  "call_reaches systems call = (case call of
       No_call \<Rightarrow> True
     | Upsert_call None \<Rightarrow> systems = []
     | Upsert_call (Some u) \<Rightarrow> systems \<noteq> [] \<and> up_systems u = systems
     | Delete_call d \<Rightarrow> de_systems d = systems)"

lemma getSystemIds_global: "getSystemIds True False key sid store allSystems = without_alert store key allSystems"
  by (auto simp: getSystemIds_def without_alert_def alert_view_def intro!: filter_cong split: option.splits)

lemma content_step_reaches: "call_reaches systems (fst (content_step key info systems a c))"
  by (cases a) (auto simp: call_reaches_def sendUpsert_def split: option.splits)

lemma global_act_plain:
  "global_act place key info allSystems False a s =
     (let r = content_step key info (without_alert (compared place s) key allSystems) a (gl_content s)
      in (fst r, s\<lparr>gl_content := snd r\<rparr>))"
  by (simp add: global_act_def getSystemIds_global Let_def case_prod_unfold)

lemma tab_run_reaches:
  "list_all (call_reaches (without_alert (gl_kept s) key allSystems)) (global_run sk ids All_systems_tab key info allSystems as s)"
proof (induction as arbitrary: s)
  case (Cons a as)
  have "without_alert (gl_kept (s\<lparr>gl_content := c, gl_live := l\<rparr>)) key allSystems = without_alert (gl_kept s) key allSystems" for c l
    by simp
  then show ?case using Cons.IH content_step_reaches
    by (simp add: global_act_plain Let_def compared_def) (metis (no_types) global_state.select_convs(2) global_state.surjective global_state.update_convs(1,3))
qed simp

lemma settled_add_view:
  assumes "set_key_documented sk"
  shows "alert_view (alerts_add sk (map (hub_alert ids name v m) systems) store) (i, key)
     = (if i \<in> set systems \<and> key = name then Some (hub_alert ids name v m i) else alert_view store (i, key))"
proof -
  have "alert_view (alerts_add sk (map (hub_alert ids name v m) systems) store) (i, key)
      = (if i \<in> set systems \<and> key = name then Some (hub_alert ids name v m i) else alert_view store (i, key))" for store
  proof (induction systems arbitrary: store)
    case (Cons j systems)
    then show ?case
      using add_alert_view [OF assms, of "hub_alert ids name v m j" store]
      by (auto simp: alerts_add_def alert_key_def hub_alert_def)
  qed (simp add: alerts_add_def)
  then show ?thesis .
qed

lemma settings_run_silent:
  assumes "without_alert (gl_live s) key allSystems = []"
  shows "list_all (\<lambda>c. c = No_call \<or> c = Upsert_call None \<or> c = Delete_call \<lparr>de_name = key, de_systems = []\<rparr>)
    (global_run sk ids Settings_section key info allSystems as s)"
  using assms
proof (induction as arbitrary: s)
  case (Cons a as)
  let ?r = "content_step key info [] a (gl_content s)"
  have call: "fst ?r = No_call \<or> fst ?r = Upsert_call None \<or> fst ?r = Delete_call \<lparr>de_name = key, de_systems = []\<rparr>"
    by (cases a) (auto simp: sendUpsert_def split: option.splits)
  have "settle sk ids (fst ?r) (gl_live s) = gl_live s"
    using call by (auto simp: settle_def alerts_remove_def)
  then show ?case using call Cons
    by (simp add: global_act_plain compared_def Let_def)
qed simp



lemma forced_delete_view: "alert_view (forced_delete key store) (i, n) = (if n = key then None else alert_view store (i, n))"
  by (induction store) (auto simp: forced_delete_def alert_view_def delete_conv')

text \<open>
  On the settings page a forced deletion changes the store's own objects at once, before and
  whether or not the hub deletes anything; in the dialog it changes the copy only.
\<close>

lemma forced_deletion_in_place:
  "alert_view (gl_live (snd (global_act Settings_section key info allSystems True (Toggle False) s))) (i, key) = None"
  "gl_live (snd (global_act All_systems_tab key info allSystems True (Toggle False) s)) = gl_live s"
  by (simp_all add: global_act_def Let_def forced_delete_view)

subsection \<open>The form with its requests: notifications.tsx\<close>

record settings_form = form_state +
  sf_loadAwaited :: bool
  sf_saveAwaited :: "notification_settings option"  \<comment> \<open>the settings sent\<close>
  sf_overwrite :: bool

definition settings_form_initial :: settings_form where
  "settings_form_initial = form_state.extend form_initial \<lparr>sf_loadAwaited = True, sf_saveAwaited = None, sf_overwrite = False\<rparr>"

datatype form_event =
    Load_answer "(string option \<times> string list option) option"
  | Edit_token string
  | Edit_ids "string list"
  | Save_click
  | Save_answer "notification_settings option"
  | Overwrite_change "bool option"  \<comment> \<open>None is the state indeterminate\<close>
  | Test_click
  | Test_answer "(string option \<times> string) option"  \<comment> \<open>the data's and the error's own message when it failed\<close>

definition form_toast :: "string \<Rightarrow> settings_form \<Rightarrow> settings_form" where
  "form_toast t s = s\<lparr>nf_toasts := t # nf_toasts s\<rparr>"

fun form_step :: "form_event \<Rightarrow> settings_form \<Rightarrow> settings_form" where
  \<comment> \<open>the buttons are disabled while loading; the schema accepts every token and list of ids\<close>
  "form_step (Load_answer answer) s =
     (if \<not> sf_loadAwaited s then s
      else (case answer of
          Some (token, userIds) \<Rightarrow> s\<lparr>nf_settings := \<lparr>telegramBotToken = orelse token '''', telegramUserIds = orelse userIds []\<rparr>\<rparr>
        | None \<Rightarrow> form_toast ''Unable to load notification settings'' s)\<lparr>nf_loading := False, sf_loadAwaited := False\<rparr>)"
| "form_step (Edit_token t) s = s\<lparr>nf_settings := (nf_settings s)\<lparr>telegramBotToken := t\<rparr>\<rparr>"
| "form_step (Edit_ids ids) s = s\<lparr>nf_settings := (nf_settings s)\<lparr>telegramUserIds := ids\<rparr>\<rparr>"
| "form_step Save_click s =
     (if nf_loading s then s
      else s\<lparr>nf_loading := True,
             sf_saveAwaited := Some ((nf_settings s)\<lparr>telegramUserIds := saved_ids (telegramUserIds (nf_settings s))\<rparr>)\<rparr>)"
| "form_step (Save_answer answer) s =
     (if sf_saveAwaited s = None then s
      else (case answer of
          Some next \<Rightarrow> form_toast ''Telegram notification settings saved'' (s\<lparr>nf_settings := next\<rparr>)
        | None \<Rightarrow> form_toast ''Unable to save notification settings'' s)\<lparr>nf_loading := False, sf_saveAwaited := None\<rparr>)"
| "form_step (Overwrite_change checked) s = s\<lparr>sf_overwrite := (checked = Some True)\<rparr>"
| "form_step Test_click s = s"
| "form_step (Test_answer failure) s = (case failure of
       None \<Rightarrow> form_toast ''Telegram test sent'' s
     | Some (data, message) \<Rightarrow> form_toast (''Telegram test failed: '' @ orelse data message) s)"

definition form_ok :: "settings_form \<Rightarrow> bool" where
  "form_ok s \<longleftrightarrow> (nf_loading s \<longleftrightarrow> sf_loadAwaited s \<or> sf_saveAwaited s \<noteq> None)
     \<and> \<not> (sf_loadAwaited s \<and> sf_saveAwaited s \<noteq> None)
     \<and> (\<forall>x. sf_saveAwaited s = Some x \<longrightarrow> '''' \<notin> set (telegramUserIds x) \<and> saved_ids (telegramUserIds x) = telegramUserIds x)"

lemma form_ok_initial: "form_ok settings_form_initial"
  by (simp add: form_ok_def settings_form_initial_def form_initial_def form_state.defs)

lemma saved_ids_nonblank: "'''' \<notin> set (saved_ids ids)"
  by (simp add: saved_ids_def)

lemma form_ok_step: "form_ok s \<Longrightarrow> form_ok (form_step e s)"
  by (cases e) (auto simp: form_ok_def form_toast_def saved_ids_idem saved_ids_nonblank split: option.splits)

lemma form_ok_facts:
  "form_ok s \<Longrightarrow> (nf_loading s \<longleftrightarrow> sf_loadAwaited s \<or> sf_saveAwaited s \<noteq> None)
     \<and> \<not> (sf_loadAwaited s \<and> sf_saveAwaited s \<noteq> None)
     \<and> (\<forall>x. sf_saveAwaited s = Some x \<longrightarrow> saved_ids (telegramUserIds x) = telegramUserIds x)
     \<and> (\<forall>x y. sf_saveAwaited s = Some x \<longrightarrow> nf_settings (form_step (Save_answer (Some y)) (form_step (Edit_token t) s)) = y)"
  by (auto simp: form_ok_def form_toast_def)



record notifications_page =
  np_saveDisabled :: bool
  np_testDisabled :: bool
  np_noSystems :: bool
  np_alerts :: "(string \<times> alert_info \<times> system_record \<times> bool) list"  \<comment> \<open>key, data, system, overwriting\<close>

definition Notifications :: "system_record list \<Rightarrow> settings_form \<Rightarrow> notifications_page" where
  "Notifications systems s =
     \<lparr>np_saveDisabled = nf_loading s, np_testDisabled = test_disabled (form_state.truncate s), np_noSystems = (systems = []),
      np_alerts = (case systems of [] \<Rightarrow> []
        | system # _ \<Rightarrow> map (\<lambda>(name, info). (name, info, system, sf_overwrite s)) (obj_entries alertInfo))\<rparr>"

lemma alert_names_no_index: "list_all (\<lambda>(n, i). \<not> is_array_index n) alertInfo"
  by (simp add: alertInfo_def is_array_index_def is_digit_def)

lemma Notifications_alerts:
  "systems \<noteq> [] \<Longrightarrow> map fst (np_alerts (Notifications systems s)) = map fst alertInfo"
proof -
  assume "systems \<noteq> []"
  moreover have "filter (\<lambda>(k, v). is_array_index k) alertInfo = []" "filter (\<lambda>(k, v). \<not> is_array_index k) alertInfo = alertInfo"
    using alert_names_no_index by (auto simp: list_all_iff filter_empty_conv intro!: filter_True)
  ultimately show ?thesis by (cases systems) (auto simp: Notifications_def obj_entries_def)
qed

subsection \<open>Signing in: login.tsx, and Layout of main.tsx\<close>

record login_form =
  lf_password :: string
  lf_error :: string
  lf_awaited :: bool  \<comment> \<open>loading\<close>

record app_gate =
  gt_authenticated :: "bool option"
  gt_login :: login_form

definition gate_initial :: app_gate where
  "gate_initial = \<lparr>gt_authenticated = None, gt_login = \<lparr>lf_password = '''', lf_error = '''', lf_awaited = False\<rparr>\<rparr>"

datatype gate_event = Records_answer response | Type_password string | Submit | Auth_answer bool

fun gate_step :: "gate_event \<Rightarrow> app_gate \<Rightarrow> app_gate" where
  \<comment> \<open>the sign-in form exists while authenticated is false, and starts anew when it comes back; the
      button is disabled while an answer is awaited\<close>
  "gate_step (Records_answer r) g =
     (if gt_authenticated g = None
      then g\<lparr>gt_authenticated := Some (authenticated_after r), gt_login := gt_login gate_initial\<rparr> else g)"
| "gate_step (Type_password p) g =
     (if gt_authenticated g = Some False then g\<lparr>gt_login := (gt_login g)\<lparr>lf_password := p\<rparr>\<rparr> else g)"
| "gate_step Submit g =
     (if gt_authenticated g = Some False \<and> \<not> lf_awaited (gt_login g) \<and> lf_password (gt_login g) \<noteq> ''''
      then g\<lparr>gt_login := (gt_login g)\<lparr>lf_error := '''', lf_awaited := True\<rparr>\<rparr> else g)"
| "gate_step (Auth_answer accepted) g =
     (if gt_authenticated g = Some False \<and> lf_awaited (gt_login g)
      then (if accepted then g\<lparr>gt_authenticated := Some True, gt_login := (gt_login g)\<lparr>lf_awaited := False\<rparr>\<rparr>
            else g\<lparr>gt_login := (gt_login g)\<lparr>lf_error := ''Incorrect password'', lf_awaited := False\<rparr>\<rparr>)
      else g)"

fun signed_in_by :: "gate_event \<Rightarrow> bool" where
  "signed_in_by (Records_answer r) = authenticated_after r"
| "signed_in_by (Auth_answer accepted) = accepted"
| "signed_in_by e = False"

lemma gate_step_signed_in:
  "gt_authenticated (gate_step e g) = Some True \<Longrightarrow> gt_authenticated g = Some True \<or> signed_in_by e"
  by (cases e) (auto split: if_splits)

lemma gate_step_keeps: "gt_authenticated g = Some True \<Longrightarrow> gate_step e g = g"
  by (cases e) simp_all



subsection \<open>The navigation bar: navbar.tsx\<close>

record navbar_state =
  nb_addOpen :: bool
  nb_paletteOpen :: bool

datatype nav_click = Search_button | Add_button | Telegram_entry | Home_link

definition navbar_click :: "string \<Rightarrow> (string \<Rightarrow> string) \<Rightarrow> nav_click \<Rightarrow> navbar_state \<Rightarrow> navbar_state \<times> link_effect" where
  \<comment> \<open>basePath, and the path of the page settings/name; links are clicked without modifier keys\<close>
  "navbar_click basePath settingsPath c s = (case c of
       Search_button \<Rightarrow> (s\<lparr>nb_paletteOpen := True\<rparr>, Stays)
     | Add_button \<Rightarrow> (s\<lparr>nb_addOpen := True\<rparr>, Stays)
     | Telegram_entry \<Rightarrow> (s, Navigates (settingsPath ''notifications''))
     | Home_link \<Rightarrow> (s, link_click False False False (Some basePath)))"

definition search_keys :: "string \<Rightarrow> string list" where
  \<comment> \<open>the keys shown in the search button; platform is navigator.platform in upper case\<close>
  "search_keys platform = [if str_includes platform ''MAC'' then ''Cmd'' else ''Ctrl'', ''K'']"

lemma home_link_without_base_path:
  \<comment> \<open>without a base path the link to the home page is empty\<close>
  "snd (navbar_click '''' settingsPath Home_link s) = Navigates ''''"
  by (simp add: navbar_click_def link_click_def)

subsection \<open>The list of active alerts: active-alerts.tsx\<close>

record active_alert =
  aa_key :: string
  aa_title :: string
  aa_description :: string
  aa_system :: "string option"  \<comment> \<open>the id in the link\<close>

definition active_alert_item :: "(rat \<Rightarrow> string) \<Rightarrow> (string \<Rightarrow> system_record option) \<Rightarrow> alert_record \<Rightarrow> active_alert" where
  \<comment> \<open>an undefined name is rendered as nothing\<close>
  "active_alert_item num_str systems a =
     (let info = the (map_of alertInfo (al_name a)); sys = systems (al_system a)
      in \<lparr>aa_key = al_id a, aa_title = orelse (map_option sys_name sys) '''' @ '' '' @ ai_name info,
          aa_description = alert_description num_str a info, aa_system = map_option sys_id sys\<rparr>)"

definition active_list :: "(rat \<Rightarrow> string) \<Rightarrow> (string \<Rightarrow> system_record option) \<Rightarrow> alerts_store \<Rightarrow> active_alert list" where
  "active_list num_str systems alerts = map (active_alert_item num_str systems) (activeAlerts alerts)"

definition ActiveAlerts ::
  "(rat \<Rightarrow> string) \<Rightarrow> (string \<Rightarrow> system_record option) \<Rightarrow> alerts_store \<Rightarrow> (string \<times> active_alert list) option \<Rightarrow>
   (string \<times> active_alert list) option" where
  \<comment> \<open>a rendering: the list is made anew only when the key changes; none is shown when it is empty\<close>
  "ActiveAlerts num_str systems alerts memo =
     (let key = alertsKey num_str alerts
      in case memo of
           Some (old, items) \<Rightarrow> if old = key then memo else Some (key, active_list num_str systems alerts)
         | None \<Rightarrow> Some (key, active_list num_str systems alerts))"

definition key_determines :: "(rat \<Rightarrow> string) \<Rightarrow> ((string \<Rightarrow> system_record option) \<times> alerts_store) set \<Rightarrow> bool" where
  \<comment> \<open>among these, stores with the same key give the same list\<close>
  "key_determines num_str R \<longleftrightarrow> (\<forall>(sys, al) \<in> R. \<forall>(sys', al') \<in> R.
     alertsKey num_str al = alertsKey num_str al' \<longrightarrow> active_list num_str sys al = active_list num_str sys' al')"

lemma ActiveAlerts_current:
  assumes "key_determines num_str R" and "set rs \<subseteq> R" and "r \<in> R"
    and "case memo of None \<Rightarrow> True | Some (k, items) \<Rightarrow> \<exists>(sys, al) \<in> R. k = alertsKey num_str al \<and> items = active_list num_str sys al"
  shows "map_option snd (fold (\<lambda>(sys, al). ActiveAlerts num_str sys al) (rs @ [r]) memo) = Some (active_list num_str (fst r) (snd r))"
  using assms(2,4)
proof (induction rs arbitrary: memo)
  case Nil
  show ?case
  proof (cases memo)
    case (Some m)
    then obtain sys al where m: "(sys, al) \<in> R" "m = (alertsKey num_str al, active_list num_str sys al)" using Nil(2) by (cases m) auto
    have "active_list num_str sys al = active_list num_str (fst r) (snd r)" if "alertsKey num_str al = alertsKey num_str (snd r)"
      using assms(1,3) m(1) that unfolding key_determines_def by (cases r) fastforce
    then show ?thesis using Some m(2) by (cases r) (auto simp: ActiveAlerts_def Let_def)
  qed (cases r, simp add: ActiveAlerts_def Let_def)
next
  case (Cons x rs)
  obtain sys al where x: "x = (sys, al)" "(sys, al) \<in> R" using Cons.prems(1) by (cases x) auto
  let ?memo = "ActiveAlerts num_str sys al memo"
  have "case ?memo of None \<Rightarrow> True | Some (k, items) \<Rightarrow> \<exists>(sys, al) \<in> R. k = alertsKey num_str al \<and> items = active_list num_str sys al"
    using Cons.prems(2) x(2) by (auto simp: ActiveAlerts_def Let_def split: option.splits)
  then show ?case using Cons.IH [of ?memo] Cons.prems(1) x(1) by simp
qed

text \<open>
  The list of active alerts is current as long as its key tells the lists apart; but the key has
  only systems' ids, thresholds and minutes, so a system that is renamed, or that the store learns
  of later, keeps its old title while its alerts stay the same.
\<close>
theorem active_alerts_memo:
  "(key_determines num_str (set (rs @ [r])) \<longrightarrow>
      map_option snd (fold (\<lambda>(sys, al). ActiveAlerts num_str sys al) (rs @ [r]) None) = Some (active_list num_str (fst r) (snd r)))
   \<and> map_option snd (ActiveAlerts num_str sys' al (ActiveAlerts num_str sys al None)) = Some (active_list num_str sys al)"
proof -
  have "set rs \<subseteq> set (rs @ [r])" "r \<in> set (rs @ [r])" by auto
  then show ?thesis using ActiveAlerts_current [of num_str "set (rs @ [r])" rs r None]
    by (auto simp: ActiveAlerts_def Let_def)
qed

subsection \<open>The theme button and the chart time menu\<close>

datatype mode_icon = SunIcon | MoonStarIcon | SunMoonIcon

definition ModeToggle :: "theme_state \<Rightarrow> js_error + mode_icon \<times> bool" where
  \<comment> \<open>the icon and whether it is the larger one; rendering undefined as a component throws\<close>
  "ModeToggle s =
     (let currentIndex = find_index (\<lambda>t. t = th_theme s) themes
      in if currentIndex < 0 then Inl TypeError
         else Inr ([SunIcon, MoonStarIcon, SunMoonIcon] ! nat currentIndex, currentIndex = 2))"

lemma ModeToggle_throws: "(\<exists>e. ModeToggle s = Inl e) \<longleftrightarrow> th_theme s \<notin> set themes"
  by (auto simp: ModeToggle_def themes_def find_index_def)

lemma theme_button_never_throws_again:
  "\<exists>i. ModeToggle (toggle_theme s) = Inr i"
proof -
  have "th_theme (toggle_theme s) \<in> set themes"
    using toggle_theme_next by (cases s) (auto simp: themes_def toggle_theme_def setTheme_def find_index_def)
  then show ?thesis using ModeToggle_throws by (cases "ModeToggle (toggle_theme s)") auto
qed

definition ChartTimeSelect :: "sem_ver \<Rightarrow> chart_time \<Rightarrow> string \<times> (string \<times> string) list" where
  \<comment> \<open>the chosen value, and the value and label of each entry\<close>
  "ChartTimeSelect agentVersion chartTime =
     (chart_time_str chartTime,
      map (\<lambda>ct. (chart_time_str ct, cp_label (chartTimeData ct))) (availableChartTimes agentVersion))"

lemma ChartTimeSelect_distinct: "distinct (map fst (snd (ChartTimeSelect v ct)))"
  by (simp add: ChartTimeSelect_def availableChartTimes_def comp_def chart_times_def distinct_map_filter
      split: option.splits)

end
