(* ===== verification/Containers.thy ===== *)
theory Containers
  imports Lib_Settings
begin

section \<open>The container table: containers-table.tsx, containers-table-columns.tsx\<close>

text \<open>
  Fetching containers and merging them into the table, the visibility of the ports column, the
  global filter, the cells and comparators of the columns, and log lines. Formatters and
  locale comparison are arguments. The lemmas show what a merge keeps, what the sort values of
  ports and statuses are, and when sorting throws.
\<close>

subsection \<open>Fetching and merging\<close>

definition fetch_filter :: "string option \<Rightarrow> string option" where
  \<comment> \<open>the system the request is restricted to\<close>
  "fetch_filter systemId = (if str_truthy systemId then systemId else None)"

definition lastUpdated_of :: "container_record list \<Rightarrow> int" where
  \<comment> \<open>Math.max(items[0].updated, items.at(-1)?.updated ?? 0)\<close>
  "lastUpdated_of items = max (ct_updated (hd items)) (ct_updated (last items))"

definition merge_containers ::
  "string option \<Rightarrow> container_record list \<Rightarrow> container_record list option \<Rightarrow> container_record list" where
  \<comment> \<open>the new data after a response with these items\<close>
  "merge_containers systemId items curItems =
     (if items = [] then
        (if str_truthy systemId
         then filter (\<lambda>item. ct_system item \<noteq> the systemId) (orelse curItems []) else [])
      else
        (let lastUpdated = lastUpdated_of items;
             newItems = filter (\<lambda>item. \<bar>lastUpdated - ct_updated item\<bar> < 70000) items;
             containerIds = map ct_id newItems
         in newItems
            @ filter (\<lambda>item. ct_id item \<notin> set containerIds \<and> lastUpdated - ct_updated item < 70000)
                (orelse curItems [])))"

definition should_fetch :: "string option \<Rightarrow> int \<Rightarrow> int \<Rightarrow> string \<Rightarrow> string option option" where
  \<comment> \<open>the by-id store's listener: the system fetched for a changed key, if any. Without a system
      the first 500 ms are the initial load of systems; with one, only its own key is heard.\<close>
  "should_fetch systemId loadTime now changedKey =
     (if \<not> str_truthy systemId
      then (if 500 < now - loadTime then Some (Some changedKey) else None)
      else (if changedKey = the systemId then Some systemId else None))"

definition hasPorts :: "container_record list \<Rightarrow> bool" where
  "hasPorts data = list_ex (\<lambda>c. ct_ports c \<noteq> '''') data"

text \<open>
  A merge keeps the table consistent: with unique ids in the response and in the table the
  result has unique ids; every fetched container updated within 70 s of the reference time is in
  it as fetched, every other one is an old entry that was not fetched anew, and nothing shown is
  70 s or more behind the reference time.
\<close>
theorem container_merge_correct:
  assumes "items \<noteq> []" and "distinct (map ct_id items)" and "distinct (map ct_id (orelse cur []))"
  shows "distinct (map ct_id (merge_containers systemId items cur))
     \<and> set (filter (\<lambda>c. \<bar>lastUpdated_of items - ct_updated c\<bar> < 70000) items) \<subseteq> set (merge_containers systemId items cur)
     \<and> list_all (\<lambda>c. lastUpdated_of items - ct_updated c < 70000
          \<and> (c \<in> set items \<or> c \<in> set (orelse cur []))) (merge_containers systemId items cur)"
  using assms
  by (auto simp: merge_containers_def Let_def distinct_map_filter list_all_iff)
    (metis (no_types, lifting) image_eqI mem_Collect_eq)

definition sample_container :: "string \<Rightarrow> int \<Rightarrow> container_record" where
  "sample_container i u = \<lparr>ct_id = i, ct_system = ''s'', ct_name = i, ct_image = ''img'', ct_ports = ''80'',
     ct_cpu = 1, ct_memory = 2, ct_net = 3, ct_health = 2, ct_status = ''Up 5 minutes'', ct_updated = u\<rparr>"

theorem container_merge_correct_witness:
  "distinct (map ct_id (merge_containers None [sample_container ''a'' 100000, sample_container ''b'' 20000]
        (Some [sample_container ''b'' 90000, sample_container ''c'' 10000])))
     \<and> set (filter (\<lambda>c. \<bar>lastUpdated_of [sample_container ''a'' 100000, sample_container ''b'' 20000] - ct_updated c\<bar> < 70000)
          [sample_container ''a'' 100000, sample_container ''b'' 20000])
        \<subseteq> set (merge_containers None [sample_container ''a'' 100000, sample_container ''b'' 20000]
             (Some [sample_container ''b'' 90000, sample_container ''c'' 10000]))
     \<and> list_all (\<lambda>c. lastUpdated_of [sample_container ''a'' 100000, sample_container ''b'' 20000] - ct_updated c < 70000
          \<and> (c \<in> set [sample_container ''a'' 100000, sample_container ''b'' 20000]
             \<or> c \<in> set (orelse (Some [sample_container ''b'' 90000, sample_container ''c'' 10000]) [])))
        (merge_containers None [sample_container ''a'' 100000, sample_container ''b'' 20000]
          (Some [sample_container ''b'' 90000, sample_container ''c'' 10000]))"
  by (rule container_merge_correct) (simp_all add: sample_container_def)

lemma merge_empty_response:
  "s \<noteq> '''' \<Longrightarrow> set (merge_containers (Some s) [] cur) = {c. c \<in> set (orelse cur []) \<and> ct_system c \<noteq> s}"
  by (auto simp: merge_containers_def)

subsection \<open>The global filter\<close>

definition container_search_string :: "(string \<Rightarrow> system_record option) \<Rightarrow> container_record \<Rightarrow> string" where
  "container_search_string systems c =
     (let systemName = (case systems (ct_system c) of Some s \<Rightarrow> sys_name s | None \<Rightarrow> '''');
          healthLabel = orelse (at_idx container_health_labels (ct_health c)) ''''
      in to_lower (join '' '' [systemName, ct_id c, ct_name c, healthLabel, ct_status c, ct_image c, ct_ports c]))"

definition container_globalFilterFn ::
  "(string \<Rightarrow> system_record option) \<Rightarrow> container_record \<Rightarrow> string \<Rightarrow> bool" where
  "container_globalFilterFn systems c filterValue =
     list_all (\<lambda>term. str_includes (container_search_string systems c) term) (split_on (CHR '' '') (to_lower filterValue))"

lemma container_globalFilterFn_empty: "container_globalFilterFn systems c ''''"
  by (simp add: container_globalFilterFn_def)

lemma container_globalFilterFn_terms:
  "CHR '' '' \<notin> set (to_lower a) \<Longrightarrow>
     container_globalFilterFn systems c (a @ '' '' @ b) \<longleftrightarrow>
     container_globalFilterFn systems c a \<and> container_globalFilterFn systems c b"
  by (simp add: container_globalFilterFn_def to_lower_append split_on_no_sep)
    (simp add: to_lower_def lower_char_def split_on_append_sep [of "CHR '' ''"])

subsection \<open>Statuses\<close>

definition unitSeconds :: "(string \<times> rat) list" where
  "unitSeconds = [(''s'', 1), (''mi'', 60), (''h'', 3600), (''d'', 86400), (''w'', 604800), (''mo'', 2592000)]"

definition getStatusValue :: "string \<Rightarrow> js_error + rat option" where
  \<comment> \<open>seconds of a docker status; a NaN count gives NaN; without a third word unit is undefined and
      unit.startsWith throws\<close>
  "getStatusValue status =
     (let words = split_on (CHR '' '') status;
          num = at_idx words 1; unit' = at_idx words 2;
          numValue = (case num of None \<Rightarrow> None
                      | Some n \<Rightarrow> if n = ''a'' \<or> n = ''an'' then Some 1 else js_number n)
      in case unit' of
           None \<Rightarrow> Inl TypeError
         | Some u \<Rightarrow> (case find (\<lambda>(unitName, v). prefix unitName u) unitSeconds of
               Some (unitName, v) \<Rightarrow> Inr (map_option (\<lambda>n. n * v) numValue)
             | None \<Rightarrow> Inr (Some 0)))"

lemma split_status:
  assumes "CHR '' '' \<notin> set u" and "rest = [] \<or> hd rest = CHR '' ''"
  shows "\<exists>more. split_on (CHR '' '') (''Up '' @ nat_str n @ '' '' @ u @ rest) = ''Up'' # nat_str n # u # more"
proof -
  have n: "CHR '' '' \<notin> set (nat_str n)" by (rule nat_str_notin) (simp add: is_digit_def)
  have "split_on (CHR '' '') (''Up '' @ x) = ''Up'' # split_on (CHR '' '') x" for x by simp
  moreover have "split_on (CHR '' '') (nat_str n @ '' '' @ x) = nat_str n # split_on (CHR '' '') x" for x
    using split_on_append_sep [OF n] by simp
  moreover have "\<exists>more. split_on (CHR '' '') (u @ rest) = u # more"
    using assms by (cases rest) (auto simp: split_on_no_sep split_on_append_sep)
  ultimately show ?thesis by simp
qed

text \<open>
  The sort value of a docker status is its age: for "Up n unit", whatever follows, it is n
  times the unit's seconds, for seconds up to months; a status of fewer than three words makes
  the comparison throw.
\<close>
theorem getStatusValue_correct:
  assumes "(u, k) \<in> {(''second'', 1), (''seconds'', 1), (''minutes'', 60), (''hours'', 3600), (''days'', 86400),
      (''weeks'', 604800), (''months'', 2592000)}" and "rest = [] \<or> hd rest = CHR '' ''"
  shows "getStatusValue (''Up '' @ nat_str n @ '' '' @ u @ rest) = Inr (Some (of_nat n * k))
     \<and> getStatusValue (''Up '' @ nat_str n) = Inl TypeError"
proof -
  have "CHR '' '' \<notin> set u" using assms(1) by auto
  then obtain more where s: "split_on (CHR '' '') (''Up '' @ nat_str n @ '' '' @ u @ rest) = ''Up'' # nat_str n # u # more"
    using split_status assms(2) by blast
  have a: "nat_str n \<noteq> ''a''" "nat_str n \<noteq> ''an''"
    using nat_str_notin [of "CHR ''a''" n] by (auto simp: is_digit_def)
  have "find (\<lambda>(unitName, v). prefix unitName u) unitSeconds \<noteq> None
      \<and> snd (the (find (\<lambda>(unitName, v). prefix unitName u) unitSeconds)) = k"
    using assms(1) by (auto simp: unitSeconds_def)
  then have "getStatusValue (''Up '' @ nat_str n @ '' '' @ u @ rest) = Inr (Some (of_nat n * k))"
    unfolding getStatusValue_def s using a
    by (auto simp: Let_def js_number_nat_str at_idx_def)
  moreover have "CHR '' '' \<notin> set (nat_str n)" by (rule nat_str_notin) (simp add: is_digit_def)
  then have "getStatusValue (''Up '' @ nat_str n) = Inl TypeError"
    by (simp add: getStatusValue_def split_on_no_sep at_idx_def)
  ultimately show ?thesis by simp
qed

theorem getStatusValue_correct_witness:
  "getStatusValue (''Up '' @ nat_str 5 @ '' '' @ ''hours'' @ '' (healthy)'') = Inr (Some (of_nat 5 * 3600))
     \<and> getStatusValue (''Up '' @ nat_str 5) = Inl TypeError"
  by (rule getStatusValue_correct) simp_all

subsection \<open>Ports\<close>

definition getPortValue :: "string option \<Rightarrow> rat" where
  "getPortValue ports0 =
     (if \<not> str_truthy ports0 then 0
      else (let ports = the ports0;
                first = (case index_of (CHR '','') ports of Some i \<Rightarrow> take i ports | None \<Rightarrow> ports);
                portStr = (case last_index_of (CHR '':'') first of None \<Rightarrow> first | Some i \<Rightarrow> drop (i + 1) first)
            in or_num (js_number portStr) 0))"

text \<open>
  Port lists sort by their first published port: for "p" and "host:p", alone or followed by a
  comma and anything else, the sort value is the number p.
\<close>
theorem getPortValue_first_port:
  assumes "CHR '','' \<notin> set host"
  shows "getPortValue (Some (host @ '':'' @ nat_str p)) = of_nat p
     \<and> getPortValue (Some (host @ '':'' @ nat_str p @ '','' @ others)) = of_nat p
     \<and> getPortValue (Some (nat_str p)) = of_nat p \<and> getPortValue (Some (nat_str p @ '','' @ others)) = of_nat p"
proof -
  have c: "CHR '','' \<notin> set (nat_str p)" "CHR '':'' \<notin> set (nat_str p)"
    by (rule nat_str_notin, simp add: is_digit_def)+
  have i: "index_of (CHR '','') (host @ CHR '':'' # nat_str p @ CHR '','' # others) = Some (length host + 1 + length (nat_str p))"
    using index_of_absent [of "CHR '',''" "host @ CHR '':'' # nat_str p" others] assms c by simp
  have l: "last_index_of (CHR '':'') (host @ CHR '':'' # nat_str p) = Some (length host)"
    by (rule last_index_of_split) (rule c(2))
  have n: "or_num (js_number (nat_str p)) 0 = of_nat p"
    by (simp add: js_number_nat_str or_num_def)
  have "index_of (CHR '','') (host @ CHR '':'' # nat_str p) = None"
    using assms c by (simp add: index_of_None)
  moreover have "take (length host + 1 + length (nat_str p)) (host @ CHR '':'' # nat_str p @ CHR '','' # others)
      = host @ CHR '':'' # nat_str p" by simp
  moreover have "index_of (CHR '','') (nat_str p) = None" "last_index_of (CHR '':'') (nat_str p) = None"
    using c by (simp_all add: index_of_None last_index_of_None)
  moreover have "index_of (CHR '','') (nat_str p @ CHR '','' # others) = Some (length (nat_str p))"
    by (rule index_of_absent) (rule c(1))
  ultimately show ?thesis
    using i l n by (simp add: getPortValue_def Let_def)
qed

theorem getPortValue_first_port_witness:
  "getPortValue (Some (''127.0.0.1'' @ '':'' @ nat_str 80)) = of_nat 80
     \<and> getPortValue (Some (''127.0.0.1'' @ '':'' @ nat_str 80 @ '','' @ '' 443'')) = of_nat 80
     \<and> getPortValue (Some (nat_str 80)) = of_nat 80 \<and> getPortValue (Some (nat_str 80 @ '','' @ '' 443'')) = of_nat 80"
  by (rule getPortValue_first_port) simp

subsection \<open>Cells and comparators\<close>

text \<open>decimal num digits is decimalString; compare is localeCompare.\<close>

definition digits_for :: "rat \<Rightarrow> nat" where
  "digits_for v = (if 10 \<le> v then 1 else 2)"

definition cpu_cell :: "(rat \<Rightarrow> nat \<Rightarrow> string) \<Rightarrow> container_record \<Rightarrow> string" where
  "cpu_cell decimal c = decimal (ct_cpu c) (digits_for (ct_cpu c)) @ ''%''"

definition memory_cell :: "(rat \<Rightarrow> nat \<Rightarrow> string) \<Rightarrow> container_record \<Rightarrow> string" where
  "memory_cell decimal c =
     (let (v, u) = formatBytes (ct_memory c) False Bytes True in decimal v (digits_for v) @ '' '' @ u)"

definition net_cell :: "(rat \<Rightarrow> nat \<Rightarrow> string) \<Rightarrow> container_record \<Rightarrow> string" where
  "net_cell decimal c =
     (let (v, u) = formatBytes (ct_net c) True Bytes False in decimal v (digits_for v) @ '' '' @ u)"

definition health_cell :: "container_record \<Rightarrow> string \<times> string option" where
  \<comment> \<open>the label, and the dot's colour class\<close>
  "health_cell c =
     (orelse (at_idx container_health_labels (ct_health c)) ''Unknown'',
      if ct_health c = health_num Healthy then Some ''bg-green-500''
      else if ct_health c = health_num Unhealthy then Some ''bg-red-500''
      else if ct_health c = health_num Starting then Some ''bg-yellow-500''
      else if ct_health c = health_num Health_None then Some ''bg-zinc-500'' else None)"

definition ports_cell :: "container_record \<Rightarrow> string \<times> bool" where
  \<comment> \<open>the text, and whether it has a tooltip\<close>
  "ports_cell c = (if ct_ports c = '''' then (''-'', False) else (ct_ports c, 14 < length (ct_ports c)))"

definition system_cell :: "(string \<Rightarrow> system_record option) \<Rightarrow> container_record \<Rightarrow> string" where
  "system_cell systems c = (case systems (ct_system c) of Some s \<Rightarrow> sys_name s | None \<Rightarrow> '''')"

definition updated_cell :: "(int \<Rightarrow> string) \<Rightarrow> (string \<Rightarrow> string) \<Rightarrow> container_record \<Rightarrow> string" where
  "updated_cell toISOString hourWithSeconds c = hourWithSeconds (toISOString (ct_updated c))"

definition name_sort :: "(string \<Rightarrow> string \<Rightarrow> int) \<Rightarrow> container_record \<Rightarrow> container_record \<Rightarrow> int" where
  "name_sort compare a b = compare (ct_name a) (ct_name b)"

definition image_sort :: "(string \<Rightarrow> string \<Rightarrow> int) \<Rightarrow> container_record \<Rightarrow> container_record \<Rightarrow> int" where
  "image_sort compare a b = compare (ct_image a) (ct_image b)"

definition system_sort ::
  "(string \<Rightarrow> system_record option) \<Rightarrow> (string \<Rightarrow> string \<Rightarrow> int) \<Rightarrow> container_record \<Rightarrow> container_record \<Rightarrow> int" where
  "system_sort systems compare a b = compare (system_cell systems a) (system_cell systems b)"

definition port_sort :: "container_record \<Rightarrow> container_record \<Rightarrow> rat" where
  "port_sort a b = getPortValue (Some (ct_ports a)) - getPortValue (Some (ct_ports b))"

definition status_sort :: "container_record \<Rightarrow> container_record \<Rightarrow> js_error + rat option" where
  "status_sort a b = (case (getStatusValue (ct_status a), getStatusValue (ct_status b)) of
       (Inr x, Inr y) \<Rightarrow> Inr (num_diff x y) | (Inl e, _) \<Rightarrow> Inl e | (_, Inl e) \<Rightarrow> Inl e)"

lemma port_sort_antisym: "port_sort a b = - port_sort b a"
  by (simp add: port_sort_def)

lemma health_cell_known:
  "health_cell (c\<lparr>ct_health := health_num h\<rparr>) = (case h of Health_None \<Rightarrow> (''None'', Some ''bg-zinc-500'')
     | Starting \<Rightarrow> (''Starting'', Some ''bg-yellow-500'') | Healthy \<Rightarrow> (''Healthy'', Some ''bg-green-500'')
     | Unhealthy \<Rightarrow> (''Unhealthy'', Some ''bg-red-500''))"
  by (cases h) (simp_all add: health_cell_def container_health_labels_def at_idx_def)

lemma status_sort_throws:
  "CHR '' '' \<notin> set (ct_status a) \<Longrightarrow> status_sort a b = Inl TypeError"
  by (simp add: status_sort_def getStatusValue_def split_on_no_sep at_idx_def split: sum.splits)

subsection \<open>Logs\<close>

definition getLogs :: "string option \<Rightarrow> string" where
  \<comment> \<open>None when the request fails or has no logs\<close>
  "getLogs response = orelse response ''''"

definition spin_remaining :: "int \<Rightarrow> int \<Rightarrow> int" where
  \<comment> \<open>how long the refresh icon goes on after a response at now\<close>
  "spin_remaining startTime now = max 0 (500 - (now - startTime))"

definition logLines :: "string \<Rightarrow> (nat \<times> string) list" where
  \<comment> \<open>the numbered lines; an empty line is shown as a space\<close>
  "logLines logs = (if logs = '''' then []
     else map (\<lambda>(i, l). (i + 1, if l = '''' then '' '' else l)) (enumerate 0 (split_on (CHR 0x0A) logs)))"

lemma length_logLines: "logs \<noteq> '''' \<Longrightarrow> length (logLines logs) = Suc (count_list logs (CHR 0x0A))"
  by (simp add: logLines_def length_split_on)

lemma spin_at_least: "startTime \<le> now \<Longrightarrow> 500 \<le> now - startTime + spin_remaining startTime now"
  by (simp add: spin_remaining_def)

end
