(* ===== verification/Containers_View.thy ===== *)
theory Containers_View
  imports Containers Systems_View
begin

section \<open>What the container table renders: containers-table.tsx, containers-table-columns.tsx\<close>

text \<open>
  The column definitions, the table of one system or of all with its requests, and the sheet that
  shows a container's logs. The lemmas show what the table holds whatever answers come in which
  order, whose logs the sheet shows, and that refreshing ends.
\<close>

subsection \<open>Columns\<close>

text \<open>What the columns read besides the row.\<close>

record container_context =
  kx_decimal :: "rat \<Rightarrow> nat \<Rightarrow> string"
  kx_toISOString :: "int \<Rightarrow> string"
  kx_hourWithSeconds :: "string \<Rightarrow> string"
  kx_systems :: "string \<Rightarrow> system_record option"
  kx_longestName :: rat
  kx_compare :: "string \<Rightarrow> string \<Rightarrow> int"

datatype container_cell =
    Plain_cell string
  | System_name_cell string rat  \<comment> \<open>the name and the width in characters\<close>
  | Health_cell "string \<times> string option"
  | Ports_cell "string \<times> bool"
  | Image_cell string  \<comment> \<open>also the title\<close>

datatype container_value = Value_string string | Value_number rat | Value_undefined

datatype container_icon = ContainerIcon | ServerIcon | Cpu | MemoryStick | Ethernet | ShieldCheckIcon
  | SquareArrowRightEnterIcon | LayersIcon | Hourglass | ClockIcon

type_synonym container_compare = "container_context \<Rightarrow> container_record \<Rightarrow> container_record \<Rightarrow> js_error + rat option"

record container_column =
  cc_id :: string
  cc_name :: string
  cc_Icon :: container_icon
  cc_accessor :: "container_record \<Rightarrow> container_value"
  cc_sortingFn :: "container_compare option"  \<comment> \<open>the table's own by default\<close>
  cc_invertSorting :: bool
  cc_minSize :: "nat option"
  cc_cell :: "container_context \<Rightarrow> container_record \<Rightarrow> container_cell"

definition no_error :: "(container_context \<Rightarrow> container_record \<Rightarrow> container_record \<Rightarrow> rat) \<Rightarrow> container_compare" where
  "no_error f cx a b = Inr (Some (f cx a b))"

definition containerChartCols :: "container_column list" where
  "containerChartCols =
     [\<lparr>cc_id = ''name'', cc_name = ''Name'', cc_Icon = ContainerIcon, cc_accessor = Value_string \<circ> ct_name,
       cc_sortingFn = Some (no_error (\<lambda>cx a b. of_int (name_sort (kx_compare cx) a b))), cc_invertSorting = False,
       cc_minSize = None, cc_cell = (\<lambda>cx c. Plain_cell (ct_name c))\<rparr>,
      \<lparr>cc_id = ''system'', cc_name = ''System'', cc_Icon = ServerIcon, cc_accessor = Value_string \<circ> ct_system,
       cc_sortingFn = Some (no_error (\<lambda>cx a b. of_int (system_sort (kx_systems cx) (kx_compare cx) a b))),
       cc_invertSorting = False, cc_minSize = None,
       cc_cell = (\<lambda>cx c. System_name_cell (Containers.system_cell (kx_systems cx) c) (kx_longestName cx / (105 / 100)))\<rparr>,
      \<lparr>cc_id = ''cpu'', cc_name = ''CPU'', cc_Icon = Cpu, cc_accessor = Value_number \<circ> ct_cpu, cc_sortingFn = None,
       cc_invertSorting = True, cc_minSize = None, cc_cell = (\<lambda>cx c. Plain_cell (cpu_cell (kx_decimal cx) c))\<rparr>,
      \<lparr>cc_id = ''memory'', cc_name = ''Memory'', cc_Icon = MemoryStick, cc_accessor = Value_number \<circ> ct_memory,
       cc_sortingFn = None, cc_invertSorting = True, cc_minSize = None,
       cc_cell = (\<lambda>cx c. Plain_cell (memory_cell (kx_decimal cx) c))\<rparr>,
      \<lparr>cc_id = ''net'', cc_name = ''Net'', cc_Icon = Ethernet, cc_accessor = Value_number \<circ> ct_net,
       cc_sortingFn = None, cc_invertSorting = True, cc_minSize = Some 112,
       cc_cell = (\<lambda>cx c. Plain_cell (net_cell (kx_decimal cx) c))\<rparr>,
      \<lparr>cc_id = ''health'', cc_name = ''Health'', cc_Icon = ShieldCheckIcon, cc_accessor = (\<lambda>c. Value_number (of_nat (ct_health c))),
       cc_sortingFn = None, cc_invertSorting = True, cc_minSize = Some 121,
       cc_cell = (\<lambda>cx c. Health_cell (health_cell c))\<rparr>,
      \<lparr>cc_id = ''ports'', cc_name = ''Ports'', cc_Icon = SquareArrowRightEnterIcon,
       cc_accessor = (\<lambda>c. if ct_ports c = '''' then Value_undefined else Value_string (ct_ports c)),
       cc_sortingFn = Some (no_error (\<lambda>cx. port_sort)), cc_invertSorting = False, cc_minSize = Some 147,
       cc_cell = (\<lambda>cx c. Ports_cell (ports_cell c))\<rparr>,
      \<lparr>cc_id = ''image'', cc_name = ''Image'', cc_Icon = LayersIcon, cc_accessor = Value_string \<circ> ct_image,
       cc_sortingFn = Some (no_error (\<lambda>cx a b. of_int (image_sort (kx_compare cx) a b))), cc_invertSorting = False,
       cc_minSize = None, cc_cell = (\<lambda>cx c. Image_cell (ct_image c))\<rparr>,
      \<lparr>cc_id = ''status'', cc_name = ''Status'', cc_Icon = Hourglass, cc_accessor = Value_string \<circ> ct_status,
       cc_sortingFn = Some (\<lambda>cx. status_sort), cc_invertSorting = True, cc_minSize = None,
       cc_cell = (\<lambda>cx c. Plain_cell (ct_status c))\<rparr>,
      \<lparr>cc_id = ''updated'', cc_name = ''Updated'', cc_Icon = ClockIcon, cc_accessor = (\<lambda>c. Value_number (of_int (ct_updated c))),
       cc_sortingFn = None, cc_invertSorting = True, cc_minSize = None,
       cc_cell = (\<lambda>cx c. Plain_cell (updated_cell (kx_toISOString cx) (kx_hourWithSeconds cx) c))\<rparr>]"

record header_button =
  hb_highlight :: bool
  hb_Icon :: container_icon
  hb_name :: string
  hb_onClick :: bool  \<comment> \<open>the argument of toggleSorting: whether to sort descending\<close>

definition HeaderButton :: "container_column \<Rightarrow> sorting \<Rightarrow> header_button" where
  "HeaderButton c s =
     (let isSorted = getIsSorted (cc_id c) s
      in \<lparr>hb_highlight = isSorted \<noteq> None, hb_Icon = cc_Icon c, hb_name = cc_name c, hb_onClick = isSorted = Some False\<rparr>)"

definition container_columns :: "string option \<Rightarrow> container_column list" where
  \<comment> \<open>the columns of the table of a system, or of all\<close>
  "container_columns systemId = filter (\<lambda>c. if str_truthy systemId then cc_id c \<noteq> ''system'' else True) containerChartCols"

definition sort_key :: "string option \<Rightarrow> string" where
  "sort_key systemId = ''sort-c-'' @ (if str_truthy systemId then ''1'' else ''0'')"

definition initial_sorting :: "string option \<Rightarrow> sorting" where
  "initial_sorting systemId = [(if str_truthy systemId then ''name'' else ''system'', False)]"

lemma only_status_sort_throws:
  assumes "c \<in> set containerChartCols" and "cc_sortingFn c = Some f" and "f cx a b = Inl e"
  shows "cc_id c = ''status''"
  using assms by (auto simp: containerChartCols_def no_error_def)

lemma initial_sorting_is_a_column:
  "fst (hd (initial_sorting systemId)) \<in> cc_id ` set (container_columns systemId)"
  by (simp add: initial_sorting_def container_columns_def containerChartCols_def)

subsection \<open>The data of the table\<close>

record containers_state =
  cs_data :: "container_record list option"
  cs_visibility :: "(string \<times> bool) list"
  cs_awaited :: "string option list"  \<comment> \<open>the systems of the requests under way\<close>

definition ports_effect :: "containers_state \<Rightarrow> containers_state" where
  \<comment> \<open>the effect that hides the ports column if no ports are present\<close>
  "ports_effect s =
     (case cs_data s of
        None \<Rightarrow> s
      | Some data \<Rightarrow> (if map_of (cs_visibility s) ''ports'' = Some (hasPorts data) then s
                     else s\<lparr>cs_visibility := AList.update ''ports'' (hasPorts data) (cs_visibility s)\<rparr>))"

definition fetchData :: "string option \<Rightarrow> containers_state \<Rightarrow> containers_state" where
  "fetchData systemId s = s\<lparr>cs_awaited := cs_awaited s @ [systemId]\<rparr>"

definition containers_mount :: "string option \<Rightarrow> containers_state" where
  \<comment> \<open>the initial load\<close>
  "containers_mount systemId = fetchData systemId \<lparr>cs_data = None, cs_visibility = [], cs_awaited = []\<rparr>"

datatype containers_action =
    Store_change int string
  | Fetched "string option" "container_record list"
  | Fetch_failed "string option"

fun containers_step :: "string option \<Rightarrow> int \<Rightarrow> containers_action \<Rightarrow> containers_state \<Rightarrow> containers_state" where
  \<comment> \<open>on the table of systemId mounted at loadTime: a change of the by-id store, an answer, a failure\<close>
  "containers_step systemId loadTime (Store_change now key) s =
     (case should_fetch systemId loadTime now key of None \<Rightarrow> s | Some target \<Rightarrow> fetchData target s)"
| "containers_step systemId loadTime (Fetched target items) s =
     (if target \<in> set (cs_awaited s)
      then ports_effect (s\<lparr>cs_awaited := remove1 target (cs_awaited s),
             cs_data := Some (merge_containers target items (cs_data s))\<rparr>)
      else s)"
| "containers_step systemId loadTime (Fetch_failed target) s = s\<lparr>cs_awaited := remove1 target (cs_awaited s)\<rparr>"

fun answer_documented :: "containers_action \<Rightarrow> bool" where
  \<comment> \<open>documented of the hub: a page has no id twice, and obeys the filter\<close>
  "answer_documented (Fetched target items) \<longleftrightarrow> distinct (map ct_id items)
     \<and> (str_truthy target \<longrightarrow> list_all (\<lambda>c. ct_system c = the target) items)"
| "answer_documented a \<longleftrightarrow> True"

definition containers_ok :: "string option \<Rightarrow> containers_state \<Rightarrow> bool" where
  "containers_ok systemId s \<longleftrightarrow>
     (case cs_data s of
        None \<Rightarrow> True
      | Some data \<Rightarrow> distinct (map ct_id data) \<and> map_of (cs_visibility s) ''ports'' = Some (hasPorts data)
          \<and> (str_truthy systemId \<longrightarrow> list_all (\<lambda>c. ct_system c = the systemId) data))
     \<and> (str_truthy systemId \<longrightarrow> set (cs_awaited s) \<subseteq> {systemId})"

lemma containers_ok_ports_effect:
  assumes "cs_data s = Some data" and "distinct (map ct_id data)"
    and "str_truthy systemId \<longrightarrow> list_all (\<lambda>c. ct_system c = the systemId) data"
    and "str_truthy systemId \<longrightarrow> set (cs_awaited s) \<subseteq> {systemId}"
  shows "containers_ok systemId (ports_effect s)"
  using assms by (auto simp: containers_ok_def ports_effect_def)

lemma merge_distinct:
  assumes "distinct (map ct_id items)" and "distinct (map ct_id (orelse cur []))"
  shows "distinct (map ct_id (merge_containers systemId items cur))"
proof (cases "items = []")
  case True
  then show ?thesis using assms(2) by (simp add: merge_containers_def distinct_map_filter)
next
  case False
  have "distinct (map ct_id (filter P items @ filter (\<lambda>c. ct_id c \<notin> set (map ct_id (filter P items)) \<and> Q c) (orelse cur [])))"
    for P Q
  proof -
    have "set is \<inter> set (map ct_id (filter (\<lambda>c. ct_id c \<notin> set is \<and> Q c) (orelse cur []))) = {}" for "is" by auto
    then have "set (map ct_id (filter P items)) \<inter>
        set (map ct_id (filter (\<lambda>c. ct_id c \<notin> set (map ct_id (filter P items)) \<and> Q c) (orelse cur []))) = {}" .
    then show ?thesis using assms by (simp add: distinct_map_filter)
  qed
  then show ?thesis using False by (simp add: merge_containers_def Let_def)
qed

lemma set_merge: "set (merge_containers systemId items cur) \<subseteq> set items \<union> set (orelse cur [])"
  by (auto simp: merge_containers_def Let_def)

lemma containers_step_ok:
  assumes "containers_ok systemId s" and "answer_documented a"
  shows "containers_ok systemId (containers_step systemId loadTime a s)"
proof (cases a)
  case (Store_change now key)
  then show ?thesis using assms(1)
    by (auto simp: should_fetch_def fetchData_def containers_ok_def split: option.splits)
next
  case (Fetch_failed target)
  then show ?thesis using assms(1) set_remove1_subset [of target "cs_awaited s"]
    by (auto simp: containers_ok_def split: option.splits)
next
  case (Fetched target items)
  let ?data = "merge_containers target items (cs_data s)"
  show ?thesis
  proof (cases "target \<in> set (cs_awaited s)")
    case True
    have cur: "distinct (map ct_id (orelse (cs_data s) []))"
        "str_truthy systemId \<Longrightarrow> list_all (\<lambda>c. ct_system c = the systemId) (orelse (cs_data s) [])"
      using assms(1) by (auto simp: containers_ok_def orelse_def split: option.splits)
    have target: "str_truthy systemId \<Longrightarrow> target = systemId"
      using assms(1) True by (auto simp: containers_ok_def)
    have "distinct (map ct_id ?data)" using merge_distinct cur(1) assms(2) Fetched by simp
    moreover have "str_truthy systemId \<longrightarrow> list_all (\<lambda>c. ct_system c = the systemId) ?data"
      using cur(2) target assms(2) Fetched set_merge [of target items "cs_data s"] by (fastforce simp: list_all_iff)
    moreover have "str_truthy systemId \<longrightarrow> set (remove1 target (cs_awaited s)) \<subseteq> {systemId}"
      using assms(1) set_remove1_subset [of target "cs_awaited s"] by (auto simp: containers_ok_def)
    ultimately show ?thesis using Fetched True containers_ok_ports_effect [of _ ?data] by simp
  qed (use assms(1) Fetched in simp)
qed

lemma containers_ok_run:
  assumes "list_all answer_documented as"
  shows "containers_ok systemId (fold (containers_step systemId loadTime) as (containers_mount systemId))"
proof -
  have "containers_ok systemId t \<Longrightarrow> containers_ok systemId (fold (containers_step systemId loadTime) as t)" for t
    using assms
  proof (induction as arbitrary: t)
    case (Cons a as)
    then show ?case using containers_step_ok [of systemId t a] by simp
  qed simp
  moreover have "containers_ok systemId (containers_mount systemId)"
    by (simp add: containers_ok_def containers_mount_def fetchData_def)
  ultimately show ?thesis by blast
qed

text \<open>
  Whatever answers come in whichever order, with changes of the systems between them: the table
  never lists a container twice, the table of a system lists that system's containers only, and
  the ports column is shown exactly when some listed container has ports.
\<close>
theorem container_table_invariant:
  fixes systemId :: "string option" and loadTime :: int
  assumes "list_all answer_documented as"
  defines "s \<equiv> fold (containers_step systemId loadTime) as (containers_mount systemId)"
  shows "cs_data s = Some data \<longrightarrow> distinct (map ct_id data)
    \<and> (str_truthy systemId \<longrightarrow> list_all (\<lambda>c. ct_system c = the systemId) data)
    \<and> map_of (cs_visibility s) ''ports'' = Some (\<exists>c \<in> set data. ct_ports c \<noteq> '''')"
proof -
  have "containers_ok systemId s" unfolding s_def using assms(1) by (rule containers_ok_run)
  then show ?thesis by (auto simp: containers_ok_def hasPorts_def list_ex_iff)
qed

theorem container_table_invariant_witness:
  "distinct (map ct_id [sample_container ''b'' 90000, sample_container ''a'' 90000])
    \<and> list_all (\<lambda>c. ct_system c = ''s'') [sample_container ''b'' 90000, sample_container ''a'' 90000]"
proof -
  let ?as = "[Fetched (Some ''s'') [sample_container ''a'' 90000], Store_change 1000 ''s'',
      Fetched (Some ''s'') [sample_container ''b'' 90000]]"
  have "list_all answer_documented ?as" by (simp add: sample_container_def)
  from container_table_invariant [OF this, of "Some ''s''" 0] show ?thesis
    by (simp add: containers_mount_def fetchData_def should_fetch_def ports_effect_def merge_containers_def
        lastUpdated_of_def sample_container_def Let_def)
qed

subsection \<open>The sheet with a container's logs: ContainerSheet\<close>

text \<open>
  A container is the object of a row: its number tells two objects of equal content apart, as the
  effect does that loads the logs. Requests carry the number of the container they are for; that of
  the logs on screen is kept beside them.
\<close>

type_synonym container_object = "nat \<times> container_record"

datatype log_request = Load nat | Refresh nat int

record sheet_state =
  sh_open :: bool
  sh_active :: "container_object option"
  sh_seen :: "container_object option"  \<comment> \<open>the dependency when the effect last ran\<close>
  sh_logs :: string
  sh_source :: "nat option"
  sh_awaited :: "log_request list"
  sh_refreshing :: bool
  sh_spinTimers :: "int list"
  sh_copied :: bool
  sh_copyTimers :: "int list"
  sh_fullscreen :: bool

definition sheet_initial :: sheet_state where
  "sheet_initial = \<lparr>sh_open = False, sh_active = None, sh_seen = None, sh_logs = '''', sh_source = None, sh_awaited = [],
     sh_refreshing = False, sh_spinTimers = [], sh_copied = False, sh_copyTimers = [], sh_fullscreen = False\<rparr>"

definition sheet_effect :: "sheet_state \<Rightarrow> sheet_state" where
  "sheet_effect s =
     (if sh_active s = sh_seen s then s
      else s\<lparr>sh_seen := sh_active s, sh_logs := '''', sh_source := None,
             sh_awaited := sh_awaited s @ (case sh_active s of None \<Rightarrow> [] | Some c \<Rightarrow> [Load (fst c)])\<rparr>)"

datatype sheet_action =
    Click_container container_object
  | Open_change bool
  | Fullscreen_change bool
  | Refresh_click int
  | Logs_answer log_request "string option" int
  | Spin_fire int
  | Copy_done int
  | Copy_fire int

definition request_container :: "log_request \<Rightarrow> nat" where
  "request_container r = (case r of Load n \<Rightarrow> n | Refresh n t \<Rightarrow> n)"

fun sheet_step :: "sheet_action \<Rightarrow> sheet_state \<Rightarrow> sheet_state" where
  \<comment> \<open>rows are behind the open sheet; the refresh and copy buttons are disabled while refreshing and
      without logs; getLogs catches every failure\<close>
  "sheet_step (Click_container c) s =
     (if sh_open s then s else sheet_effect (s\<lparr>sh_active := Some c, sh_open := True\<rparr>))"
| "sheet_step (Open_change b) s = s\<lparr>sh_open := b\<rparr>"
| "sheet_step (Fullscreen_change b) s = s\<lparr>sh_fullscreen := b\<rparr>"
| "sheet_step (Refresh_click now) s =
     (case sh_active s of
        None \<Rightarrow> s
      | Some c \<Rightarrow> (if sh_refreshing s then s
                  else s\<lparr>sh_refreshing := True, sh_awaited := sh_awaited s @ [Refresh (fst c) now]\<rparr>))"
| "sheet_step (Logs_answer r response now) s =
     (if r \<notin> set (sh_awaited s) then s
      else s\<lparr>sh_awaited := remove1 r (sh_awaited s), sh_logs := getLogs response, sh_source := Some (request_container r),
             sh_spinTimers := sh_spinTimers s @ (case r of Load n \<Rightarrow> [] | Refresh n start \<Rightarrow> [now + spin_remaining start now])\<rparr>)"
| "sheet_step (Spin_fire due) s =
     (if due \<notin> set (sh_spinTimers s) then s
      else s\<lparr>sh_spinTimers := remove1 due (sh_spinTimers s), sh_refreshing := False\<rparr>)"
| "sheet_step (Copy_done now) s =
     (if sh_logs s = '''' then s else s\<lparr>sh_copied := True, sh_copyTimers := sh_copyTimers s @ [now + 1500]\<rparr>)"
| "sheet_step (Copy_fire due) s =
     (if due \<notin> set (sh_copyTimers s) then s
      else s\<lparr>sh_copyTimers := remove1 due (sh_copyTimers s), sh_copied := False\<rparr>)"

record sheet_view =
  sv_title :: string
  sv_system :: "string \<times> string"  \<comment> \<open>the id of the link and its text\<close>
  sv_description :: "string list"
  sv_logs :: "(nat \<times> string) list"
  sv_copied :: bool
  sv_copyDisabled :: bool
  sv_refreshDisabled :: bool
  sv_fullscreen :: "(string \<times> (nat \<times> string) list \<times> bool) option"

definition ContainerSheet :: "(string \<Rightarrow> system_record option) \<Rightarrow> sheet_state \<Rightarrow> sheet_view option" where
  \<comment> \<open>nothing before a container was opened; both the sheet and the full screen show the same logs\<close>
  "ContainerSheet systems s = map_option (\<lambda>(n, c).
     \<lparr>sv_title = ct_name c,
      sv_system = (ct_system c, case systems (ct_system c) of Some sys \<Rightarrow> sys_name sys | None \<Rightarrow> ''''),
      sv_description = [ct_status c, ct_image c, ct_id c], sv_logs = logLines (sh_logs s),
      sv_copied = sh_copied s, sv_copyDisabled = (sh_logs s = ''''), sv_refreshDisabled = sh_refreshing s,
      sv_fullscreen = (if sh_fullscreen s then Some (ct_name c @ '' logs'', logLines (sh_logs s), sh_refreshing s) else None)\<rparr>)
   (sh_active s)"

fun is_refresh :: "log_request \<Rightarrow> bool" where
  "is_refresh (Refresh n t) = True"
| "is_refresh (Load n) = False"

definition refreshes :: "sheet_state \<Rightarrow> nat" where
  \<comment> \<open>refreshes whose answer or timer is still to come\<close>
  "refreshes s = length (filter is_refresh (sh_awaited s)) + length (sh_spinTimers s)"

definition sheet_ok :: "sheet_state \<Rightarrow> bool" where
  "sheet_ok s \<longleftrightarrow> refreshes s = (if sh_refreshing s then 1 else 0)"

lemma Suc_length_remove1: "x \<in> set xs \<Longrightarrow> Suc (length (remove1 x xs)) = length xs"
  by (induction xs) auto

lemma length_filter_remove1:
  "x \<in> set xs \<Longrightarrow> length (filter P (remove1 x xs)) + (if P x then 1 else 0) = length (filter P xs)"
  by (induction xs) auto

lemma sheet_step_ok: "sheet_ok s \<Longrightarrow> sheet_ok (sheet_step a s)"
proof (cases a)
  case (Click_container c)
  then show "sheet_ok s \<Longrightarrow> sheet_ok (sheet_step a s)"
    by (auto simp: sheet_ok_def refreshes_def sheet_effect_def)
next
  case (Logs_answer r response now)
  assume ok: "sheet_ok s"
  show "sheet_ok (sheet_step a s)"
  proof (cases "r \<in> set (sh_awaited s)")
    case True
    then have "refreshes (sheet_step a s) = refreshes s"
      using length_filter_remove1 [OF True, of is_refresh] Logs_answer
      by (auto simp: refreshes_def split: log_request.splits)
    then show ?thesis using ok Logs_answer True by (simp add: sheet_ok_def)
  qed (use ok Logs_answer in simp)
next
  case (Spin_fire due)
  assume ok: "sheet_ok s"
  show "sheet_ok (sheet_step a s)"
  proof (cases "due \<in> set (sh_spinTimers s)")
    case True
    then have "refreshes (sheet_step a s) + 1 = refreshes s"
      using Suc_length_remove1 [OF True] Spin_fire by (simp add: refreshes_def)
    then show ?thesis using ok Spin_fire True by (simp add: sheet_ok_def split: if_splits)
  qed (use ok Spin_fire in simp)
qed (auto simp: sheet_ok_def refreshes_def split: option.splits)

text \<open>
  Refreshing never hangs: at any time, after any actions, the refresh buttons are disabled exactly
  while one refresh waits for its answer or, once answered, for its timer, and never more than one;
  and the timer is due at least half a second after the click.
\<close>
theorem refreshing_is_one_refresh:
  "refreshes (fold sheet_step as sheet_initial) = (if sh_refreshing (fold sheet_step as sheet_initial) then 1 else 0)
   \<and> (Refresh n start \<in> set (sh_awaited s) \<and> start \<le> now \<longrightarrow>
       (\<exists>due \<in> set (sh_spinTimers (sheet_step (Logs_answer (Refresh n start) response now) s)). start + 500 \<le> due \<and> now \<le> due))"
proof
  have "sheet_ok s \<Longrightarrow> sheet_ok (fold sheet_step as s)" for s
    by (induction as arbitrary: s) (simp_all add: sheet_step_ok)
  moreover have "sheet_ok sheet_initial" by (simp add: sheet_ok_def refreshes_def sheet_initial_def)
  ultimately show "refreshes (fold sheet_step as sheet_initial) = (if sh_refreshing (fold sheet_step as sheet_initial) then 1 else 0)"
    unfolding sheet_ok_def by blast
qed (auto simp: spin_remaining_def)

theorem refreshing_is_one_refresh_witness:
  "\<exists>due \<in> set (sh_spinTimers (sheet_step (Logs_answer (Refresh 1 100) None 250)
      (sheet_initial\<lparr>sh_awaited := [Refresh 1 100]\<rparr>))). 100 + 500 \<le> due \<and> 250 \<le> due"
  using refreshing_is_one_refresh [of "[]" 1 100 "sheet_initial\<lparr>sh_awaited := [Refresh 1 100]\<rparr>" 250 None] by simp

fun opens_quietly :: "sheet_action list \<Rightarrow> sheet_state \<Rightarrow> bool" where
  \<comment> \<open>another container is opened only when no answer is awaited\<close>
  "opens_quietly [] s = True"
| "opens_quietly (a # as) s =
     ((case a of Click_container c \<Rightarrow> sh_open s \<or> sh_active s = Some c \<or> sh_awaited s = [] | _ \<Rightarrow> True)
      \<and> opens_quietly as (sheet_step a s))"

definition logs_ok :: "sheet_state \<Rightarrow> bool" where
  "logs_ok s \<longleftrightarrow> sh_seen s = sh_active s
     \<and> (case sh_active s of
          None \<Rightarrow> sh_source s = None \<and> sh_awaited s = []
        | Some c \<Rightarrow> (sh_source s = None \<or> sh_source s = Some (fst c)) \<and> list_all (\<lambda>r. request_container r = fst c) (sh_awaited s))"

lemma list_all_remove1: "list_all P xs \<Longrightarrow> list_all P (remove1 x xs)"
  by (induction xs) auto

lemma logs_ok_step:
  assumes "logs_ok s" and "opens_quietly [a] s"
  shows "logs_ok (sheet_step a s)"
proof (cases a)
  case (Click_container c)
  then show ?thesis using assms
    by (auto simp: logs_ok_def sheet_effect_def request_container_def split: option.splits)
next
  case (Refresh_click now)
  then show ?thesis using assms(1)
    by (auto simp: logs_ok_def request_container_def split: option.splits)
next
  case (Logs_answer r response now)
  show ?thesis
  proof (cases "r \<in> set (sh_awaited s)")
    case True
    then obtain c where "sh_active s = Some c" "request_container r = fst c"
      using assms(1) by (cases "sh_active s") (auto simp: logs_ok_def list_all_iff)
    then show ?thesis using assms(1) Logs_answer True by (simp add: logs_ok_def list_all_remove1)
  qed (use assms(1) Logs_answer in simp)
qed (use assms(1) in \<open>auto simp: logs_ok_def split: option.splits\<close>)

text \<open>
  The logs on screen are those of the container named above them as long as no other container is
  opened while an answer is awaited. If one is, there is no guard: the logs of the container opened
  before are shown under the other when their answer comes second.
\<close>
theorem logs_of_the_shown_container:
  "(opens_quietly as sheet_initial \<longrightarrow>
     (case sh_source (fold sheet_step as sheet_initial) of
        None \<Rightarrow> True
      | Some n \<Rightarrow> map_option fst (sh_active (fold sheet_step as sheet_initial)) = Some n))
   \<and> (m \<noteq> n \<longrightarrow>
       (let s = fold sheet_step [Click_container (m, a), Open_change False, Click_container (n, b),
                  Logs_answer (Load n) (Some x) 0, Logs_answer (Load m) (Some y) 0] sheet_initial
        in map_option sv_title (ContainerSheet systems s) = Some (ct_name b) \<and> sh_logs s = y \<and> sh_source s = Some m))"
proof
  have "logs_ok s \<Longrightarrow> opens_quietly as s \<Longrightarrow> logs_ok (fold sheet_step as s)" for s
  proof (induction as arbitrary: s)
    case (Cons a as)
    then show ?case using logs_ok_step [of s a] by simp
  qed simp
  moreover have "logs_ok sheet_initial" by (simp add: logs_ok_def sheet_initial_def)
  ultimately have "opens_quietly as sheet_initial \<longrightarrow> logs_ok (fold sheet_step as sheet_initial)" by blast
  then show "opens_quietly as sheet_initial \<longrightarrow>
     (case sh_source (fold sheet_step as sheet_initial) of
        None \<Rightarrow> True
      | Some n \<Rightarrow> map_option fst (sh_active (fold sheet_step as sheet_initial)) = Some n)"
    by (auto simp: logs_ok_def split: option.splits)
  show "m \<noteq> n \<longrightarrow>
       (let s = fold sheet_step [Click_container (m, a), Open_change False, Click_container (n, b),
                  Logs_answer (Load n) (Some x) 0, Logs_answer (Load m) (Some y) 0] sheet_initial
        in map_option sv_title (ContainerSheet systems s) = Some (ct_name b) \<and> sh_logs s = y \<and> sh_source s = Some m)"
    by (simp add: sheet_initial_def sheet_effect_def ContainerSheet_def getLogs_def request_container_def)
qed

theorem logs_of_the_shown_container_witness:
  "map_option fst (sh_active (fold sheet_step [Click_container (1, sample_container ''a'' 0), Logs_answer (Load 1) (Some ''x'') 0]
      sheet_initial)) = Some 1"
proof -
  let ?as = "[Click_container (1, sample_container ''a'' 0), Logs_answer (Load 1) (Some ''x'') 0]"
  have "opens_quietly ?as sheet_initial" by (simp add: sheet_initial_def)
  then have "case sh_source (fold sheet_step ?as sheet_initial) of None \<Rightarrow> True
      | Some n \<Rightarrow> map_option fst (sh_active (fold sheet_step ?as sheet_initial)) = Some n"
    using logs_of_the_shown_container [of ?as] by blast
  then show ?thesis by (simp add: sheet_initial_def sheet_effect_def request_container_def)
qed

subsection \<open>The table: ContainersTable, AllContainersTable\<close>

datatype no_rows = No_results | Loading_icon

record containers_page =
  cp_filter :: string
  cp_clear :: bool
  cp_head :: "header_button list"
  cp_body :: "container_record table_body"
  cp_message :: "no_rows option"  \<comment> \<open>what is shown when there are no rows\<close>

definition container_visible :: "(string \<times> bool) list \<Rightarrow> container_column \<Rightarrow> bool" where
  \<comment> \<open>a column is visible unless the state says it is not (documented of the table)\<close>
  "container_visible visibility c = orelse (map_of visibility (cc_id c)) True"

definition ContainersTable ::
  "string option \<Rightarrow> containers_state \<Rightarrow> string \<Rightarrow> sorting \<Rightarrow> virtual_item list \<Rightarrow> int \<Rightarrow> int \<Rightarrow> container_record list \<Rightarrow>
   containers_page" where
  \<comment> \<open>rows are those of the table's model, filtered and sorted\<close>
  "ContainersTable systemId s globalFilter st virtualRows scrollMargin totalSize rows =
     (let columns = filter (container_visible (cs_visibility s)) (container_columns systemId)
      in \<lparr>cp_filter = globalFilter, cp_clear = (globalFilter \<noteq> ''''), cp_head = map (\<lambda>c. HeaderButton c st) columns,
          cp_body = virtual_table 48 virtualRows scrollMargin totalSize rows (length columns),
          cp_message = (if rows \<noteq> [] then None else if cs_data s \<noteq> None then Some No_results else Some Loading_icon)\<rparr>)"

definition ContainerTableRow :: "container_context \<Rightarrow> container_column list \<Rightarrow> container_record \<Rightarrow> container_cell list" where
  "ContainerTableRow cx columns c = map (\<lambda>col. cc_cell col cx c) columns"

lemma head_names:
  "map hb_name (cp_head (ContainersTable (Some ''s'') s f st v m t rows))
     = [''Name'', ''CPU'', ''Memory'', ''Net'', ''Health''] @ (if orelse (map_of (cs_visibility s) ''ports'') True then [''Ports''] else [])
       @ [''Image'', ''Status'', ''Updated'']"
  if "\<forall>i. i \<noteq> ''ports'' \<longrightarrow> map_of (cs_visibility s) i = None"
  using that
  by (simp add: ContainersTable_def container_columns_def containerChartCols_def container_visible_def HeaderButton_def Let_def)

end
