(* ===== verification/Logs_View.thy ===== *)
theory Logs_View
  imports Containers_View
begin

section \<open>The rows of the containers table, and the logs in full screen\<close>

text \<open>
  What the containers table lists end to end: the containers that were fetched and merged
  (Containers_View), filtered by the global filter and sorted; its head; and the dialog with the logs in
  full screen with its scrolling. The lemmas show which containers are listed after any answers, and
  that the full screen shows the sheet's logs and is scrolled to their end.
\<close>

subsection \<open>Rows and head\<close>

definition container_rows ::
  "(sorting \<Rightarrow> container_record list \<Rightarrow> container_record list) \<Rightarrow> (string \<Rightarrow> system_record option) \<Rightarrow> string \<Rightarrow> sorting \<Rightarrow>
   containers_state \<Rightarrow> container_record list" where
  \<comment> \<open>data or the empty list; an empty filter is none (documented of the table)\<close>
  "container_rows srt systems f st s =
     srt st (filter (\<lambda>c. f = '''' \<or> container_globalFilterFn systems c f) (orelse (cs_data s) []))"

definition ContainersTableHead :: "container_column list \<Rightarrow> sorting \<Rightarrow> header_button list" where
  "ContainersTableHead columns st = map (\<lambda>c. HeaderButton c st) columns"

lemma head_of_table:
  "cp_head (ContainersTable systemId s f st v m t rows) =
     ContainersTableHead (filter (container_visible (cs_visibility s)) (container_columns systemId)) st"
  by (simp add: ContainersTable_def ContainersTableHead_def Let_def)



subsection \<open>The logs in full screen\<close>

record fullscreen_view =
  fv_title :: string
  fv_lines :: "(nat \<times> string) list"
  fv_refreshDisabled :: bool

definition LogsFullscreenDialog :: "bool \<Rightarrow> string \<Rightarrow> string \<Rightarrow> bool \<Rightarrow> fullscreen_view option" where
  "LogsFullscreenDialog is_open logsDisplay containerName isRefreshing =
     (if is_open then Some \<lparr>fv_title = containerName @ '' logs'', fv_lines = logLines logsDisplay, fv_refreshDisabled = isRefreshing\<rparr>
      else None)"

lemma fullscreen_is_of_sheet:
  "sh_active s = Some (n, c) \<Longrightarrow> map_option (\<lambda>v. (fv_title v, fv_lines v, fv_refreshDisabled v))
       (LogsFullscreenDialog (sh_fullscreen s) (sh_logs s) (ct_name c) (sh_refreshing s))
     = sv_fullscreen (the (ContainerSheet systems s))"
  by (simp add: LogsFullscreenDialog_def ContainerSheet_def)

text \<open>
  Scrolling: the effect on [open, logsDisplay] sets a timer, which scrolls to the end of what is there when
  it fires, if the dialog is still mounted. The position is a number of lines here.
\<close>

record scroll_state =
  sc_deps :: "(bool \<times> string) option"
  sc_timers :: "int list"
  sc_top :: nat

definition scroll_effect :: "int \<Rightarrow> bool \<Rightarrow> string \<Rightarrow> scroll_state \<Rightarrow> scroll_state" where
  "scroll_effect now is_open logs s =
     (if sc_deps s = Some (is_open, logs) then s
      else s\<lparr>sc_deps := Some (is_open, logs), sc_timers := sc_timers s @ (if is_open \<and> logs \<noteq> '''' then [now + 50] else [])\<rparr>)"

definition scroll_fire :: "int \<Rightarrow> scroll_state \<Rightarrow> scroll_state" where
  "scroll_fire due s =
     (if due \<notin> set (sc_timers s) then s
      else s\<lparr>sc_timers := remove1 due (sc_timers s),
             sc_top := (case sc_deps s of Some (True, logs) \<Rightarrow> length (logLines logs) | _ \<Rightarrow> sc_top s)\<rparr>)"

lemma new_logs_are_scrolled:
  "logs \<noteq> '''' \<Longrightarrow> sc_deps s \<noteq> Some (True, logs) \<Longrightarrow>
     sc_top (scroll_fire (now + 50) (scroll_effect now True logs s)) = length (logLines logs)"
  by (simp add: scroll_effect_def scroll_fire_def)

end
