(* ===== verification/Toasts.thy ===== *)
theory Toasts
  imports Types
begin

section \<open>Toasts: components/ui/use-toast.ts\<close>

text \<open>
  The module state behind toast and useToast: the id counter, the toasts in memory and the removal
  timeouts; the reducer with its side effect, dispatch, toast, its dismiss and update, and the
  timeout's callback. The lemmas show that at most one toast is in memory, that ids are fresh,
  and that a closed toast always has a removal pending.
\<close>

definition TOAST_LIMIT :: nat where "TOAST_LIMIT = 1"
definition TOAST_REMOVE_DELAY :: nat where "TOAST_REMOVE_DELAY = 1000000"
definition MAX_SAFE_INTEGER :: nat where "MAX_SAFE_INTEGER = 2 ^ 53 - 1"

text \<open>A toast: its id, whether it is open, and what it shows.\<close>

record toaster_toast =
  to_id :: string
  to_open :: bool
  to_title :: "string option"
  to_description :: "string option"

record toast_state =
  toasts :: "toaster_toast list"
  toastTimeouts :: "string list"
  toast_count :: nat

definition toast_initial :: toast_state where
  "toast_initial = \<lparr>toasts = [], toastTimeouts = [], toast_count = 0\<rparr>"

datatype toast_action =
    ADD_TOAST toaster_toast
  | UPDATE_TOAST string "string option" "string option"
  | DISMISS_TOAST "string option"
  | REMOVE_TOAST "string option"

definition genId :: "toast_state \<Rightarrow> string \<times> toast_state" where
  "genId st = (let c = (toast_count st + 1) mod MAX_SAFE_INTEGER in (nat_str c, st\<lparr>toast_count := c\<rparr>))"

definition addToRemoveQueue :: "string \<Rightarrow> string list \<Rightarrow> string list" where
  "addToRemoveQueue toastId timeouts = (if toastId \<in> set timeouts then timeouts else timeouts @ [toastId])"

definition dismiss_effect :: "string option \<Rightarrow> toaster_toast list \<Rightarrow> string list \<Rightarrow> string list" where
  \<comment> \<open>the side effect of DISMISS_TOAST\<close>
  "dismiss_effect toastId ts timeouts =
     (if str_truthy toastId then addToRemoveQueue (the toastId) timeouts
      else fold (\<lambda>t. addToRemoveQueue (to_id t)) ts timeouts)"

fun toast_reducer :: "toast_action \<Rightarrow> toast_state \<Rightarrow> toast_state" where
  "toast_reducer (ADD_TOAST t) st = st\<lparr>toasts := take TOAST_LIMIT (t # toasts st)\<rparr>"
| "toast_reducer (UPDATE_TOAST i title description) st =
     st\<lparr>toasts := map (\<lambda>t. if to_id t = i then t\<lparr>to_title := title, to_description := description\<rparr> else t) (toasts st)\<rparr>"
| "toast_reducer (DISMISS_TOAST toastId) st =
     st\<lparr>toastTimeouts := dismiss_effect toastId (toasts st) (toastTimeouts st),
        toasts := map (\<lambda>t. if Some (to_id t) = toastId \<or> toastId = None then t\<lparr>to_open := False\<rparr> else t) (toasts st)\<rparr>"
| "toast_reducer (REMOVE_TOAST toastId) st =
     (case toastId of None \<Rightarrow> st\<lparr>toasts := []\<rparr>
      | Some i \<Rightarrow> st\<lparr>toasts := filter (\<lambda>t. to_id t \<noteq> i) (toasts st)\<rparr>)"

definition show_toast :: "string option \<Rightarrow> string option \<Rightarrow> toast_state \<Rightarrow> string \<times> toast_state" where
  \<comment> \<open>toast: the id returned, and the state after the dispatch\<close>
  "show_toast title description st =
     (let (i, st) = genId st
      in (i, toast_reducer (ADD_TOAST \<lparr>to_id = i, to_open = True, to_title = title, to_description = description\<rparr>) st))"

definition onOpenChange :: "string \<Rightarrow> bool \<Rightarrow> toast_state \<Rightarrow> toast_state" where
  "onOpenChange i is_open st = (if \<not> is_open then toast_reducer (DISMISS_TOAST (Some i)) st else st)"

definition toast_timeout :: "string \<Rightarrow> toast_state \<Rightarrow> toast_state" where
  \<comment> \<open>the callback of addToRemoveQueue's timeout\<close>
  "toast_timeout i st = toast_reducer (REMOVE_TOAST (Some i)) (st\<lparr>toastTimeouts := removeAll i (toastTimeouts st)\<rparr>)"

inductive toast_step :: "toast_state \<Rightarrow> toast_state \<Rightarrow> bool" where
  show_it: "toast_step st (snd (show_toast title description st))"
| update_it: "toast_step st (toast_reducer (UPDATE_TOAST i title description) st)"
| dismiss_it: "toast_step st (toast_reducer (DISMISS_TOAST toastId) st)"
| change_it: "toast_step st (onOpenChange i is_open st)"
| timeout_it: "i \<in> set (toastTimeouts st) \<Longrightarrow> toast_step st (toast_timeout i st)"

definition toasts_ok :: "toast_state \<Rightarrow> bool" where
  "toasts_ok st \<longleftrightarrow> length (toasts st) \<le> 1 \<and> distinct (toastTimeouts st)
     \<and> (\<forall>t \<in> set (toasts st). to_id t \<noteq> '''' \<and> (\<not> to_open t \<longrightarrow> to_id t \<in> set (toastTimeouts st)))"

lemma set_addToRemoveQueue [simp]: "set (addToRemoveQueue i ts) = insert i (set ts)"
  by (auto simp: addToRemoveQueue_def)

lemma distinct_addToRemoveQueue [simp]: "distinct (addToRemoveQueue i ts) = distinct ts"
  by (auto simp: addToRemoveQueue_def)

lemma set_fold_queue [simp]:
  "set (fold (\<lambda>t. addToRemoveQueue (to_id t)) ts q) = to_id ` set ts \<union> set q"
  "distinct (fold (\<lambda>t. addToRemoveQueue (to_id t)) ts q) = distinct q"
  by (induction ts arbitrary: q) auto

lemma dismiss_effect_set:
  "set (dismiss_effect toastId ts q) = set q \<union> (if str_truthy toastId then {the toastId} else to_id ` set ts)"
  "distinct (dismiss_effect toastId ts q) = distinct q"
  by (auto simp: dismiss_effect_def)

lemma dismiss_ok [keeps]: "toasts_ok st \<Longrightarrow> toasts_ok (toast_reducer (DISMISS_TOAST toastId) st)"
  by (cases toastId) (auto simp: toasts_ok_def dismiss_effect_set)

lemma show_toast_ok [keeps]: "toasts_ok st \<Longrightarrow> toasts_ok (snd (show_toast title description st))"
  by (simp add: toasts_ok_def show_toast_def genId_def TOAST_LIMIT_def Let_def)

lemma update_ok [keeps]: "toasts_ok st \<Longrightarrow> toasts_ok (toast_reducer (UPDATE_TOAST i title description) st)"
  by (auto simp: toasts_ok_def)

lemma change_ok [keeps]: "toasts_ok st \<Longrightarrow> toasts_ok (onOpenChange i is_open st)"
  by (simp add: onOpenChange_def dismiss_ok del: toast_reducer.simps)

lemma timeout_ok [keeps]: "toasts_ok st \<Longrightarrow> toasts_ok (toast_timeout i st)"
  by (auto simp: toasts_ok_def toast_timeout_def distinct_removeAll intro: le_trans [OF length_filter_le])

lemma toast_step_ok: "toast_step st st' \<Longrightarrow> toasts_ok st \<Longrightarrow> toasts_ok st'"
  by (induction rule: toast_step.induct) (simp_all add: keeps del: toast_reducer.simps)



lemma toast_lifecycle:
  \<comment> \<open>shown, closed, and removed by its timeout\<close>
  assumes "show_toast title description st = (i, st1)"
  shows "toasts st1 = [\<lparr>to_id = i, to_open = True, to_title = title, to_description = description\<rparr>]"
    and "i \<in> set (toastTimeouts (onOpenChange i False st1))"
    and "toasts (toast_timeout i (onOpenChange i False st1)) = []"
  using assms
  by (auto simp: show_toast_def genId_def onOpenChange_def toast_timeout_def TOAST_LIMIT_def Let_def
      dismiss_effect_set str_truthy_def)

lemma genId_fresh: "toast_count st + 1 < MAX_SAFE_INTEGER \<Longrightarrow> fst (genId st) = nat_str (toast_count st + 1)"
  by (simp add: genId_def)

subsection \<open>The components that show toasts: useToast, Toaster\<close>

text \<open>
  Each use of useToast holds a copy of the memory state, which dispatch refreshes through the list of
  listeners. A component reads the memory when it is first rendered and listens from its effect on.
\<close>

record toast_users =
  tu_memory :: toast_state
  tu_listeners :: "nat list"
  tu_copies :: "(nat \<times> toaster_toast list) list"

definition users_initial :: "toast_state \<Rightarrow> toast_users" where
  "users_initial st = \<lparr>tu_memory = st, tu_listeners = [], tu_copies = []\<rparr>"

datatype users_action =
    First_render nat
  | Listen_effect nat
  | Unmount nat
  | Dispatch toast_action

fun users_step :: "users_action \<Rightarrow> toast_users \<Rightarrow> toast_users" where
  \<comment> \<open>the effect runs again with every new state: its clean-up takes the listener out first\<close>
  "users_step (First_render c) u = u\<lparr>tu_copies := AList.update c (toasts (tu_memory u)) (tu_copies u)\<rparr>"
| "users_step (Listen_effect c) u = u\<lparr>tu_listeners := remove1 c (tu_listeners u) @ [c]\<rparr>"
| "users_step (Unmount c) u = u\<lparr>tu_listeners := remove1 c (tu_listeners u), tu_copies := AList.delete c (tu_copies u)\<rparr>"
| "users_step (Dispatch a) u =
     (let st = toast_reducer a (tu_memory u)
      in u\<lparr>tu_memory := st, tu_copies := fold (\<lambda>c. AList.update c (toasts st)) (tu_listeners u) (tu_copies u)\<rparr>)"

definition Toaster :: "toaster_toast list \<Rightarrow> (string \<times> bool \<times> string option \<times> string option) list" where
  \<comment> \<open>key, whether it is open, title and description, which are left out when empty\<close>
  "Toaster ts = map (\<lambda>t. (to_id t, to_open t, if str_truthy (to_title t) then to_title t else None,
     if str_truthy (to_description t) then to_description t else None)) ts"

definition users_ok :: "nat set \<Rightarrow> nat set \<Rightarrow> toast_users \<Rightarrow> bool" where
  \<comment> \<open>every listener, and every component of the first set, shows the memory; the second set listens\<close>
  "users_ok fresh listening u \<longleftrightarrow> distinct (tu_listeners u) \<and> listening \<subseteq> set (tu_listeners u)
     \<and> (\<forall>c \<in> set (tu_listeners u) \<union> fresh. map_of (tu_copies u) c = Some (toasts (tu_memory u)))"

lemma copies_after_dispatch:
  "map_of (fold (\<lambda>c. AList.update c x) cs m) d = (if d \<in> set cs then Some x else map_of m d)"
  by (induction cs arbitrary: m) (auto simp: update_conv')

fun mounts_whole :: "nat set \<Rightarrow> nat set \<Rightarrow> users_action list \<Rightarrow> bool" where
  \<comment> \<open>nothing is dispatched between a component's first rendering and its effect; the sets have those that
      were rendered since the last dispatch, and those that listen\<close>
  "mounts_whole fresh listening [] = True"
| "mounts_whole fresh listening (First_render c # as) = mounts_whole (insert c fresh) listening as"
| "mounts_whole fresh listening (Listen_effect c # as) = (c \<in> fresh \<union> listening \<and> mounts_whole fresh (insert c listening) as)"
| "mounts_whole fresh listening (Unmount c # as) = mounts_whole (fresh - {c}) (listening - {c}) as"
| "mounts_whole fresh listening (Dispatch a # as) = mounts_whole {} listening as"

text \<open>
  C32. Every listening component shows the toasts in memory, and none listens twice, provided nothing is
  dispatched between the first rendering of a component and its effect.
\<close>
theorem toasts_reach_every_user:
  assumes "mounts_whole {} {} as"
  shows "distinct (tu_listeners (fold users_step as (users_initial st)))
    \<and> list_all (\<lambda>c. map_of (tu_copies (fold users_step as (users_initial st))) c
        = Some (toasts (tu_memory (fold users_step as (users_initial st))))) (tu_listeners (fold users_step as (users_initial st)))"
proof -
  have "users_ok fresh listening u \<Longrightarrow> mounts_whole fresh listening as \<Longrightarrow> \<exists>l. users_ok {} l (fold users_step as u)" for fresh listening u
  proof (induction as arbitrary: fresh listening u)
    case Nil
    then show ?case by (auto simp: users_ok_def)
  next
    case (Cons a as)
    show ?case
    proof (cases a)
      case (First_render c)
      have "users_ok (insert c fresh) listening (users_step a u)" using Cons.prems(1) First_render
        by (auto simp: users_ok_def update_conv')
      then show ?thesis using Cons.IH [of "insert c fresh" listening] Cons.prems(2) First_render by simp
    next
      case (Listen_effect c)
      have "users_ok fresh (insert c listening) (users_step a u)" using Cons.prems Listen_effect
        by (auto simp: users_ok_def dest: notin_set_remove1)
      then show ?thesis using Cons.IH [of fresh "insert c listening"] Cons.prems(2) Listen_effect by simp
    next
      case (Unmount c)
      have "users_ok (fresh - {c}) (listening - {c}) (users_step a u)" using Cons.prems Unmount
        by (auto simp: users_ok_def delete_conv')
      then show ?thesis using Cons.IH [of "fresh - {c}" "listening - {c}"] Cons.prems(2) Unmount by simp
    next
      case (Dispatch b)
      have "users_ok {} listening (users_step a u)" using Cons.prems Dispatch
        by (auto simp: users_ok_def copies_after_dispatch Let_def)
      then show ?thesis using Cons.IH [of "{}" listening] Cons.prems(2) Dispatch by simp
    qed
  qed
  from this [of "{}" "{}" "users_initial st"] assms show ?thesis
    by (auto simp: users_ok_def users_initial_def list_all_iff)
qed

theorem toasts_reach_every_user_witness:
  "map_of (tu_copies (fold users_step [First_render 1, Listen_effect 1, Dispatch (DISMISS_TOAST None), Listen_effect 1, First_render 2, Listen_effect 2,
      Dispatch (ADD_TOAST \<lparr>to_id = ''1'', to_open = True, to_title = None, to_description = None\<rparr>)] (users_initial toast_initial))) 2
   = Some [\<lparr>to_id = ''1'', to_open = True, to_title = None, to_description = None\<rparr>]"
proof -
  let ?as = "[First_render 1, Listen_effect 1, Dispatch (DISMISS_TOAST None), Listen_effect 1, First_render 2, Listen_effect 2,
      Dispatch (ADD_TOAST \<lparr>to_id = ''1'', to_open = True, to_title = None, to_description = None\<rparr>)]"
  have "mounts_whole {} {} ?as" by simp
  from toasts_reach_every_user [OF this, of toast_initial] show ?thesis
    by (simp add: users_initial_def toast_initial_def TOAST_LIMIT_def)
qed

text \<open>The condition is needed: a toast dispatched in between is not shown until the next one.\<close>

lemma toast_missed_in_between:
  "let u = fold users_step [First_render 1, Dispatch (ADD_TOAST \<lparr>to_id = ''1'', to_open = True, to_title = None, to_description = None\<rparr>),
       Listen_effect 1] (users_initial toast_initial)
   in map_of (tu_copies u) 1 = Some [] \<and> toasts (tu_memory u) \<noteq> []"
  by (simp add: users_initial_def toast_initial_def TOAST_LIMIT_def)

end
