(* ===== verification/React_Hooks.thy ===== *)
theory React_Hooks
  imports Js_Prelude
begin

section \<open>React's useMemo\<close>

text \<open>
  What React documents of useMemo: a rendering keeps the value of the one before as long as the
  dependencies are equal, and makes it anew otherwise. The interface memo is a use whose dependencies
  decide the value; its lemma is that such a value is never stale. Without that, a value is the one
  made when the dependencies last changed.
\<close>

definition useMemo :: "'d \<Rightarrow> 'v \<Rightarrow> ('d \<times> 'v) option \<Rightarrow> ('d \<times> 'v) option" where
  "useMemo deps v memo = (case memo of Some (old, x) \<Rightarrow> if old = deps then memo else Some (deps, v) | None \<Rightarrow> Some (deps, v))"

definition memo_renders :: "('i \<Rightarrow> 'd) \<Rightarrow> ('i \<Rightarrow> 'v) \<Rightarrow> 'i list \<Rightarrow> ('d \<times> 'v) option" where
  \<comment> \<open>the memo after rendering with these inputs\<close>
  "memo_renders deps make is = fold (\<lambda>i. useMemo (deps i) (make i)) is None"

definition memo_value :: "('i \<Rightarrow> 'd) \<Rightarrow> ('i \<Rightarrow> 'v) \<Rightarrow> 'i list \<Rightarrow> 'v option" where
  "memo_value deps make is = map_option snd (memo_renders deps make is)"

lemma memo_renders_snoc: "memo_renders deps make (is @ [i]) = useMemo (deps i) (make i) (memo_renders deps make is)"
  by (simp add: memo_renders_def)

lemma memo_renders_deps: "is \<noteq> [] \<Longrightarrow> map_option fst (memo_renders deps make is) = Some (deps (last is))"
  by (induction "is" rule: rev_induct) (auto simp: memo_renders_snoc useMemo_def split: option.splits)

lemma memo_renders_run:
  assumes "is = [] \<or> deps (last is) \<noteq> deps i" and "list_all (\<lambda>j. deps j = deps i) run"
  shows "memo_renders deps make (is @ i # run) = Some (deps i, make i)"
  using assms(2)
proof (induction run rule: rev_induct)
  case Nil
  show ?case
  proof (cases "is = []")
    case True
    then show ?thesis by (simp add: memo_renders_def useMemo_def)
  next
    case False
    then show ?thesis using assms(1) memo_renders_deps [OF False, of deps make]
      by (auto simp: memo_renders_snoc useMemo_def split: option.splits)
  qed
next
  case (snoc j run)
  then show ?case using memo_renders_snoc [of deps make "is @ i # run" j] by (simp add: useMemo_def)
qed

lemma memo_value_run:
  "is = [] \<or> deps (last is) \<noteq> deps i \<Longrightarrow> list_all (\<lambda>j. deps j = deps i) run \<Longrightarrow> memo_value deps make (is @ i # run) = Some (make i)"
  by (simp add: memo_value_def memo_renders_run)

locale memo =
  fixes deps :: "'i \<Rightarrow> 'd"
    and make :: "'i \<Rightarrow> 'v"
  assumes decides: "deps i = deps j \<Longrightarrow> make i = make j"
begin

lemma renders: "is \<noteq> [] \<Longrightarrow> memo_renders deps make is = Some (deps (last is), make (last is))"
proof (induction "is" rule: rev_induct)
  case (snoc i "is")
  show ?case
  proof (cases "is = []")
    case True
    then show ?thesis by (simp add: memo_renders_def useMemo_def)
  next
    case False
    then have before: "memo_renders deps make is = Some (deps (last is), make (last is))" by (rule snoc.IH)
    show ?thesis using decides [of "last is" i] by (simp add: memo_renders_snoc useMemo_def before)
  qed
qed simp

lemma current: "is \<noteq> [] \<Longrightarrow> memo_value deps make is = Some (make (last is))"
  by (simp add: memo_value_def renders)

end

end
