(* ===== verification/Live_Metrics.thy ===== *)
theory Live_Metrics
  imports System_Data React_Hooks
begin

section \<open>Realtime subscriptions and chart data of a system page: routes/system/use-system-data.ts\<close>

text \<open>
  In the 1m period the page subscribes to realtime metrics of its system. A subscription is made
  asynchronously: only its answer brings the function that ends it, so a clean-up that comes before
  ends nothing. The state is the page's data (System_Data) with every subscription made so far. Also the
  memo of the chart data, which keeps a period and a time range together with the data they were made for.
  The lemmas show which subscriptions are alive at any time, that the messages of the others cannot
  change the page, and what a forgotten subscription does.
\<close>

subsection \<open>Subscriptions\<close>

record live_sub =
  lb_system :: string
  lb_isFirst :: bool
  lb_answered :: bool  \<comment> \<open>unsub is set\<close>
  lb_alive :: bool
  lb_forgotten :: bool  \<comment> \<open>cleaned up before the answer\<close>

record live_state =
  lv_page :: sd_state
  lv_subs :: "live_sub list"
  lv_run :: "nat option"  \<comment> \<open>the subscription of the effect that ran last, if it made one\<close>

definition live_initial :: live_state where
  "live_initial = \<lparr>lv_page = sd_initial, lv_subs = [], lv_run = None\<rparr>"

definition end_sub :: "live_sub \<Rightarrow> live_sub" where
  \<comment> \<open>unsub?.(), where unsub does nothing until the answer\<close>
  "end_sub b = (if lb_answered b then b\<lparr>lb_alive := False\<rparr> else b\<lparr>lb_forgotten := True\<rparr>)"

definition live_cleanup :: "live_state \<Rightarrow> live_state" where
  "live_cleanup s = (case lv_run s of
       None \<Rightarrow> s
     | Some k \<Rightarrow> s\<lparr>lv_subs := (lv_subs s)[k := end_sub (lv_subs s ! k)], lv_run := None\<rparr>)"

definition live_effect :: "system_record \<Rightarrow> chart_time \<Rightarrow> live_state \<Rightarrow> chart_time \<times> live_state" where
  \<comment> \<open>the effect on [chartTime, system.id], after the clean-up; the result is the period it leaves\<close>
  "live_effect system chartTime s =
     (if sys_id system = '''' \<or> chartTime \<noteq> T1m then (chartTime, s)
      else if \<not> realtime_allowed (sys_status system) (si_v (sys_info system)) then (T1h, s)
      else (chartTime, s\<lparr>lv_subs := lv_subs s @ [\<lparr>lb_system = sys_id system, lb_isFirst = True, lb_answered = False,
              lb_alive = True, lb_forgotten = False\<rparr>], lv_run := Some (length (lv_subs s))\<rparr>))"

definition live_select :: "int \<Rightarrow> system_record \<Rightarrow> chart_time \<Rightarrow> live_state \<Rightarrow> live_state" where
  \<comment> \<open>a rendering with this system and period: the realtime effect if its dependencies changed, then the
      effect that fetches; and both once more if the period was set back\<close>
  "live_select now system chartTime s =
     (let view = (sys_id system, chartTime);
          (period, s) = (if view = sd_view (lv_page s) then (chartTime, s) else live_effect system chartTime (live_cleanup s));
          page = stats_effect now (lv_page s\<lparr>sd_view := view\<rparr>)
      in if period = chartTime then s\<lparr>lv_page := page\<rparr>
         else s\<lparr>lv_page := stats_effect now (page\<lparr>sd_view := (sys_id system, period)\<rparr>)\<rparr>)"

definition live_message :: "nat \<Rightarrow> int \<Rightarrow> system_stats \<Rightarrow> container_stats list \<Rightarrow> live_state \<Rightarrow> live_state" where
  \<comment> \<open>the callback of the k-th subscription\<close>
  "live_message k now stats container s =
     (if k < length (lv_subs s) \<and> lb_alive (lv_subs s ! k)
      then s\<lparr>lv_subs := (lv_subs s)[k := (lv_subs s ! k)\<lparr>lb_isFirst := False\<rparr>],
             lv_page := rt_message now stats container (lv_page s\<lparr>sd_isFirst := lb_isFirst (lv_subs s ! k)\<rparr>)\<rparr>
      else s)"

definition live_answer :: "nat \<Rightarrow> live_state \<Rightarrow> live_state" where
  \<comment> \<open>.then((us) => unsub = us)\<close>
  "live_answer k s = s\<lparr>lv_subs := (lv_subs s)[k := (lv_subs s ! k)\<lparr>lb_answered := True\<rparr>]\<rparr>"

datatype live_action =
    Select_system int system_record chart_time
  | Change_id
  | Subscribed nat
  | Metrics nat int system_stats "container_stats list"
  | Stats_answer "nat \<times> string \<times> chart_time" "stats_record list option" "container_stats_record list option"

fun live_step :: "(string \<Rightarrow> int option) \<Rightarrow> live_action \<Rightarrow> live_state \<Rightarrow> live_state" where
  "live_step parse_date (Select_system now system chartTime) s = live_select now system chartTime s"
| "live_step parse_date Change_id s = s\<lparr>lv_page := id_cleanup (lv_page s)\<rparr>"
| "live_step parse_date (Subscribed k) s = live_answer k s"
| "live_step parse_date (Metrics k now stats container) s = live_message k now stats container s"
| "live_step parse_date (Stats_answer r ss cs) s = s\<lparr>lv_page := stats_response parse_date r ss cs (lv_page s)\<rparr>"

subsection \<open>Which subscriptions are alive\<close>

definition live_ok :: "live_state \<Rightarrow> bool" where
  "live_ok s \<longleftrightarrow> (\<forall>k < length (lv_subs s). lb_alive (lv_subs s ! k) \<longleftrightarrow> lv_run s = Some k \<or> lb_forgotten (lv_subs s ! k))
     \<and> (\<forall>k. lv_run s = Some k \<longrightarrow> k < length (lv_subs s) \<and> \<not> lb_forgotten (lv_subs s ! k)
         \<and> sd_view (lv_page s) = (lb_system (lv_subs s ! k), T1m))"

lemma sd_view_effect [simp]: "sd_view (stats_effect now st) = sd_view st"
  by (auto simp: stats_effect_def Let_def split: prod.splits)

lemma sd_view_message [simp]: "sd_view (rt_message now x cs st) = sd_view st"
  by (simp add: rt_message_def Let_def split: option.splits)

lemma sd_view_response [simp]: "sd_view (stats_response pd r ss cs st) = sd_view st"
  by (auto simp: stats_response_def Let_def split: prod.splits)

lemma sd_view_cleanup [simp]: "sd_view (id_cleanup st) = sd_view st"
  by (simp add: id_cleanup_def)

lemma live_ok_page: "live_ok s \<Longrightarrow> sd_view p = sd_view (lv_page s) \<Longrightarrow> live_ok (s\<lparr>lv_page := p\<rparr>)"
  by (simp add: live_ok_def)

lemma live_ok_cleanup [keeps]: "live_ok s \<Longrightarrow> live_ok (live_cleanup s) \<and> lv_run (live_cleanup s) = None"
  by (cases "lv_run s") (auto simp: live_ok_def live_cleanup_def end_sub_def nth_list_update)

lemma live_ok_sub: "live_ok s \<Longrightarrow> k < length (lv_subs s) \<Longrightarrow> lb_alive b = lb_alive (lv_subs s ! k) \<Longrightarrow>
   lb_forgotten b = lb_forgotten (lv_subs s ! k) \<Longrightarrow> lb_system b = lb_system (lv_subs s ! k) \<Longrightarrow>
   live_ok (s\<lparr>lv_subs := (lv_subs s)[k := b]\<rparr>)"
  by (auto simp: live_ok_def nth_list_update)

lemma live_ok_idle: "live_ok s \<Longrightarrow> lv_run s = None \<Longrightarrow> live_ok (s\<lparr>lv_page := p\<rparr>)"
  by (simp add: live_ok_def)

lemma live_ok_select [keeps]:
  assumes "live_ok s"
  shows "live_ok (live_select now system ct s)"
proof (cases "(sys_id system, ct) = sd_view (lv_page s)")
  case True
  then show ?thesis using assms by (simp add: live_select_def Let_def live_ok_page)
next
  case False
  let ?c = "live_cleanup s"
  have c: "live_ok ?c" "lv_run ?c = None" using live_ok_cleanup [OF assms] by simp_all
  show ?thesis
  proof (cases "sys_id system = '''' \<or> ct \<noteq> T1m \<or> \<not> realtime_allowed (sys_status system) (si_v (sys_info system))")
    case True
    then show ?thesis using False c by (auto simp: live_select_def live_effect_def Let_def intro!: live_ok_idle)
  next
    case starts: False
    then show ?thesis using False c
      by (auto simp: live_select_def live_effect_def Let_def live_ok_def nth_append)
  qed
qed

lemma live_ok_step [keeps]:
  assumes "live_ok s"
  shows "live_ok (live_step pd a s)"
proof (cases a)
  case (Subscribed k)
  show ?thesis
  proof (cases "k < length (lv_subs s)")
    case True
    then show ?thesis using Subscribed live_ok_sub [OF assms True] by (simp add: live_answer_def)
  next
    case False
    then show ?thesis using Subscribed assms by (simp add: live_answer_def list_update_beyond live_ok_def)
  qed
next
  case (Metrics k now x cs)
  have "live_ok (s\<lparr>lv_subs := (lv_subs s)[k := (lv_subs s ! k)\<lparr>lb_isFirst := False\<rparr>]\<rparr>)" if "k < length (lv_subs s)"
    using live_ok_sub [OF assms that] by simp
  then show ?thesis using assms Metrics
    live_ok_page [of "s\<lparr>lv_subs := (lv_subs s)[k := (lv_subs s ! k)\<lparr>lb_isFirst := False\<rparr>]\<rparr>"
      "rt_message now x cs (lv_page s\<lparr>sd_isFirst := lb_isFirst (lv_subs s ! k)\<rparr>)"]
    by (auto simp: live_message_def)
qed (use assms live_ok_select live_ok_page in simp_all)

lemma live_ok_run: "live_ok s \<Longrightarrow> live_ok (fold (live_step pd) as s)"
  by (induction as arbitrary: s) (simp_all add: live_ok_step)

text \<open>
  C17. The subscriptions that are alive are the one of the current effect, which is for the system and
  period on the page, and those whose effect was cleaned up before they were answered. So as long as none
  is forgotten, every message that changes the page is for its system in the 1m period.
\<close>
theorem live_subscriptions_exact:
  fixes parse_date :: "string \<Rightarrow> int option" and as :: "live_action list"
  defines "s \<equiv> fold (live_step parse_date) as live_initial"
  assumes "k < length (lv_subs s)"
  shows "(lb_alive (lv_subs s ! k) \<longleftrightarrow> lv_run s = Some k \<or> lb_forgotten (lv_subs s ! k))
    \<and> (\<not> lb_forgotten (lv_subs s ! k) \<and> live_message k now x cs s \<noteq> s \<longrightarrow> sd_view (lv_page s) = (lb_system (lv_subs s ! k), T1m))"
proof -
  have "live_ok s" unfolding s_def
    by (rule live_ok_run) (simp add: live_ok_def live_initial_def)
  then show ?thesis using assms(2) by (auto simp: live_ok_def live_message_def)
qed

definition live_system :: "string \<Rightarrow> system_record" where
  \<comment> \<open>a system that is up and whose agent is new enough\<close>
  "live_system i = sample_system i i Up\<lparr>sys_info := sample_info\<lparr>si_v := Some ''0.13.0''\<rparr>\<rparr>"

lemma live_system_allowed: "realtime_allowed (sys_status (live_system i)) (si_v (sys_info (live_system i)))"
proof -
  have "realtime_allowed Up (Some ''0.13.0'')" by code_simp
  then show ?thesis by (simp add: live_system_def sample_system_def)
qed

theorem live_subscriptions_exact_witness:
  "lb_alive (lv_subs (fold (live_step (\<lambda>x. None)) [Select_system 0 (live_system ''a'') T1m, Subscribed 0, Select_system 1 (live_system ''b'') T1h]
      live_initial) ! 0) = False"
proof -
  let ?as = "[Select_system 0 (live_system ''a'') T1m, Subscribed 0, Select_system 1 (live_system ''b'') T1h]"
  have s: "lv_run (fold (live_step (\<lambda>x. None)) ?as live_initial) = None"
    "map lb_forgotten (lv_subs (fold (live_step (\<lambda>x. None)) ?as live_initial)) = [False]"
    by code_simp+
  then have n: "0 < length (lv_subs (fold (live_step (\<lambda>x. None)) ?as live_initial))" by (metis length_map length_greater_0_conv list.distinct(1))
  then have "lb_forgotten (lv_subs (fold (live_step (\<lambda>x. None)) ?as live_initial) ! 0) = False" using s(2) by (metis nth_Cons_0 nth_map)
  with live_subscriptions_exact [OF n, THEN conjunct1] s(1) show ?thesis by (metis option.distinct(1))
qed

text \<open>
  A subscription whose page goes on before the answer is never ended: its messages go into the page of
  the next system, whatever its period, and the first of them replaces what is shown there.
\<close>
lemma forgotten_subscription_intrudes:
  assumes "sys_id a \<noteq> ''''" and "realtime_allowed (sys_status a) (si_v (sys_info a))" and "ct \<noteq> T1m"
  shows "let s = fold (live_step pd) [Select_system t1 a T1m, Select_system t2 b ct, Subscribed 0, Metrics 0 now x cs] live_initial
    in sd_view (lv_page s) = (sys_id b, ct) \<and> sd_stats (lv_page s) = [\<lparr>sr_created = Created_ms now, sr_stats = Some x\<rparr>]"
proof -
  have first: "fold (live_step pd) [Select_system t1 a T1m] live_initial
      = \<lparr>lv_page = sd_initial\<lparr>sd_view := (sys_id a, T1m)\<rparr>,
         lv_subs = [\<lparr>lb_system = sys_id a, lb_isFirst = True, lb_answered = False, lb_alive = True, lb_forgotten = False\<rparr>], lv_run = Some 0\<rparr>"
    using assms(1,2) by (simp add: live_select_def live_effect_def live_cleanup_def live_initial_def sd_initial_def stats_effect_def)
  show ?thesis using first assms(3)
    by (simp add: live_select_def live_effect_def live_cleanup_def end_sub_def live_answer_def live_message_def rt_message_def Let_def
      split: option.splits)
qed

subsection \<open>The version and the chart data\<close>

interpretation agentVersion: memo "\<lambda>v. v" "\<lambda>v. parseSemVer (orelse v '''')"
  by unfold_locales simp

text \<open>The inputs of the chart data: the two lists with their identities, the direction, period and time.\<close>

record data_inputs =
  di_stats :: "nat \<times> stats_record list"
  di_containers :: "nat \<times> container_point list"
  di_rtl :: bool
  di_chartTime :: chart_time
  di_version :: "string option"
  di_now :: int

definition created_number :: "created option \<Rightarrow> int option" where
  \<comment> \<open>(at(-1)?.created as number) ?? 0, None for NaN\<close>
  "created_number c = (case c of Some (Created_ms n) \<Rightarrow> Some n | Some Created_null \<Rightarrow> Some 0 | None \<Rightarrow> Some 0 | _ \<Rightarrow> None)"

definition last_created :: "data_inputs \<Rightarrow> int option" where
  "last_created i =
     (case (created_number (map_option sr_created (at_last (snd (di_stats i)))),
            created_number (map_option cp_created (at_last (snd (di_containers i))))) of
        (Some a, Some b) \<Rightarrow> Some (max a b) | _ \<Rightarrow> None)"

definition make_chartData ::
  "d3_offset \<Rightarrow> (int \<Rightarrow> int \<Rightarrow> nat \<Rightarrow> int list) \<Rightarrow> data_inputs \<Rightarrow> chart_time_data option \<Rightarrow> chart_data \<times> chart_time_data option" where
  "make_chartData d3 timeTicks i td =
     (let (data, td') = getTimeData d3 timeTicks (di_now i) (di_chartTime i) (last_created i) td
      in (\<lparr>cd_systemStats = snd (di_stats i), cd_containerData = snd (di_containers i), cd_chartTime = di_chartTime i,
           cd_orientation = (if di_rtl i then Right_side else Left_side), cd_ticks = td_ticks data, cd_domain = td_domain data,
           cd_agentVersion = parseSemVer (orelse (di_version i) '''')\<rparr>, td'))"

type_synonym data_deps = "nat \<times> nat \<times> bool"

definition render_chartData ::
  "d3_offset \<Rightarrow> (int \<Rightarrow> int \<Rightarrow> nat \<Rightarrow> int list) \<Rightarrow> data_inputs \<Rightarrow> (data_deps \<times> chart_data) option \<times> chart_time_data option \<Rightarrow>
   (data_deps \<times> chart_data) option \<times> chart_time_data option" where
  \<comment> \<open>the useMemo on the data and the direction; the period is not among its dependencies\<close>
  "render_chartData d3 timeTicks i s =
     (let deps = (fst (di_stats i), fst (di_containers i), di_rtl i);
          (c, td) = make_chartData d3 timeTicks i (snd s)
      in if map_option fst (fst s) = Some deps then s else (Some (deps, c), td))"

lemma render_chartData_same:
  "map_option fst (fst s) = Some (fst (di_stats i), fst (di_containers i), di_rtl i) \<Longrightarrow> render_chartData d3 tt i s = s"
  by (simp add: render_chartData_def Let_def split: prod.splits)

lemma render_chartData_new:
  "map_option fst (fst s) \<noteq> Some (fst (di_stats i), fst (di_containers i), di_rtl i) \<Longrightarrow>
     map_option snd (fst (render_chartData d3 tt i s)) = Some (fst (make_chartData d3 tt i (snd s)))
     \<and> map_option fst (fst (render_chartData d3 tt i s)) = Some (fst (di_stats i), fst (di_containers i), di_rtl i)"
  by (simp add: render_chartData_def Let_def split: prod.splits)

text \<open>
  The chart data keep the period of their data: when another period is chosen, the charts go on with
  the period, ticks and domain their data were shown with, until data of the new period are set.
\<close>
lemma chartData_keeps_period:
  assumes "map_option fst (fst s) \<noteq> Some (fst (di_stats i), fst (di_containers i), di_rtl i)"
    and "list_all (\<lambda>j. fst (di_stats j) = fst (di_stats i) \<and> fst (di_containers j) = fst (di_containers i) \<and> di_rtl j = di_rtl i) js"
  shows "map_option snd (fst (fold (render_chartData d3 tt) (i # js) s)) = Some (fst (make_chartData d3 tt i (snd s)))"
proof -
  let ?t = "render_chartData d3 tt i s"
  have "fold (render_chartData d3 tt) js ?t = ?t" using assms(2)
  proof (induction js)
    case (Cons j js)
    then have "render_chartData d3 tt j ?t = ?t"
      using render_chartData_new [OF assms(1), of d3 tt] by (intro render_chartData_same) simp
    then show ?case using Cons by simp
  qed simp
  then show ?thesis using render_chartData_new [OF assms(1), of d3 tt] by simp
qed

end
