(* ===== verification/Table_Pages.thy ===== *)
theory Table_Pages
  imports App Systems_View React_Hooks "HOL-Library.Countable"
begin

section \<open>The systems table as a page: SystemsTable of systems-table.tsx\<close>

text \<open>
  The state of the systems table's page with the browser storages behind sorting, columns and view, and
  the rows it shows: the stores' systems by status, filtered by the text and sorted. The lemmas show
  that the page comes back from a reload as it was, save filter and status, and which systems its rows are.
\<close>

subsection \<open>State, storages and actions\<close>

record 'a codec =
  co_parse :: "string \<Rightarrow> 'a option"  \<comment> \<open>JSON.parse, None when it throws\<close>
  co_print :: "'a \<Rightarrow> string"  \<comment> \<open>JSON.stringify\<close>

definition codec_documented :: "'a codec \<Rightarrow> bool" where
  \<comment> \<open>what JSON says of the plain values stored here\<close>
  "codec_documented c \<longleftrightarrow> (\<forall>v. co_parse c (co_print c v) = Some v \<and> co_print c v \<noteq> '''')"

record page_codecs =
  pc_sorting :: "sorting codec"
  pc_columns :: "(string \<times> bool) list codec"
  pc_view :: "view_mode codec"

definition codecs_documented :: "page_codecs \<Rightarrow> bool" where
  "codecs_documented j \<longleftrightarrow> codec_documented (pc_sorting j) \<and> codec_documented (pc_columns j) \<and> codec_documented (pc_view j)"

record systems_ui =
  su_filter :: string
  su_status :: status_filter
  su_sorting :: sorting
  su_columns :: "(string \<times> bool) list"
  su_view :: view_mode

record browser_storage =
  bs_session :: "(string \<times> string) list"
  bs_local :: "(string \<times> string) list"

definition systems_mount :: "page_codecs \<Rightarrow> nat \<Rightarrow> nat \<Rightarrow> browser_storage \<Rightarrow> systems_ui option" where
  \<comment> \<open>the initial states, with the window's width and the number of systems; None when a stored text is no JSON\<close>
  "systems_mount j innerWidth n b =
     (case (useBrowserStorage_init (co_parse (pc_sorting j)) ''sortMode'' [(''system'', False)] (bs_session b),
            useBrowserStorage_init (co_parse (pc_columns j)) ''cols'' [] (bs_local b),
            useBrowserStorage_init (co_parse (pc_view j)) ''viewMode'' (if default_view_grid innerWidth n then Grid_view else Table_view)
              (bs_local b)) of
        (Some sorting, Some columns, Some view) \<Rightarrow>
          Some \<lparr>su_filter = '''', su_status = All_systems, su_sorting = sorting, su_columns = columns, su_view = view\<rparr>
      | _ \<Rightarrow> None)"

definition systems_stored :: "page_codecs \<Rightarrow> systems_ui \<Rightarrow> browser_storage \<Rightarrow> browser_storage" where
  \<comment> \<open>the effects of the three storage hooks after a rendering\<close>
  "systems_stored j u b =
     \<lparr>bs_session = useBrowserStorage_effect (co_print (pc_sorting j)) ''sortMode'' (su_sorting u) (bs_session b),
      bs_local = useBrowserStorage_effect (co_print (pc_view j)) ''viewMode'' (su_view u)
        (useBrowserStorage_effect (co_print (pc_columns j)) ''cols'' (su_columns u) (bs_local b))\<rparr>"

datatype systems_action =
    Type_filter string
  | Clear_filter
  | Choose_status status_filter
  | Header_click column_def
  | Menu_click column_def
  | Toggle_column column_def bool
  | Choose_view view_mode
  | Other_storage string string string  \<comment> \<open>another hook writes its key to both storages\<close>

fun systems_act :: "systems_action \<Rightarrow> systems_ui \<Rightarrow> systems_ui" where
  "systems_act (Type_filter x) u = u\<lparr>su_filter := x\<rparr>"
| "systems_act Clear_filter u = u\<lparr>su_filter := ''''\<rparr>"
| "systems_act (Choose_status f) u = u\<lparr>su_status := f\<rparr>"
| "systems_act (Header_click c) u = (if cd_sortableHeader c then u\<lparr>su_sorting := click_header c (su_sorting u)\<rparr> else u)"
| "systems_act (Menu_click c) u =
     (if cd_accessor c \<noteq> None then u\<lparr>su_sorting := sort_menu_select (cd_id c) (su_sorting u)\<rparr> else u)"
| "systems_act (Toggle_column c b) u =
     (if orelse (cd_enableHiding c) True then u\<lparr>su_columns := AList.update (cd_id c) b (su_columns u)\<rparr> else u)"
| "systems_act (Choose_view v) u = u\<lparr>su_view := v\<rparr>"
| "systems_act (Other_storage k x y) u = u"

definition page_keys :: "string list" where
  "page_keys = map storage_key [''sortMode'', ''cols'', ''viewMode'']"

definition systems_step :: "page_codecs \<Rightarrow> systems_action \<Rightarrow> systems_ui \<times> browser_storage \<Rightarrow> systems_ui \<times> browser_storage" where
  \<comment> \<open>an action, its rendering and the effects of the storage hooks\<close>
  "systems_step j a s =
     (let u = systems_act a (fst s);
          b = (case a of Other_storage k x y \<Rightarrow>
                 if k \<in> set page_keys then snd s
                 else \<lparr>bs_session = AList.update k x (bs_session (snd s)), bs_local = AList.update k y (bs_local (snd s))\<rparr>
               | _ \<Rightarrow> snd s)
      in (u, systems_stored j u b))"

definition systems_ui_run :: "page_codecs \<Rightarrow> systems_action list \<Rightarrow> systems_ui \<Rightarrow> browser_storage \<Rightarrow> systems_ui \<times> browser_storage" where
  \<comment> \<open>the first rendering stores, then the actions\<close>
  "systems_ui_run j as u b = fold (systems_step j) as (u, systems_stored j u b)"

definition page_saved :: "page_codecs \<Rightarrow> systems_ui \<times> browser_storage \<Rightarrow> bool" where
  "page_saved j s \<longleftrightarrow>
     map_of (bs_session (snd s)) (storage_key ''sortMode'') = Some (co_print (pc_sorting j) (su_sorting (fst s)))
     \<and> map_of (bs_local (snd s)) (storage_key ''cols'') = Some (co_print (pc_columns j) (su_columns (fst s)))
     \<and> map_of (bs_local (snd s)) (storage_key ''viewMode'') = Some (co_print (pc_view j) (su_view (fst s)))"

lemma page_saved_stored: "page_saved j (u, systems_stored j u b)"
  by (simp add: page_saved_def systems_stored_def useBrowserStorage_effect_def storage_key_def)

lemma page_saved_page: "page_saved j (systems_ui_run j as u b)"
proof -
  have "page_saved j s \<Longrightarrow> page_saved j (fold (systems_step j) as s)" for s
  proof (induction as arbitrary: s)
    case (Cons a as)
    then show ?case by (simp add: systems_step_def Let_def page_saved_stored)
  qed simp
  then show ?thesis by (simp add: systems_ui_run_def page_saved_stored)
qed

lemma storage_init_saved:
  "codec_documented c \<Longrightarrow> map_of m (storage_key k) = Some (co_print c v) \<Longrightarrow> useBrowserStorage_init (co_parse c) k d m = Some v"
  by (simp add: useBrowserStorage_init_def getStorageValue_def codec_documented_def)

text \<open>
  C34. The systems table comes back from a reload as it was left: whatever was typed, chosen, sorted and
  toggled, and whatever other hooks stored, mounting it on the storages afterwards gives the
  same sorting, columns and view; only the text filter and the status filter start anew.
\<close>
theorem systems_table_survives_reload:
  assumes "codecs_documented j"
  shows "systems_mount j innerWidth n (snd (systems_ui_run j as u b))
     = Some ((fst (systems_ui_run j as u b))\<lparr>su_filter := '''', su_status := All_systems\<rparr>)"
  using assms page_saved_page [of j as u b]
  by (cases "fst (systems_ui_run j as u b)")
    (auto simp: systems_mount_def page_saved_def codecs_documented_def storage_init_saved)

lemma some_codec: "\<exists>c :: 'a :: countable codec. codec_documented c"
proof (intro exI)
  show "codec_documented \<lparr>co_parse = (\<lambda>x. Some (from_nat (length x - 1))), co_print = (\<lambda>v :: 'a. replicate (Suc (to_nat v)) CHR ''x'')\<rparr>"
    by (simp add: codec_documented_def)
qed

theorem systems_table_survives_reload_witness:
  "\<exists>j. codecs_documented j \<and> systems_mount j 1920 3 (snd (systems_ui_run j [Type_filter ''db'', Choose_view Grid_view]
     \<lparr>su_filter = '''', su_status = All_systems, su_sorting = [], su_columns = [], su_view = Table_view\<rparr> \<lparr>bs_session = [], bs_local = []\<rparr>))
     = Some \<lparr>su_filter = '''', su_status = All_systems, su_sorting = [], su_columns = [], su_view = Grid_view\<rparr>"
proof -
  obtain a :: "sorting codec" where a: "codec_documented a" using some_codec by blast
  obtain b :: "(string \<times> bool) list codec" where b: "codec_documented b" using some_codec by blast
  obtain c :: "bool codec" where c: "codec_documented c" using some_codec by blast
  define v where "v = \<lparr>co_parse = map_option (\<lambda>x. if x then Grid_view else Table_view) \<circ> co_parse c, co_print = (\<lambda>m. co_print c (m = Grid_view))\<rparr>"
  have "codec_documented v" using c unfolding codec_documented_def v_def
    by simp (metis view_mode.exhaust)
  then have j: "codecs_documented \<lparr>pc_sorting = a, pc_columns = b, pc_view = v\<rparr>" using a b by (simp add: codecs_documented_def)
  from systems_table_survives_reload [OF j, of 1920 3 "[Type_filter ''db'', Choose_view Grid_view]"
    "\<lparr>su_filter = '''', su_status = All_systems, su_sorting = [], su_columns = [], su_view = Table_view\<rparr>" "\<lparr>bs_session = [], bs_local = []\<rparr>"]
  show ?thesis using j by (intro exI [of _ "\<lparr>pc_sorting = a, pc_columns = b, pc_view = v\<rparr>"]) (simp add: systems_ui_run_def systems_step_def Let_def)
qed

subsection \<open>The rows\<close>

definition filter_rows :: "string \<Rightarrow> filter_cache \<Rightarrow> system_record list \<Rightarrow> js_error + system_record list" where
  \<comment> \<open>an empty text is no filter (documented of the table); a call that throws ends the rendering\<close>
  "filter_rows f st data =
     (if f = '''' then Inr data
      else (let results = system_filters (map (\<lambda>r. (r, f)) data) st
            in if Inl TypeError \<in> set results then Inl TypeError
               else Inr (map fst (filter (\<lambda>(r, x). x = Inr True) (zip data results)))))"

definition systems_rows ::
  "(sorting \<Rightarrow> system_record list \<Rightarrow> system_record list) \<Rightarrow> filter_cache \<Rightarrow> systems_ui \<Rightarrow> sm_state \<Rightarrow> js_error + system_record list" where
  \<comment> \<open>the rows of the table's model\<close>
  "systems_rows srt st u s = map_sum id (srt (su_sorting u)) (filter_rows (su_filter u) st (table_data s (su_status u)))"

lemma system_filters_any: "filter_cache_ok st \<Longrightarrow> system_filters calls st = map (\<lambda>(sys, f). filter_match sys f) calls"
proof (induction calls arbitrary: st)
  case (Cons c calls)
  then show ?case using system_filter_step [OF Cons.prems, of "fst c" "snd c"]
    by (cases c; cases "system_filter (fst c) (snd c) st") auto
qed simp

lemma filter_rows_exact:
  assumes "filter_cache_ok st"
  shows "filter_rows f st data =
     (if f \<noteq> '''' \<and> list_ex (\<lambda>r. sys_host r = None) data then Inl TypeError
      else Inr (filter (\<lambda>r. f = '''' \<or> filter_match r f = Inr True) data))"
proof -
  have rs: "system_filters (map (\<lambda>r. (r, f)) data) st = map (\<lambda>r. filter_match r f) data"
    using system_filters_any [OF assms] by simp
  have thrown: "filter_match r f = Inl TypeError \<longleftrightarrow> sys_host r = None" for r
    by (simp add: filter_match_def split: option.splits)
  have "map fst (filter (\<lambda>(r, x). x = Inr True) (zip xs (map g xs))) = filter (\<lambda>r. g r = Inr True) xs" for g :: "system_record \<Rightarrow> js_error + bool" and xs
    by (induction xs) auto
  moreover have "Inl TypeError \<in> set (map (\<lambda>r. filter_match r f) data) \<longleftrightarrow> list_ex (\<lambda>r. sys_host r = None) data"
    by (auto simp: list_ex_iff thrown [symmetric] image_iff intro: sym)
  ultimately show ?thesis by (simp add: filter_rows_def rs Let_def)
qed



subsection \<open>The numbers at the status filter, and the head of the table\<close>

definition status_counts :: "sm_state \<Rightarrow> nat \<times> nat \<times> nat" where
  "status_counts s = (length (obj_values (upSystems s)), length (obj_values (downSystems s)), length (obj_values (pausedSystems s)))"

interpretation counts: memo "\<lambda>s. (upSystems s, downSystems s, pausedSystems s)" status_counts
  by unfold_locales (simp add: status_counts_def)

definition counted :: "system_status \<Rightarrow> system_record list \<Rightarrow> nat" where
  "counted st rs = length (filter (\<lambda>r. sys_status r = st) rs)"

lemma length_filter_values: "length (filter P (obj_values m)) = length (filter (\<lambda>x. P (snd x)) m)"
proof -
  have "length (filter P (obj_values m)) = length (filter (P \<circ> snd) (obj_entries m))" by (simp add: obj_values_def filter_map)
  also have "\<dots> = size (filter_mset (P \<circ> snd) (mset m))" by (metis mset_filter mset_obj_entries size_mset)
  also have "\<dots> = length (filter (P \<circ> snd) m)" by (metis mset_filter size_mset)
  finally show ?thesis by (simp add: comp_def)
qed

lemma length_keys:
  assumes "distinct (map fst m)" shows "length m = card (dom (map_of m))"
  using assms by (metis distinct_card dom_map_of_conv_image_fst length_map set_map)

lemma counted_store:
  assumes "distinct (map fst m)" and "distinct (map fst (allSystemsById s))" and "map_of m = with_status st s"
  shows "length m = counted st (obj_values (allSystemsById s))"
proof -
  let ?f = "filter (\<lambda>x. sys_status (snd x) = st) (allSystemsById s)"
  have d: "distinct (map fst ?f)" using assms(2) by (rule distinct_map_filter)
  have "dom (map_of m) = dom (map_of ?f)"
  proof (rule set_eqI)
    fix k
    have "k \<in> dom (map_of ?f) \<longleftrightarrow> (\<exists>r. (k, r) \<in> set (allSystemsById s) \<and> sys_status r = st)"
      by (auto simp: dom_map_of_conv_image_fst image_iff)
    also have "\<dots> \<longleftrightarrow> (\<exists>r. with_status st s k = Some r)"
      by (simp add: with_status_Some assms(2))
    finally show "k \<in> dom (map_of m) \<longleftrightarrow> k \<in> dom (map_of ?f)" by (simp add: assms(3) dom_def)
  qed
  then show ?thesis using length_keys [OF assms(1)] length_keys [OF d] by (simp add: counted_def length_filter_values)
qed

text \<open>
  The numbers at the status filter, which are kept from rendering to rendering, are never stale:
  after any events they are the numbers of the known systems that are up, down and paused, and what
  is missing from the number of all systems are those that are pending.
\<close>
theorem status_counts_are_current:
  assumes "set_key_documented sk" and "ids_present acts"
  shows "case table_data (sm_run sk acts) All_systems of rs \<Rightarrow>
     memo_value (\<lambda>s. (upSystems s, downSystems s, pausedSystems s)) status_counts (earlier @ [sm_run sk acts])
       = Some (counted Up rs, counted Down rs, counted Paused rs)
     \<and> length rs = counted Up rs + counted Down rs + counted Paused rs + counted Pending rs"
proof -
  let ?s = "sm_run sk acts"
  have inv: "stores_ok ?s" "distinct (map fst (allSystemsById ?s))"
    using sm_run_inv [OF assms] by (simp_all add: sm_inv_def keys_ok_def)
  have k: "distinct (map fst (upSystems ?s))" "distinct (map fst (downSystems ?s))" "distinct (map fst (pausedSystems ?s))"
    using sm_run_keys [OF assms(1)] by (simp_all add: status_keys_distinct_def)
  have m: "map_of (upSystems ?s) = with_status Up ?s" "map_of (downSystems ?s) = with_status Down ?s"
    "map_of (pausedSystems ?s) = with_status Paused ?s"
    using inv(1) by (simp_all add: stores_ok_def)
  have "status_counts ?s = (let rs = obj_values (allSystemsById ?s) in (counted Up rs, counted Down rs, counted Paused rs))"
    using counted_store [OF k(1) inv(2) m(1)] counted_store [OF k(2) inv(2) m(2)] counted_store [OF k(3) inv(2) m(3)]
    by (simp add: status_counts_def Let_def)
  moreover have "length rs = counted Up rs + counted Down rs + counted Paused rs + counted Pending rs" for rs
  proof (induction rs)
    case (Cons r rs)
    then show ?case by (cases "sys_status r") (simp_all add: counted_def)
  qed (simp add: counted_def)
  ultimately show ?thesis by (simp add: counts.current table_data_def filteredData_def Let_def)
qed

theorem status_counts_are_current_witness:
  "memo_value (\<lambda>s. (upSystems s, downSystems s, pausedSystems s)) status_counts [sm_initial, sm_run js_set_key sample_acts]
   = Some (let rs = table_data (sm_run js_set_key sample_acts) All_systems in (counted Up rs, counted Down rs, counted Paused rs))"
  using status_counts_are_current [OF js_set_key_documented sample_acts_ids, of "[sm_initial]"] by (simp add: Let_def)

definition SystemsTableHead :: "column_def list \<Rightarrow> sorting \<Rightarrow> sortable_header option list" where
  \<comment> \<open>the header of each visible column; the actions have none\<close>
  "SystemsTableHead columns s = map (\<lambda>c. if cd_sortableHeader c then Some (sortableHeader c s) else None) columns"

lemma head_highlights_sorting:
  \<comment> \<open>at most one header is highlighted after a click: the one clicked\<close>
  "Some h \<in> set (SystemsTableHead columns (click_header c s)) \<Longrightarrow> sh_highlight h \<Longrightarrow>
     \<exists>d \<in> set columns. cd_id d = cd_id c \<and> h = sortableHeader d (click_header c s)"
  by (auto simp: SystemsTableHead_def sortableHeader_def click_header_def getIsSorted_def Let_def split: if_splits)

end
