(* ===== verification/Info_Bar.thy ===== *)
theory Info_Bar
  imports Agent_Dialogs "HOL-Library.Multiset"
begin

section \<open>The info bar at work: InfoBar of system/info-bar.tsx\<close>

text \<open>
  The whole component: its menus, its four dialogs and the requests under way, which are answered in any
  order while other things are done and while the page goes on to other systems. The lemmas show that
  neither two deletions nor two requests for access are under way at once, that only
  confirmed deletions are sent, and what a second click on closing access does.
\<close>

subsection \<open>State and actions\<close>

text \<open>A request with the system of the rendering it was made in.\<close>

datatype info_request =
    Rq_ssh system_record
  | Rq_revoke
  | Rq_install system_record
  | Rq_uninstall system_record
  | Rq_delete system_record

datatype info_answer = Failed | Done | Install_text string | Launch_answer string string

record info_bar =
  ib_system :: system_record
  ib_editOpen :: bool
  ib_install :: install_state
  ib_delete :: delete_state
  ib_sshOpen :: bool
  ib_ssh :: ssh_state
  ib_tabs :: bool  \<comment> \<open>displayMode\<close>
  ib_grid :: bool
  ib_pending :: "info_request list"
  ib_calls :: "hub_call list"
  ib_path :: "string option"  \<comment> \<open>where it navigated last\<close>
  ib_confirmed :: "string list"  \<comment> \<open>a record of the systems whose deletion was confirmed\<close>

definition info_bar_initial :: "bool \<Rightarrow> bool \<Rightarrow> system_record \<Rightarrow> info_bar" where
  "info_bar_initial tabs grid system = \<lparr>ib_system = system, ib_editOpen = False,
     ib_install = \<lparr>installCommand = '''', installOpen = False\<rparr>, ib_delete = delete_initial, ib_sshOpen = False, ib_ssh = ssh_initial,
     ib_tabs = tabs, ib_grid = grid, ib_pending = [], ib_calls = [], ib_path = None, ib_confirmed = []\<rparr>"

datatype info_action =
    Next_system system_record
  | Choose_display bool
  | Choose_width bool
  | Menu_ssh | Menu_rename | Menu_install
  | Edit_change bool
  | Install_change bool
  | Ssh_change bool
  | Generate_access
  | Close_access
  | Delete_dialog delete_action
  | Confirm_delete
  | Answered nat info_answer

record info_env =
  ie_localeString :: "string \<Rightarrow> string"
  ie_origin :: string
  ie_basePath :: string

definition drop_nth :: "nat \<Rightarrow> 'a list \<Rightarrow> 'a list" where
  "drop_nth k xs = take k xs @ drop (Suc k) xs"

definition request_call :: "info_request \<Rightarrow> hub_call list" where
  "request_call r = (case r of
       Rq_ssh s \<Rightarrow> [Fetch POST_request (''/api/picket/systems/'' @ sys_id s @ ''/ssh-launch'')]
     | Rq_revoke \<Rightarrow> []
     | Rq_install s \<Rightarrow> [Fetch GET_request (''/api/picket/systems/'' @ sys_id s @ ''/install-command'')]
     | Rq_uninstall s \<Rightarrow> [Fetch POST_request (''/api/picket/systems/'' @ sys_id s @ ''/uninstall-agent'')]
     | Rq_delete s \<Rightarrow> [Pb_delete ''systems'' (sys_id s)])"

definition ask :: "info_request \<Rightarrow> info_bar \<Rightarrow> info_bar" where
  \<comment> \<open>a request is sent and awaited\<close>
  "ask r s = s\<lparr>ib_pending := ib_pending s @ [r], ib_calls := ib_calls s @ request_call r\<rparr>"

definition clear_access :: "ssh_state \<Rightarrow> ssh_state" where
  "clear_access a = a\<lparr>sshCommand := '''', sshPrompt := '''', sshExpiresAt := None\<rparr>"

definition close_access :: "info_env \<Rightarrow> info_bar \<Rightarrow> info_bar" where
  \<comment> \<open>revokeSSHLaunch up to its await\<close>
  "close_access env s =
     (if sshCommand (ib_ssh s) = '''' then s
      else (case find_token (sshCommand (ib_ssh s)) of
          None \<Rightarrow> s\<lparr>ib_ssh := clear_access (ib_ssh s)\<rparr>
        | Some token \<Rightarrow> s\<lparr>ib_pending := ib_pending s @ [Rq_revoke],
            ib_calls := ib_calls s @ [Fetch DELETE_request (ie_basePath env @ ''api/picket/ssh-launch/'' @ token)]\<rparr>))"

definition confirm_delete :: "info_bar \<Rightarrow> info_bar" where
  \<comment> \<open>deleteSystem up to its first await; the button is disabled while a deletion is under way\<close>
  "confirm_delete s =
     (if deleteOpen (ib_delete s) \<and> \<not> deleteLoading (ib_delete s)
      then ask (if uninstallWithDelete (ib_delete s) then Rq_uninstall (ib_system s) else Rq_delete (ib_system s))
        (s\<lparr>ib_delete := (ib_delete s)\<lparr>deleteLoading := True\<rparr>, ib_confirmed := ib_confirmed s @ [sys_id (ib_system s)]\<rparr>)
      else s)"

definition generate_access :: "info_bar \<Rightarrow> info_bar" where
  \<comment> \<open>the button is there without a command, and disabled while one is under way\<close>
  "generate_access s =
     (if ib_sshOpen s \<and> sshCommand (ib_ssh s) = '''' \<and> \<not> sshLoading (ib_ssh s)
      then ask (Rq_ssh (ib_system s)) (s\<lparr>ib_ssh := (ib_ssh s)\<lparr>sshLoading := True\<rparr>\<rparr>) else s)"

definition not_loading :: "info_bar \<Rightarrow> info_bar" where
  "not_loading s = s\<lparr>ib_delete := (ib_delete s)\<lparr>deleteLoading := False\<rparr>\<rparr>"

definition answered :: "info_env \<Rightarrow> info_request \<Rightarrow> info_answer \<Rightarrow> info_bar \<Rightarrow> info_bar" where
  \<comment> \<open>what follows the await of a request; an answer of another kind is no answer to it\<close>
  "answered env r a s = (case r of
       Rq_ssh sys \<Rightarrow> s\<lparr>ib_ssh := snd (createSSHLaunch (ie_localeString env) (ie_origin env) (ie_basePath env) sys
           (case a of Launch_answer token expires \<Rightarrow> Some (token, expires) | _ \<Rightarrow> None) (ib_ssh s))\<rparr>
     | Rq_revoke \<Rightarrow> (if a = Failed then s else s\<lparr>ib_ssh := clear_access (ib_ssh s)\<rparr>)
     | Rq_install sys \<Rightarrow> s\<lparr>ib_install := snd (loadInstallScript (case a of Install_text x \<Rightarrow> Some x | _ \<Rightarrow> None) sys (ib_install s))\<rparr>
     | Rq_uninstall sys \<Rightarrow> (if a = Done then ask (Rq_delete sys) s else not_loading s)
     | Rq_delete sys \<Rightarrow> (if a = Done then not_loading (s\<lparr>ib_path := Some ''/''\<rparr>) else not_loading s))"

fun info_step :: "info_env \<Rightarrow> info_action \<Rightarrow> info_bar \<Rightarrow> info_bar" where
  "info_step env (Next_system sys) s = s\<lparr>ib_system := sys\<rparr>"
| "info_step env (Choose_display b) s = s\<lparr>ib_tabs := b\<rparr>"
| "info_step env (Choose_width b) s = s\<lparr>ib_grid := b\<rparr>"
| "info_step env Menu_ssh s = s\<lparr>ib_sshOpen := True\<rparr>"
| "info_step env Menu_rename s = s\<lparr>ib_editOpen := True\<rparr>"
| "info_step env Menu_install s = ask (Rq_install (ib_system s)) s"
| "info_step env (Edit_change b) s = s\<lparr>ib_editOpen := b\<rparr>"
| "info_step env (Install_change b) s = s\<lparr>ib_install := (ib_install s)\<lparr>installOpen := b\<rparr>\<rparr>"
| "info_step env (Ssh_change b) s = s\<lparr>ib_sshOpen := b\<rparr>"
| "info_step env Generate_access s = generate_access s"
| "info_step env Close_access s = (if ib_sshOpen s then close_access env s else s)"
| "info_step env (Delete_dialog c) s = s\<lparr>ib_delete := delete_act c (ib_delete s)\<rparr>"
| "info_step env Confirm_delete s = confirm_delete s"
| "info_step env (Answered k a) s =
     (if k < length (ib_pending s)
      then answered env (ib_pending s ! k) a (s\<lparr>ib_pending := drop_nth k (ib_pending s)\<rparr>) else s)"

subsection \<open>One deletion at a time, and only confirmed ones\<close>

fun is_deletion :: "info_request \<Rightarrow> bool" where
  "is_deletion (Rq_uninstall s) = True"
| "is_deletion (Rq_delete s) = True"
| "is_deletion r = False"

fun is_creation :: "info_request \<Rightarrow> bool" where
  "is_creation (Rq_ssh s) = True"
| "is_creation r = False"

fun uninstall_id :: "info_request \<Rightarrow> string list" where
  "uninstall_id (Rq_uninstall s) = [sys_id s]"
| "uninstall_id r = []"

fun deleted_id :: "hub_call \<Rightarrow> string list" where
  "deleted_id (Pb_delete coll i) = [i]"
| "deleted_id c = []"

definition deleted_ids :: "info_bar \<Rightarrow> string list" where
  "deleted_ids s = concat (map deleted_id (ib_calls s))"

definition info_ok :: "info_bar \<Rightarrow> bool" where
  "info_ok s \<longleftrightarrow> length (filter is_deletion (ib_pending s)) = (if deleteLoading (ib_delete s) then 1 else 0)
     \<and> length (filter is_creation (ib_pending s)) = (if sshLoading (ib_ssh s) then 1 else 0)
     \<and> mset (deleted_ids s) + mset (concat (map uninstall_id (ib_pending s))) \<subseteq># mset (ib_confirmed s)"

lemma split_nth: "k < length xs \<Longrightarrow> \<exists>as bs. xs = as @ xs ! k # bs \<and> drop_nth k xs = as @ bs"
  by (metis drop_nth_def id_take_nth_drop)

lemma delete_act_loading [simp]: "deleteLoading (delete_act c d) = deleteLoading d"
  by (cases c) (auto simp: Let_def)

lemma info_ok_confirm [keeps]: "info_ok s \<Longrightarrow> info_ok (confirm_delete s)"
  by (auto simp: info_ok_def confirm_delete_def ask_def request_call_def deleted_ids_def)

lemma info_ok_generate [keeps]: "info_ok s \<Longrightarrow> info_ok (generate_access s)"
  by (auto simp: info_ok_def generate_access_def ask_def request_call_def deleted_ids_def)

lemma info_ok_close [keeps]: "info_ok s \<Longrightarrow> info_ok (close_access env s)"
  by (auto simp: info_ok_def close_access_def clear_access_def deleted_ids_def split: option.splits)

lemma createSSHLaunch_loading [simp]: "sshLoading (snd (createSSHLaunch ls og bp sys a s)) = False"
  by (cases a) (auto simp: createSSHLaunch_def Let_def)

lemma add_mset_subset: "add_mset x A \<subseteq># B \<Longrightarrow> A \<subseteq># B"
  by (meson mset_subset_eq_insertD subset_mset.less_imp_le)

lemma info_ok_answered [keeps]:
  assumes "info_ok s" and "k < length (ib_pending s)"
  shows "info_ok (info_step env (Answered k a) s)"
proof -
  obtain as bs where p: "ib_pending s = as @ ib_pending s ! k # bs" "drop_nth k (ib_pending s) = as @ bs"
    using split_nth [OF assms(2)] by blast
  define r where "r = ib_pending s ! k"
  have s: "ib_pending s = as @ r # bs" "drop_nth k (as @ r # bs) = as @ bs" "(as @ r # bs) ! k = r" "k < length (as @ r # bs)"
    using p assms(2) by (simp_all add: r_def)
  show ?thesis using assms(1) s(2-)
    by (cases r) (auto simp: info_ok_def answered_def s(1) ask_def request_call_def not_loading_def clear_access_def deleted_ids_def
      split: if_splits dest: add_mset_subset)
qed

lemma info_ok_step [keeps]:
  assumes "info_ok s"
  shows "info_ok (info_step env a s)"
proof (cases a)
  case (Answered k b)
  then show ?thesis using assms info_ok_answered by (cases "k < length (ib_pending s)") simp_all
next
  case Confirm_delete
  then show ?thesis using assms info_ok_confirm by simp
next
  case Generate_access
  then show ?thesis using assms info_ok_generate by simp
next
  case Close_access
  then show ?thesis using assms info_ok_close by simp
qed (use assms in \<open>simp_all add: ask_def request_call_def info_ok_def deleted_ids_def\<close>)

text \<open>
  C26. However the dialogs are used, the answers come in and the page goes on to other systems: at most one
  deletion is under way, namely while its button is disabled, and likewise at most one request for
  access; and a record is deleted only if the deletion of that system was confirmed, at most once for
  each confirmation.
\<close>
theorem only_confirmed_deletions:
  "case fold (info_step env) as (info_bar_initial tabs grid system) of s \<Rightarrow>
     mset (deleted_ids s) \<subseteq># mset (ib_confirmed s)
     \<and> length (filter is_deletion (ib_pending s)) = (if deleteLoading (ib_delete s) then 1 else 0)
     \<and> length (filter is_creation (ib_pending s)) = (if sshLoading (ib_ssh s) then 1 else 0)"
proof -
  have run: "info_ok s \<Longrightarrow> info_ok (fold (info_step env) as s)" for s
    by (induction as arbitrary: s) (simp_all add: info_ok_step)
  have "info_ok (fold (info_step env) as (info_bar_initial tabs grid system))"
    by (rule run) (simp add: info_ok_def info_bar_initial_def delete_initial_def ssh_initial_def deleted_ids_def)
  then show ?thesis by (auto simp: info_ok_def intro: subset_mset.order_trans [OF mset_subset_eq_add_left])
qed

text \<open>
  A system's deletion is confirmed on its own page: the question names the system whose id is then used,
  also when the page goes on to another one before the hub has answered.
\<close>

lemma confirmed_is_named:
  "ib_confirmed (info_step env a s) \<noteq> ib_confirmed s \<Longrightarrow>
     a = Confirm_delete \<and> ib_confirmed (info_step env a s) = ib_confirmed s @ [sys_id (ib_system s)]"
proof (cases a)
  case (Answered k b)
  then show "ib_confirmed (info_step env a s) \<noteq> ib_confirmed s \<Longrightarrow> ?thesis"
    by (auto simp: answered_def ask_def not_loading_def split: info_request.splits if_splits)
qed (auto simp: ask_def generate_access_def close_access_def confirm_delete_def split: option.splits if_splits)

lemma deletion_leaves_other_page:
  \<comment> \<open>the answer navigates although the page has gone on to another system\<close>
  "let s = fold (info_step env) [Delete_dialog Menu_delete, Confirm_delete, Next_system b, Answered 0 Done] (info_bar_initial t g a)
   in ib_path s = Some ''/'' \<and> ib_system s = b \<and> deleted_ids s = [sys_id a]"
  by (simp add: info_bar_initial_def delete_initial_def confirm_delete_def ask_def request_call_def drop_nth_def answered_def
      not_loading_def deleted_ids_def)

definition sample_env :: info_env where
  "sample_env = \<lparr>ie_localeString = (\<lambda>x. x), ie_origin = ''https://h'', ie_basePath = ''/''\<rparr>"

text \<open>
  Closing the access can be clicked while it is under way: the answer to the second click then clears
  an access that was generated in between, which stays valid and can no longer be closed.
\<close>

lemma second_close_hides_new_access:
  "let s = fold (info_step sample_env) [Menu_ssh, Generate_access, Answered 0 (Launch_answer ''t1'' ''x''), Close_access, Close_access,
       Answered 0 Done, Generate_access, Answered 1 (Launch_answer ''t2'' ''x''), Answered 0 Done]
       (info_bar_initial False True (sample_system ''a'' ''web'' Up))
   in sshCommand (ib_ssh s) = '''' \<and> length (ib_calls s) = 4"
  by code_simp

subsection \<open>What is rendered\<close>

datatype access_view =
    Access_ready string "string option" string  \<comment> \<open>command, expiry, prompt\<close>
  | Access_button string bool  \<comment> \<open>label, disabled\<close>

record info_view =
  iv_display :: string
  iv_width :: string
  iv_rename :: "string option"
  iv_install :: "string option"
  iv_access :: "access_view option"
  iv_delete :: "(string \<times> bool \<times> string \<times> bool) option"  \<comment> \<open>title, box, label of the button, disabled\<close>

definition InfoBar :: "info_env \<Rightarrow> info_bar \<Rightarrow> info_view" where
  "InfoBar env s =
     \<lparr>iv_display = (if ib_tabs s then ''tabs'' else ''default''), iv_width = (if ib_grid s then ''grid'' else ''full''),
      iv_rename = (if ib_editOpen s then Some (sys_id (ib_system s)) else None),
      iv_install = (if installOpen (ib_install s) then Some (installCommand (ib_install s)) else None),
      iv_access = (if \<not> ib_sshOpen s then None
        else if sshCommand (ib_ssh s) \<noteq> ''''
        then Some (Access_ready (sshCommand (ib_ssh s))
          (if str_truthy (sshExpiresAt (ib_ssh s))
           then Some (''Access expires at '' @ ie_localeString env (the (sshExpiresAt (ib_ssh s))) @ ''.'') else None) (sshPrompt (ib_ssh s)))
        else Some (Access_button (if sshLoading (ib_ssh s) then ''Generating...'' else ''Generate temporary access'') (sshLoading (ib_ssh s)))),
      iv_delete = (if deleteOpen (ib_delete s)
        then Some (''Delete '' @ sys_name (ib_system s) @ ''?'', uninstallWithDelete (ib_delete s),
          if deleteLoading (ib_delete s) then ''Deleting...'' else ''Delete'', deleteLoading (ib_delete s)) else None)\<rparr>"

definition layout_menu :: "info_bar \<Rightarrow> (string \<times> string \<times> (string \<times> string \<times> info_action) list) list" where
  \<comment> \<open>two radio groups: label, value, and the items with their values and labels\<close>
  "layout_menu s =
     [(''Display'', if ib_tabs s then ''tabs'' else ''default'', [(''default'', ''Default'', Choose_display False), (''tabs'', ''Tabs'', Choose_display True)]),
      (''Chart width'', if ib_grid s then ''grid'' else ''full'', [(''grid'', ''Grid'', Choose_width True), (''full'', ''Full'', Choose_width False)])]"

definition agent_menu :: "(string \<times> info_action) list" where
  "agent_menu = [(''Connect over SSH'', Menu_ssh), (''Rename agent'', Menu_rename), (''Show install script'', Menu_install),
     (''Delete agent'', Delete_dialog Menu_delete)]"

lemma layout_menu_chooses:
  "(label, v, items) \<in> set (layout_menu s) \<Longrightarrow> (w, l, a) \<in> set items \<Longrightarrow> \<exists>is. (label, w, is) \<in> set (layout_menu (info_step env a s))"
  by (auto simp: layout_menu_def)

lemma disabled_buttons_do_nothing:
  "iv_access (InfoBar env s) = Some (Access_button l True) \<Longrightarrow> generate_access s = s"
  "iv_delete (InfoBar env s) = Some (n, b, l, True) \<Longrightarrow> confirm_delete s = s"
  by (auto simp: InfoBar_def generate_access_def confirm_delete_def split: if_splits)

end
