(* ===== verification/System_Dialogs.thy ===== *)
theory System_Dialogs
  imports Agent_Dialogs
begin

section \<open>The dialogs that add and rename a system at work: add-system.tsx\<close>

text \<open>
  SystemDialog with its requests under way, which are answered in any order while the dialog is closed,
  opened again, or given another system. Adding mounts the dialog anew each time it is opened; renaming
  keeps it mounted (in the info bar and in the menu of a row). The lemmas show that a run without
  interruption is the submission of Agent_Dialogs, that a mounted dialog waits for at most one answer
  and shows only the token of its own request, and what late answers do.
\<close>

subsection \<open>State and steps\<close>

datatype dialog_request = Awaits_update | Awaits_enrollment | Awaits_command

datatype dialog_answer = Refused | Updated | Enrolled string string | Script string

record dialog_machine =
  dm_system :: "system_record option"  \<comment> \<open>the system to rename\<close>
  dm_state :: dialog_state
  dm_mount :: nat  \<comment> \<open>the number of the mounting\<close>
  dm_pending :: "(nat \<times> dialog_request) list"
  dm_calls :: "hub_call list"
  dm_enrolled :: "(nat \<times> string) list"  \<comment> \<open>a record of the tokens and the mountings they are for\<close>

definition dialog_machine_initial :: "system_record option \<Rightarrow> dialog_machine" where
  "dialog_machine_initial system = \<lparr>dm_system = system,
     dm_state = dialog_effect system \<lparr>dg_name = '''', dg_token = '''', dg_command = '''', dg_loading = False, dg_open = False, dg_toasts = []\<rparr>,
     dm_mount = 0, dm_pending = [], dm_calls = [], dm_enrolled = []\<rparr>"

definition dialog_mounted :: "dialog_machine \<Rightarrow> bool" where
  "dialog_mounted m \<longleftrightarrow> dm_system m \<noteq> None \<or> dg_open (dm_state m)"

definition set_state :: "(dialog_state \<Rightarrow> dialog_state) \<Rightarrow> dialog_machine \<Rightarrow> dialog_machine" where
  "set_state f m = m\<lparr>dm_state := f (dm_state m)\<rparr>"

definition dialog_open_change :: "bool \<Rightarrow> dialog_machine \<Rightarrow> dialog_machine" where
  \<comment> \<open>AddSystemDialog mounts with open, new and empty\<close>
  "dialog_open_change b m =
     (if dm_system m = None \<and> b \<and> \<not> dg_open (dm_state m)
      then set_state (\<lambda>s. dialog_effect None (s\<lparr>dg_open := True, dg_loading := False\<rparr>)) (m\<lparr>dm_mount := Suc (dm_mount m)\<rparr>)
      else set_state (dg_open_update (\<lambda>_. b)) m)"

definition can_submit :: "dialog_machine \<Rightarrow> bool" where
  \<comment> \<open>the form is shown, the name is required, and the button is disabled while loading\<close>
  "can_submit m \<longleftrightarrow> dg_open (dm_state m) \<and> dg_token (dm_state m) = '''' \<and> dg_name (dm_state m) \<noteq> '''' \<and> \<not> dg_loading (dm_state m)"

definition dialog_submit :: "dialog_machine \<Rightarrow> dialog_machine" where
  \<comment> \<open>submit up to its first await\<close>
  "dialog_submit m =
     (if can_submit m
      then (case dm_system m of
          Some r \<Rightarrow> (set_state (dg_loading_update (\<lambda>_. True)) m)
            \<lparr>dm_pending := dm_pending m @ [(dm_mount m, Awaits_update)],
             dm_calls := dm_calls m @ [Pb_update ''systems'' (sys_id r) (dg_name (dm_state m))]\<rparr>
        | None \<Rightarrow> (set_state (dg_loading_update (\<lambda>_. True)) m)
            \<lparr>dm_pending := dm_pending m @ [(dm_mount m, Awaits_enrollment)],
             dm_calls := dm_calls m @ [Pb_send POST_request ''/api/picket/systems'' (dg_name (dm_state m))]\<rparr>)
      else m)"

definition on_own :: "nat \<Rightarrow> (dialog_state \<Rightarrow> dialog_state) \<Rightarrow> dialog_machine \<Rightarrow> dialog_machine" where
  \<comment> \<open>the setters of a dialog that is no longer mounted do nothing\<close>
  "on_own i f m = (if i = dm_mount m \<and> dialog_mounted m then set_state f m else m)"

definition dialog_failed :: "nat \<Rightarrow> dialog_machine \<Rightarrow> dialog_machine" where
  \<comment> \<open>catch, then finally\<close>
  "dialog_failed i m = on_own i (dg_loading_update (\<lambda>_. False)) (set_state (dg_toasts_update (\<lambda>ts. failed_toast # ts)) m)"

fun dialog_answered :: "nat \<Rightarrow> dialog_request \<Rightarrow> dialog_answer \<Rightarrow> dialog_machine \<Rightarrow> dialog_machine" where
  \<comment> \<open>what follows the await in the mounting i; an answer of another kind is no answer to it\<close>
  "dialog_answered i Awaits_update Updated m = set_state (dg_open_update (\<lambda>_. False)) (on_own i (dg_loading_update (\<lambda>_. False)) m)"
| "dialog_answered i Awaits_enrollment (Enrolled systemId token) m =
     (on_own i (dg_token_update (\<lambda>_. token)) m)
       \<lparr>dm_pending := dm_pending m @ [(i, Awaits_command)], dm_enrolled := dm_enrolled m @ [(i, token)],
        dm_calls := dm_calls m @ [Fetch GET_request (''/api/picket/systems/'' @ systemId @ ''/install-command'')]\<rparr>"
| "dialog_answered i Awaits_command (Script x) m = on_own i (\<lambda>s. s\<lparr>dg_command := x, dg_loading := False\<rparr>) m"
| "dialog_answered i r a m = dialog_failed i m"

datatype sysdialog_action =
    Dialog_open bool
  | Dialog_type string
  | Dialog_submit
  | Dialog_system system_record  \<comment> \<open>another record, or the record updated\<close>
  | Dialog_answer nat dialog_answer

fun sysdialog_step :: "sysdialog_action \<Rightarrow> dialog_machine \<Rightarrow> dialog_machine" where
  "sysdialog_step (Dialog_open b) m = dialog_open_change b m"
| "sysdialog_step (Dialog_type x) m =
     (if dg_open (dm_state m) \<and> dg_token (dm_state m) = '''' then set_state (dg_name_update (\<lambda>_. x)) m else m)"
| "sysdialog_step Dialog_submit m = dialog_submit m"
| "sysdialog_step (Dialog_system r) m =
     (if dm_system m = None then m else set_state (dialog_effect (Some r)) (m\<lparr>dm_system := Some r\<rparr>))"
| "sysdialog_step (Dialog_answer k a) m =
     (if k < length (dm_pending m)
      then (case dm_pending m ! k of (i, r) \<Rightarrow>
          dialog_answered i r a (m\<lparr>dm_pending := take k (dm_pending m) @ drop (Suc k) (dm_pending m)\<rparr>))
      else m)"

subsection \<open>Without interruption it is the submission\<close>

definition dialog_answers :: "bool \<Rightarrow> (string \<times> string) option \<Rightarrow> string option \<Rightarrow> system_record option \<Rightarrow> sysdialog_action list" where
  "dialog_answers update_ok enrollment script system = map (Dialog_answer 0) (case system of
       Some r \<Rightarrow> [if update_ok then Updated else Refused]
     | None \<Rightarrow> (case enrollment of
           None \<Rightarrow> [Refused]
         | Some (i, token) \<Rightarrow> [Enrolled i token, case script of Some x \<Rightarrow> Script x | None \<Rightarrow> Refused]))"


definition sample_machine :: dialog_machine where
  "sample_machine = fold sysdialog_step [Dialog_open True, Dialog_type ''web''] (dialog_machine_initial None)"


subsection \<open>With interruptions\<close>

definition own_requests :: "dialog_machine \<Rightarrow> (nat \<times> dialog_request) list" where
  "own_requests m = filter (\<lambda>p. fst p = dm_mount m) (dm_pending m)"

definition dialog_ok :: "dialog_machine \<Rightarrow> bool" where
  "dialog_ok m \<longleftrightarrow> list_all (\<lambda>p. fst p \<le> dm_mount m) (dm_pending m)
     \<and> (dialog_mounted m \<longrightarrow> length (own_requests m) = (if dg_loading (dm_state m) then 1 else 0)
          \<and> (dg_token (dm_state m) = '''' \<or> (dm_mount m, dg_token (dm_state m)) \<in> set (dm_enrolled m)))"

lemma no_request_of_next: "list_all (\<lambda>p. fst p \<le> n) ps \<Longrightarrow> filter (\<lambda>p. fst p = Suc n) ps = []"
  by (induction ps) auto

lemma requests_stay_old: "list_all (\<lambda>p. fst p \<le> n) ps \<Longrightarrow> list_all (\<lambda>p. fst p \<le> Suc n) ps"
  by (induction ps) auto

lemma dialog_ok_open: "dialog_ok m \<Longrightarrow> dialog_ok (dialog_open_change b m)"
  by (auto simp: dialog_ok_def dialog_open_change_def set_state_def own_requests_def dialog_mounted_def dialog_effect_def
      no_request_of_next requests_stay_old)

lemma dialog_ok_submit: "dialog_ok m \<Longrightarrow> dialog_ok (dialog_submit m)"
  by (auto simp: dialog_ok_def dialog_submit_def set_state_def own_requests_def dialog_mounted_def can_submit_def split: option.splits)

lemma dialog_ok_answer:
  assumes "dialog_ok m" and "k < length (dm_pending m)"
  shows "dialog_ok (sysdialog_step (Dialog_answer k a) m)"
proof -
  define ps qs p where "ps = take k (dm_pending m)" and "qs = drop (Suc k) (dm_pending m)" and "p = dm_pending m ! k"
  have pend: "dm_pending m = ps @ p # qs" using assms(2) by (simp add: ps_def qs_def p_def id_take_nth_drop [symmetric])
  obtain i r where p: "p = (i, r)" by (cases p)
  have step: "sysdialog_step (Dialog_answer k a) m = dialog_answered i r a (m\<lparr>dm_pending := ps @ qs\<rparr>)"
    using assms(2) p by (simp add: ps_def qs_def p_def)
  show ?thesis using assms(1) unfolding step
    by (cases "(i, r, a, m\<lparr>dm_pending := ps @ qs\<rparr>)" rule: dialog_answered.cases)
      (auto simp: dialog_ok_def own_requests_def pend p on_own_def set_state_def dialog_mounted_def dialog_failed_def split: if_splits)
qed

lemma dialog_ok_step [keeps]:
  assumes "dialog_ok m"
  shows "dialog_ok (sysdialog_step a m)"
proof (cases a)
  case (Dialog_answer k b)
  then show ?thesis using assms dialog_ok_answer by (cases "k < length (dm_pending m)") simp_all
next
  case (Dialog_system r)
  then show ?thesis using assms
    by (auto simp: dialog_ok_def set_state_def own_requests_def dialog_mounted_def dialog_effect_def)
next
  case (Dialog_type x)
  then show ?thesis using assms by (auto simp: dialog_ok_def set_state_def own_requests_def dialog_mounted_def)
qed (use assms in \<open>simp_all add: dialog_ok_open dialog_ok_submit\<close>)

text \<open>
  However a dialog is opened, closed and submitted, and whenever its answers come: while it is mounted it
  waits for at most one answer, namely while its button is disabled; and a token it shows was given for
  its own mounting, never the late answer to a dialog that was closed before.
\<close>
theorem dialog_shows_its_own_token:
  "case fold sysdialog_step as (dialog_machine_initial system) of m \<Rightarrow>
     \<not> dialog_mounted m
     \<or> length (own_requests m) = (if dg_loading (dm_state m) then 1 else 0)
       \<and> (dg_token (dm_state m) = '''' \<or> (dm_mount m, dg_token (dm_state m)) \<in> set (dm_enrolled m))"
proof -
  have "dialog_ok m \<Longrightarrow> dialog_ok (fold sysdialog_step as m)" for m
    by (induction as arbitrary: m) (simp_all add: dialog_ok_step)
  moreover have "dialog_ok (dialog_machine_initial system)"
    by (simp add: dialog_ok_def dialog_machine_initial_def own_requests_def dialog_effect_def)
  ultimately have "dialog_ok (fold sysdialog_step as (dialog_machine_initial system))" by blast
  then show ?thesis by (simp only: dialog_ok_def) blast
qed

text \<open>
  Late answers: the dialog that was closed while adding leaves a system at the hub whose token is never
  shown; and the answer to a rename closes the dialog also when it was opened again meanwhile, for
  another system or another name.
\<close>

lemma closed_dialog_loses_token:
  "let m = fold sysdialog_step [Dialog_submit, Dialog_open False, Dialog_answer 0 (Enrolled ''i'' ''t''), Dialog_open True] sample_machine
   in dm_enrolled m = [(1, ''t'')] \<and> dg_token (dm_state m) = ''''"
  by code_simp

lemma late_rename_closes_next:
  assumes "sys_name a \<noteq> ''''"
  shows "let m = fold sysdialog_step [Dialog_open True, Dialog_submit, Dialog_open False, Dialog_system b, Dialog_open True, Dialog_type x]
             (dialog_machine_initial (Some a))
    in dg_open (dm_state m) \<and> \<not> dg_open (dm_state (sysdialog_step (Dialog_answer 0 Updated) m))"
  using assms
  by (simp add: dialog_machine_initial_def dialog_open_change_def set_state_def dialog_submit_def can_submit_def dialog_effect_def
      on_own_def dialog_mounted_def)

subsection \<open>What is rendered\<close>

datatype dialog_body =
    Connect_body string  \<comment> \<open>the installer's command\<close>
  | Form_body string bool string  \<comment> \<open>name, disabled, label of the button\<close>

record dialog_view =
  dv_title :: string
  dv_described :: bool  \<comment> \<open>the description of the token instead of that of the name\<close>
  dv_body :: dialog_body

definition SystemDialog :: "dialog_machine \<Rightarrow> dialog_view option" where
  "SystemDialog m =
     (let s = dm_state m
      in if \<not> dg_open s then None
         else Some \<lparr>dv_title = dialog_title (dm_system m) s, dv_described = (dg_token s \<noteq> ''''),
           dv_body = (if dg_token s \<noteq> '''' then Connect_body (dg_command s)
             else Form_body (dg_name s) (dg_loading s) (if dm_system m \<noteq> None then ''Save System'' else ''Generate Token''))\<rparr>)"

lemma dialog_disabled:
  "map_option dv_body (SystemDialog m) = Some (Form_body n True l) \<Longrightarrow> dialog_submit m = m"
  by (auto simp: SystemDialog_def dialog_submit_def can_submit_def Let_def split: if_splits)

end
