(* ===== verification/Pages.thy ===== *)
theory Pages
  imports App Settings_Page Chart_View React_Hooks
begin

section \<open>The pages and the layout around them: main.tsx, routes, stores.ts\<close>

text \<open>
  Which components Layout, App and the pages show (main.tsx, home.tsx, containers.tsx,
  settings/layout.tsx, system/lazy-tables.tsx); the title of the browser's tab; the life cycle of the
  subscriptions App makes and ends; the dialog that stands in for the clipboard (copy-to-clipboard.tsx,
  the store $copyContent); and the command palette with its key listener. Each is a state machine;
  the lemmas show what the title, the subscriptions, the dialog and the palette are in every reachable
  state, and where they are not what was meant.
\<close>

subsection \<open>What is on the page\<close>

datatype part =
    Navbar_part
  | Active_alerts_part
  | Systems_table_part
  | Containers_table_part "string option"
  | System_part string
  | Notifications_part
  | Not_found_part
  | Login_part
  | Clipboard_part string
  | Toaster_part

definition home_parts :: "part list" where
  "home_parts = [Active_alerts_part, Systems_table_part]"

definition containers_parts :: "part list" where
  "containers_parts = [Active_alerts_part, Containers_table_part None]"

definition SettingsLayout :: "part list" where
  "SettingsLayout = [Notifications_part]"

fun page_parts :: "route \<Rightarrow> part list" where
  "page_parts Home = home_parts"
| "page_parts Containers_route = containers_parts"
| "page_parts (System_route i) = [System_part i]"
| "page_parts Settings_route = SettingsLayout"

definition screen_parts :: "string \<Rightarrow> screen \<Rightarrow> part list" where
  \<comment> \<open>Layout with the content of $copyContent\<close>
  "screen_parts content x = (case x of
       Blank \<Rightarrow> []
     | Login_screen \<Rightarrow> [Login_part]
     | Not_found \<Rightarrow> Navbar_part # Not_found_part # map Clipboard_part (case copy_dialog content of None \<Rightarrow> [] | Some t \<Rightarrow> [t])
     | Page r \<Rightarrow> Navbar_part # page_parts r @ map Clipboard_part (case copy_dialog content of None \<Rightarrow> [] | Some t \<Rightarrow> [t]))"

definition client_parts :: "bool option \<Rightarrow> route option \<Rightarrow> string \<Rightarrow> part list" where
  \<comment> \<open>the root: Layout, and Toaster beside it\<close>
  "client_parts authenticated page content = screen_parts content (Layout authenticated page) @ [Toaster_part]"

lemma nothing_before_sign_in:
  "authenticated \<noteq> Some True \<Longrightarrow> set (client_parts authenticated page c) \<subseteq> {Login_part, Toaster_part}"
  by (cases authenticated) (auto simp: client_parts_def screen_parts_def Layout_def split: bool.splits)

definition LazyContainersTable :: "string \<Rightarrow> observed \<Rightarrow> part list" where
  \<comment> \<open>mounted while it is on screen; the observer has no option freeze\<close>
  "LazyContainersTable systemId s = (if isIntersecting s then [Containers_table_part (Some systemId)] else [])"

text \<open>The table is unmounted when it leaves the screen, so each time it comes back it starts anew.\<close>

lemma lazy_table_follows_the_screen:
  "entries \<noteq> [] \<Longrightarrow> LazyContainersTable i (observe False [0] entries s)
     = (if fst (last entries) \<and> 0 \<le> snd (last entries) then [Containers_table_part (Some i)] else [])"
  by (cases "last entries") (simp add: LazyContainersTable_def observe_def frozen_def observe_fold observe_entry_def)

subsection \<open>The title\<close>

text \<open>
  A page sets the title when it is mounted. The page of a system subscribes to the record in one of the
  two stores, which calls back at once and on every change; with no system known it does not. The
  subscription is made anew when the id or the number of systems changes.
\<close>

record shell =
  sl_route :: "route option"
  sl_sub :: "(bool \<times> string) option"  \<comment> \<open>whether by id, and the key\<close>
  sl_title :: string
  sl_stores :: sm_state

definition store_of :: "bool \<Rightarrow> sm_state \<Rightarrow> (string \<times> system_record) list" where
  "store_of by_id sm = (if by_id then allSystemsById sm else allSystemsByName sm)"

definition set_title :: "system_record option \<Rightarrow> shell \<Rightarrow> shell" where
  \<comment> \<open>the callback of subscribeKeys\<close>
  "set_title sys s = (case sys of Some r \<Rightarrow> s\<lparr>sl_title := sys_name r @ '' / Picket''\<rparr> | None \<Rightarrow> s)"

definition subscribe_effect :: "string \<Rightarrow> shell \<Rightarrow> shell" where
  "subscribe_effect i s =
     (if systems_list (sl_stores s) = [] then s\<lparr>sl_sub := None\<rparr>
      else let by_id = map_of (allSystemsById (sl_stores s)) i \<noteq> None
        in set_title (map_of (store_of by_id (sl_stores s)) i) (s\<lparr>sl_sub := Some (by_id, i)\<rparr>))"

datatype shell_action = Go_to "route option" | Stores_become sm_state

fun mount_page :: "route option \<Rightarrow> shell \<Rightarrow> shell" where
  \<comment> \<open>the page is rendered and its effects run; those of the page before are cleaned up\<close>
  "mount_page None s = s\<lparr>sl_route := None, sl_sub := None\<rparr>"
| "mount_page (Some (System_route i)) s = subscribe_effect i (s\<lparr>sl_route := Some (System_route i), sl_sub := None\<rparr>)"
| "mount_page (Some r) s = s\<lparr>sl_route := Some r, sl_sub := None, sl_title := orelse (document_title r None) (sl_title s)\<rparr>"

definition stores_change :: "sm_state \<Rightarrow> shell \<Rightarrow> shell" where
  "stores_change sm s =
     (let old = sl_stores s; s = s\<lparr>sl_stores := sm\<rparr>;
          s = (case sl_sub s of
              Some (by_id, i) \<Rightarrow>
                if map_of (store_of by_id sm) i = map_of (store_of by_id old) i then s else set_title (map_of (store_of by_id sm) i) s
            | None \<Rightarrow> s)
      in case sl_route s of
           Some (System_route i) \<Rightarrow> if length (systems_list sm) \<noteq> length (systems_list old) then subscribe_effect i s else s
         | _ \<Rightarrow> s)"

fun shell_step :: "shell_action \<Rightarrow> shell \<Rightarrow> shell" where
  "shell_step (Go_to r) s = (if r = sl_route s then s else mount_page r s)"
| "shell_step (Stores_become sm) s = stores_change sm s"

definition shell_initial :: "string \<Rightarrow> sm_state \<Rightarrow> route option \<Rightarrow> shell" where
  \<comment> \<open>the title of the HTML document, then the first page\<close>
  "shell_initial title sm r = mount_page r \<lparr>sl_route = None, sl_sub = None, sl_title = title, sl_stores = sm\<rparr>"

definition shell_ok :: "shell \<Rightarrow> bool" where
  "shell_ok s \<longleftrightarrow> (case sl_route s of
       None \<Rightarrow> sl_sub s = None
     | Some (System_route i) \<Rightarrow> (case sl_sub s of
           None \<Rightarrow> systems_list (sl_stores s) = []
         | Some (by_id, j) \<Rightarrow> j = i \<and> (case map_of (store_of by_id (sl_stores s)) i of
               None \<Rightarrow> True | Some r \<Rightarrow> sl_title s = sys_name r @ '' / Picket''))
     | Some r \<Rightarrow> sl_sub s = None \<and> document_title r None = Some (sl_title s))"

lemma set_title_fields [simp]:
  "sl_route (set_title x s) = sl_route s" "sl_sub (set_title x s) = sl_sub s" "sl_stores (set_title x s) = sl_stores s"
  by (simp_all add: set_title_def split: option.splits)

lemma shell_ok_subscribe: "sl_route s = Some (System_route i) \<Longrightarrow> shell_ok (subscribe_effect i s)"
  by (auto simp: subscribe_effect_def shell_ok_def Let_def set_title_def split: option.splits)

lemma shell_ok_mount: "shell_ok (mount_page r s)"
  by (cases "(r, s)" rule: mount_page.cases) (simp_all add: shell_ok_subscribe, auto simp: shell_ok_def document_title_def)

lemma shell_ok_stores:
  assumes "shell_ok s"
  shows "shell_ok (stores_change sm s)"
proof (cases "\<exists>i. sl_route s = Some (System_route i)")
  case True
  then obtain i where i: "sl_route s = Some (System_route i)" by blast
  show ?thesis
  proof (cases "length (systems_list sm) = length (systems_list (sl_stores s))")
    case True
    then show ?thesis using assms i
      by (auto simp: stores_change_def Let_def shell_ok_def set_title_def split: option.splits prod.splits)
  next
    case False
    then show ?thesis using i
      by (auto simp: stores_change_def Let_def split: option.splits prod.splits intro!: shell_ok_subscribe)
  qed
next
  case False
  then show ?thesis using assms
    by (auto simp: stores_change_def Let_def shell_ok_def split: option.splits route.splits)
qed

lemma shell_ok_step [keeps]: "shell_ok s \<Longrightarrow> shell_ok (shell_step a s)"
  by (cases a) (simp_all add: shell_ok_mount shell_ok_stores)

text \<open>
  C20. The title of the tab is that of the page: the page's own on the pages with a fixed title, and on the
  page of a system, once any system is known, the current name in the store it subscribed to, if
  that has the system.
\<close>
theorem title_is_of_the_page:
  "case fold shell_step as (shell_initial title sm r) of s \<Rightarrow>
     (case sl_route s of
        None \<Rightarrow> True
      | Some (System_route i) \<Rightarrow> systems_list (sl_stores s) = []
          \<or> (case map_of (store_of (fst (the (sl_sub s))) (sl_stores s)) i of
               None \<Rightarrow> True | Some x \<Rightarrow> Some (sl_title s) = document_title (System_route i) (Some (sys_name x)))
      | Some p \<Rightarrow> document_title p None = Some (sl_title s))"
proof -
  have run: "shell_ok s \<Longrightarrow> shell_ok (fold shell_step as s)" for s
    by (induction as arbitrary: s) (simp_all add: shell_ok_step)
  have "shell_ok (fold shell_step as (shell_initial title sm r))"
    by (rule run) (simp add: shell_initial_def shell_ok_mount)
  then show ?thesis
    by (auto simp: shell_ok_def document_title_def split: option.splits route.splits)
qed

text \<open>
  Where the title is not what is shown: the 404 page keeps the title of the page before; so does the page of
  a system opened before the systems are known, although its record is requested and shown; and
  a system opened under its name keeps its old name in the title after it was renamed.
\<close>

lemma not_found_keeps_title: "sl_title (shell_step (Go_to None) s) = sl_title s"
  by simp

lemma unknown_system_keeps_title:
  "systems_list (sl_stores s) = [] \<Longrightarrow> sl_title (shell_step (Go_to (Some (System_route i))) s) = sl_title s"
  by (simp add: subscribe_effect_def)

lemma rename_keeps_title:
  assumes "sl_route s = Some (System_route n)" and "sl_sub s = Some (False, n)" and "map_of (allSystemsByName sm) n = None"
    and "length (systems_list sm) = length (systems_list (sl_stores s))"
  shows "sl_title (shell_step (Stores_become sm) s) = sl_title s"
  using assms by (simp add: stores_change_def store_of_def set_title_def Let_def)

subsection \<open>The subscriptions of App\<close>

text \<open>
  Each mounting of App starts a chain of promises (theory App has what the chain does to the stores), which
  goes on when App is unmounted. The managers each keep the function that ends the subscription made
  last. That of the systems is replaced by its own result, which is a promise.
\<close>

datatype unsub_variable = Unset | Unsubscriber nat | A_promise

record lifecycle =
  lc_mounted :: bool
  lc_chains :: "app_stage list"
  lc_sm_unsub :: unsub_variable
  lc_al_unsub :: unsub_variable
  lc_sm_subs :: "bool list"  \<comment> \<open>the subscriptions to systems: which are alive\<close>
  lc_al_subs :: "bool list"
  lc_threw :: bool

definition lifecycle_initial :: lifecycle where
  "lifecycle_initial = \<lparr>lc_mounted = False, lc_chains = [], lc_sm_unsub = Unset, lc_al_unsub = Unset, lc_sm_subs = [],
     lc_al_subs = [], lc_threw = False\<rparr>"

definition systems_subscribed :: "bool \<Rightarrow> lifecycle \<Rightarrow> lifecycle" where
  \<comment> \<open>subscribe of systemsManager.ts, whose errors are caught\<close>
  "systems_subscribed success s = (if success
     then s\<lparr>lc_sm_subs := lc_sm_subs s @ [True], lc_sm_unsub := Unsubscriber (length (lc_sm_subs s))\<rparr> else s)"

definition alerts_subscribed :: "lifecycle \<Rightarrow> lifecycle" where
  \<comment> \<open>subscribe of alerts.ts, once it has not failed\<close>
  "alerts_subscribed s = s\<lparr>lc_al_subs := lc_al_subs s @ [True], lc_al_unsub := Unsubscriber (length (lc_al_subs s))\<rparr>"

definition chain_answer :: "nat \<Rightarrow> bool \<Rightarrow> lifecycle \<Rightarrow> lifecycle" where
  \<comment> \<open>what the k-th chain awaits ends, well or not\<close>
  "chain_answer k success s =
     (let goes_on = (\<lambda>stage s. s\<lparr>lc_chains := (lc_chains s)[k := stage]\<rparr>)
      in case lc_chains s ! k of
           Refreshing \<Rightarrow> goes_on Subscribing s
         | Subscribing \<Rightarrow> goes_on Fetching_alerts (systems_subscribed success s)
         | Fetching_alerts \<Rightarrow> goes_on (if success then Subscribing_alerts else Broken) s
         | Subscribing_alerts \<Rightarrow> (if success then goes_on Running (alerts_subscribed s) else goes_on Broken s)
         | _ \<Rightarrow> s)"

definition alerts_unsubscribe :: "lifecycle \<Rightarrow> lifecycle" where
  \<comment> \<open>unsub?.()\<close>
  "alerts_unsubscribe s = (case lc_al_unsub s of
       Unset \<Rightarrow> s
     | Unsubscriber k \<Rightarrow> s\<lparr>lc_al_subs := (lc_al_subs s)[k := False]\<rparr>
     | A_promise \<Rightarrow> s\<lparr>lc_threw := True\<rparr>)"

definition systems_unsubscribe :: "lifecycle \<Rightarrow> lifecycle" where
  \<comment> \<open>unsub = unsub?.(): a promise cannot be called\<close>
  "systems_unsubscribe s = (case lc_sm_unsub s of
       Unset \<Rightarrow> s
     | Unsubscriber k \<Rightarrow> s\<lparr>lc_sm_subs := (lc_sm_subs s)[k := False], lc_sm_unsub := A_promise\<rparr>
     | A_promise \<Rightarrow> s\<lparr>lc_threw := True\<rparr>)"

datatype lifecycle_action = Mount_app | Unmount_app | Chain_answer nat bool

fun lifecycle_step :: "lifecycle_action \<Rightarrow> lifecycle \<Rightarrow> lifecycle" where
  "lifecycle_step Mount_app s =
     (if lc_mounted s then s else s\<lparr>lc_mounted := True, lc_chains := lc_chains s @ [Refreshing]\<rparr>)"
| "lifecycle_step Unmount_app s =
     (if lc_mounted s then (systems_unsubscribe (alerts_unsubscribe s))\<lparr>lc_mounted := False\<rparr> else s)"
| "lifecycle_step (Chain_answer k success) s = (if k < length (lc_chains s) then chain_answer k success s else s)"

fun settled :: "lifecycle_action list \<Rightarrow> lifecycle \<Rightarrow> bool" where
  \<comment> \<open>nothing fails, and App is unmounted only when its chain has come to its end\<close>
  "settled [] s = True"
| "settled (a # as) s = ((case a of
       Unmount_app \<Rightarrow> lc_mounted s \<longrightarrow> last (lc_chains s) = Running
     | Chain_answer k success \<Rightarrow> success
     | Mount_app \<Rightarrow> True) \<and> settled as (lifecycle_step a s))"

definition alive_once :: "unsub_variable \<Rightarrow> bool list \<Rightarrow> bool" where
  \<comment> \<open>only the last subscription is alive, and the variable ends it\<close>
  "alive_once u bs \<longleftrightarrow> (\<exists>as. bs = as @ [True] \<and> True \<notin> set as \<and> u = Unsubscriber (length as))"

definition lifecycle_ok :: "lifecycle \<Rightarrow> bool" where
  "lifecycle_ok s \<longleftrightarrow> \<not> lc_threw s \<and> lc_al_unsub s \<noteq> A_promise \<and>
     (if lc_mounted s
      then lc_chains s \<noteq> [] \<and> set (butlast (lc_chains s)) \<subseteq> {Running} \<and> last (lc_chains s) \<noteq> Broken
        \<and> (if last (lc_chains s) \<in> {Refreshing, Subscribing} then True \<notin> set (lc_sm_subs s)
           else alive_once (lc_sm_unsub s) (lc_sm_subs s))
        \<and> (if last (lc_chains s) = Running then alive_once (lc_al_unsub s) (lc_al_subs s) else True \<notin> set (lc_al_subs s))
      else set (lc_chains s) \<subseteq> {Running} \<and> True \<notin> set (lc_sm_subs s) \<and> True \<notin> set (lc_al_subs s))"

lemma alive_once_new: "True \<notin> set bs \<Longrightarrow> alive_once (Unsubscriber (length bs)) (bs @ [True])"
  by (auto simp: alive_once_def)

lemma alive_once_ended: "alive_once u bs \<Longrightarrow> \<exists>k. u = Unsubscriber k \<and> True \<notin> set (bs[k := False])"
  by (auto simp: alive_once_def)

lemma lifecycle_ok_unmount:
  assumes "lifecycle_ok s" and "lc_mounted s \<longrightarrow> last (lc_chains s) = Running"
  shows "lifecycle_ok (lifecycle_step Unmount_app s)"
proof (cases "lc_mounted s")
  case True
  then have "alive_once (lc_sm_unsub s) (lc_sm_subs s)" "alive_once (lc_al_unsub s) (lc_al_subs s)"
    and c: "lc_chains s \<noteq> []" "set (butlast (lc_chains s)) \<subseteq> {Running}" "\<not> lc_threw s" using assms by (auto simp: lifecycle_ok_def)
  then obtain k j where "lc_sm_unsub s = Unsubscriber k" "True \<notin> set ((lc_sm_subs s)[k := False])"
    and "lc_al_unsub s = Unsubscriber j" "True \<notin> set ((lc_al_subs s)[j := False])"
    by (meson alive_once_ended)
  moreover have "set (lc_chains s) \<subseteq> {Running}" using c assms(2) True
    by (metis append_butlast_last_id empty_set insert_subset list.simps(15) set_append subset_refl sup.bounded_iff)
  ultimately show ?thesis using True c by (simp add: lifecycle_ok_def systems_unsubscribe_def alerts_unsubscribe_def)
qed (use assms in simp)

lemma lifecycle_ok_answer:
  assumes "lifecycle_ok s" and "k < length (lc_chains s)"
  shows "lifecycle_ok (chain_answer k True s)"
proof (cases "lc_chains s ! k = Running")
  case True
  then show ?thesis using assms by (simp add: chain_answer_def Let_def)
next
  case False
  have m: "lc_mounted s" using assms(1) False nth_mem [OF assms(2)] by (cases "lc_mounted s") (auto simp: lifecycle_ok_def subset_iff)
  then obtain cs c where cs: "lc_chains s = cs @ [c]" "set cs \<subseteq> {Running}" using assms(1)
    by (auto simp: lifecycle_ok_def intro: append_butlast_last_id [symmetric])
  have "cs ! k = Running" if "k < length cs" using cs(2) nth_mem [OF that] by blast
  then have k: "k = length cs" using assms(2) False cs(1) by (cases "k < length cs") (auto simp: nth_append)
  show ?thesis using assms(1) m cs k
    by (cases c) (auto simp: lifecycle_ok_def chain_answer_def systems_subscribed_def alerts_subscribed_def Let_def alive_once_new)
qed

lemma lifecycle_ok_step:
  assumes "lifecycle_ok s" and "settled [a] s"
  shows "lifecycle_ok (lifecycle_step a s)"
proof (cases a)
  case Mount_app
  then show ?thesis using assms by (auto simp: lifecycle_ok_def)
next
  case Unmount_app
  then show ?thesis using lifecycle_ok_unmount assms by simp
next
  case (Chain_answer k b)
  then show ?thesis using lifecycle_ok_answer assms by simp
qed

text \<open>
  C39. App ends what it begins: if nothing fails and App is unmounted only after its chain has come to its end,
  then however often it is mounted no clean-up throws; unmounted, it leaves no subscription alive; and
  while it runs exactly one subscription to the systems and one to the alerts is alive, however many
  there were before.
\<close>
theorem app_ends_its_subscriptions:
  assumes "settled as lifecycle_initial"
  shows "case fold lifecycle_step as lifecycle_initial of s \<Rightarrow>
     \<not> lc_threw s
     \<and> (if \<not> lc_mounted s then True \<notin> set (lc_sm_subs s) \<union> set (lc_al_subs s)
        else last (lc_chains s) \<noteq> Running \<or> count_list (lc_sm_subs s) True = 1 \<and> count_list (lc_al_subs s) True = 1)"
proof -
  have "lifecycle_ok s \<Longrightarrow> settled as s \<Longrightarrow> lifecycle_ok (fold lifecycle_step as s)" for s
  proof (induction as arbitrary: s)
    case (Cons a as)
    then show ?case using lifecycle_ok_step [of s a] by simp
  qed simp
  then have "lifecycle_ok (fold lifecycle_step as lifecycle_initial)"
    using assms by (simp add: lifecycle_ok_def lifecycle_initial_def)
  moreover have "alive_once u bs \<Longrightarrow> count_list bs True = 1" for u bs by (auto simp: alive_once_def)
  ultimately show ?thesis by (auto simp: lifecycle_ok_def split: if_splits)
qed

definition full_session :: "nat \<Rightarrow> lifecycle_action list" where
  \<comment> \<open>mounted, answered and unmounted\<close>
  "full_session k = Mount_app # replicate 4 (Chain_answer k True) @ [Unmount_app]"

theorem app_ends_its_subscriptions_witness:
  "settled (full_session 0 @ full_session 1) lifecycle_initial
   \<and> True \<notin> set (lc_sm_subs (fold lifecycle_step (full_session 0 @ full_session 1) lifecycle_initial))"
proof
  show s: "settled (full_session 0 @ full_session 1) lifecycle_initial" by code_simp
  have "\<not> lc_mounted (fold lifecycle_step (full_session 0 @ full_session 1) lifecycle_initial)" by code_simp
  then show "True \<notin> set (lc_sm_subs (fold lifecycle_step (full_session 0 @ full_session 1) lifecycle_initial))"
    using app_ends_its_subscriptions [OF s] by simp
qed

text \<open>
  Both conditions are needed. Unmounted before the subscriptions were answered, they stay alive; and once
  a subscription has been ended, unmounting again before the next one was answered throws, as it does
  when the next one failed.
\<close>

lemma early_unmount_leaks:
  "lc_sm_subs (fold lifecycle_step (Mount_app # Unmount_app # replicate 4 (Chain_answer 0 True)) lifecycle_initial) = [True]"
  by code_simp

lemma second_unmount_throws:
  "lc_threw (fold lifecycle_step (full_session 0 @ [Mount_app, Unmount_app]) lifecycle_initial)"
  by code_simp

subsection \<open>The dialog that stands in for the clipboard\<close>

text \<open>
  The store $copyContent and the dialog Layout shows for it, whose code is loaded when it is first needed.
  The dialog's text area has been rendered with a list of contents since it was mounted; closing
  the dialog unmounts it, which empties the store.
\<close>

interpretation text_rows: memo "\<lambda>content. content" copy_rows
  by unfold_locales simp

record clipboard =
  cb_store :: string
  cb_loaded :: bool
  cb_contents :: "string list"

definition clipboard_initial :: clipboard where
  "clipboard_initial = \<lparr>cb_store = '''', cb_loaded = False, cb_contents = []\<rparr>"

definition clipboard_render :: "clipboard \<Rightarrow> clipboard" where
  \<comment> \<open>Layout's rendering\<close>
  "clipboard_render s =
     s\<lparr>cb_contents := (if copy_dialog (cb_store s) \<noteq> None \<and> cb_loaded s then cb_contents s @ [cb_store s] else [])\<rparr>"

datatype clipboard_action =
    Copy_text string bool  \<comment> \<open>whether the clipboard takes the text\<close>
  | Dialog_loaded
  | Close_dialog

fun clipboard_step :: "clipboard_action \<Rightarrow> clipboard \<Rightarrow> clipboard" where
  "clipboard_step (Copy_text x written) s = clipboard_render (s\<lparr>cb_store := copyContent (copyToClipboard written x (cb_store s))\<rparr>)"
| "clipboard_step Dialog_loaded s = clipboard_render (s\<lparr>cb_loaded := True\<rparr>)"
| "clipboard_step Close_dialog s = (if cb_contents s = [] then s else clipboard_render (s\<lparr>cb_store := '''', cb_contents := []\<rparr>))"

definition CopyToClipboard :: "clipboard \<Rightarrow> (string \<times> nat) option" where
  \<comment> \<open>the text in the dialog and the number of its rows, a memo on the content\<close>
  "CopyToClipboard s = (if cb_contents s = [] then None
     else Some (last (cb_contents s), the (memo_value (\<lambda>content. content) copy_rows (cb_contents s))))"

definition clipboard_ok :: "clipboard \<Rightarrow> bool" where
  "clipboard_ok s \<longleftrightarrow> (if cb_store s \<noteq> '''' \<and> cb_loaded s then cb_contents s \<noteq> [] \<and> last (cb_contents s) = cb_store s
     else cb_contents s = [])"

lemma clipboard_ok_step [keeps]: "clipboard_ok s \<Longrightarrow> clipboard_ok (clipboard_step a s)"
  by (cases a) (auto simp: clipboard_ok_def clipboard_render_def copy_dialog_def)

lemma clipboard_ok_run: "clipboard_ok s \<Longrightarrow> clipboard_ok (fold clipboard_step as s)"
  by (induction as arbitrary: s) (simp_all add: clipboard_ok_step)

text \<open>
  Every text that could not be copied is shown until the dialog is closed, with a row for each of its lines,
  and the same text can be copied again afterwards.
\<close>

lemma dialog_shows_store:
  "CopyToClipboard (fold clipboard_step as clipboard_initial) =
     (case fold clipboard_step as clipboard_initial of s \<Rightarrow>
        if cb_loaded s \<and> cb_store s \<noteq> '''' then Some (cb_store s, Suc (count_list (cb_store s) nl_char)) else None)"
proof -
  have "clipboard_ok (fold clipboard_step as clipboard_initial)"
    by (rule clipboard_ok_run) (simp add: clipboard_ok_def clipboard_initial_def)
  then show ?thesis
    by (auto simp: clipboard_ok_def CopyToClipboard_def text_rows.current copy_rows_count split: if_splits)
qed

lemma uncopied_text_is_shown:
  assumes "cb_loaded (fold clipboard_step as clipboard_initial)" and "x \<noteq> ''''"
  shows "CopyToClipboard (fold clipboard_step (as @ [Copy_text x False]) clipboard_initial) = Some (x, Suc (count_list x nl_char))"
    and "CopyToClipboard (fold clipboard_step (as @ [Copy_text x False, Close_dialog]) clipboard_initial) = None"
  using assms unfolding dialog_shows_store
  by (auto simp: clipboard_render_def copyToClipboard_def copy_dialog_def)

subsection \<open>The command palette\<close>

text \<open>
  The palette is rendered again only when it is opened or closed (memo), with the systems of that moment;
  its effect takes out the key listener of the rendering before and adds one that knows whether it is open.
\<close>

record palette =
  pl_open :: bool
  pl_listeners :: "bool list"
  pl_systems :: "system_record list"  \<comment> \<open>$systems\<close>
  pl_shown :: "system_record list"

datatype palette_action =
    Key_down string bool bool
  | Set_open bool
  | Choose_entry string
  | Systems_are "system_record list"

definition palette_render :: "bool \<Rightarrow> palette \<Rightarrow> palette" where
  \<comment> \<open>setOpen, then the rendering and its effect, if that changes anything\<close>
  "palette_render b s = (if b = pl_open s then s
     else s\<lparr>pl_open := b, pl_shown := pl_systems s, pl_listeners := remove1 (pl_open s) (pl_listeners s) @ [b]\<rparr>)"

definition key_listeners :: "string \<Rightarrow> bool \<Rightarrow> bool \<Rightarrow> palette \<Rightarrow> bool" where
  \<comment> \<open>each listener sets the state from the one it knows\<close>
  "key_listeners key metaKey ctrlKey s =
     fold (\<lambda>known b. if key = ''k'' \<and> (metaKey \<or> ctrlKey) then \<not> known else b) (pl_listeners s) (pl_open s)"

fun palette_step :: "palette_action \<Rightarrow> palette \<Rightarrow> palette" where
  "palette_step (Key_down key metaKey ctrlKey) s = palette_render (key_listeners key metaKey ctrlKey s) s"
| "palette_step (Set_open b) s = palette_render b s"
| "palette_step (Choose_entry path) s = palette_render (snd (palette_go path)) s"
| "palette_step (Systems_are xs) s = s\<lparr>pl_systems := xs\<rparr>"

definition palette_initial :: "system_record list \<Rightarrow> palette" where
  "palette_initial xs = \<lparr>pl_open = False, pl_listeners = [False], pl_systems = xs, pl_shown = xs\<rparr>"

definition CommandPalette :: "(string \<Rightarrow> string) \<Rightarrow> string \<Rightarrow> palette \<Rightarrow> (string \<times> (string \<times> string \<times> string) list) list" where
  \<comment> \<open>the two groups, each entry with its text, its shortcut and its path; nothing when closed\<close>
  "CommandPalette encode basePath s = (if \<not> pl_open s then []
     else [(''Systems'', palette_systems encode basePath (pl_shown s)),
           (''Pages'', map (\<lambda>(name, path). (name, '''', path)) (palette_pages basePath))])"

fun opens :: "palette_action list \<Rightarrow> bool \<Rightarrow> system_record list \<Rightarrow> system_record list \<Rightarrow> bool \<times> system_record list" where
  \<comment> \<open>what the actions mean: whether it is open, and the systems known when that last changed\<close>
  "opens [] b known shown = (b, shown)"
| "opens (Systems_are xs # as) b known shown = opens as b xs shown"
| "opens (a # as) b known shown =
     (let b' = (case a of Key_down key m c \<Rightarrow> palette_key key m c b | Set_open x \<Rightarrow> x | _ \<Rightarrow> False)
      in opens as b' known (if b' = b then shown else known))"

text \<open>
  One listener is there at any time, so each press of the keys opens the closed palette and closes the open
  one; and the palette lists the systems that were known when it was opened, not those that came since.
\<close>
lemma palette_means:
  "case fold palette_step as (palette_initial xs) of s \<Rightarrow>
     pl_listeners s = [pl_open s] \<and> (pl_open s, pl_shown s) = opens as False xs xs"
proof -
  have "pl_listeners s = [pl_open s] \<Longrightarrow>
      pl_listeners (fold palette_step as s) = [pl_open (fold palette_step as s)]
      \<and> (pl_open (fold palette_step as s), pl_shown (fold palette_step as s)) = opens as (pl_open s) (pl_systems s) (pl_shown s)" for s
  proof (induction as arbitrary: s)
    case (Cons a as)
    have "pl_listeners (palette_step a s) = [pl_open (palette_step a s)]" using Cons.prems
      by (cases a) (auto simp: palette_render_def key_listeners_def)
    note ih = Cons.IH [OF this]
    show ?case
      by (cases a)
        (use ih Cons.prems in \<open>auto simp: palette_render_def key_listeners_def palette_key_def palette_go_def Let_def split: if_splits\<close>)
  qed simp
  from this [of "palette_initial xs"] show ?thesis by (simp add: palette_initial_def)
qed

lemma new_systems_wait:
  "pl_open s \<Longrightarrow> CommandPalette encode base (palette_step (Systems_are xs) s) = CommandPalette encode base s"
  by (simp add: CommandPalette_def)

lemma opening_shows_current:
  "\<not> pl_open s \<Longrightarrow> CommandPalette encode base (palette_step (Set_open True) s)
     = [(''Systems'', palette_systems encode base (pl_systems s)), (''Pages'', map (\<lambda>(n, p). (n, '''', p)) (palette_pages base))]"
  by (simp add: CommandPalette_def palette_render_def)

subsection \<open>Display settings and the chart period: stores.ts\<close>

record chart_stores =
  kt_display :: display_settings  \<comment> \<open>$displaySettings\<close>
  kt_period :: chart_time  \<comment> \<open>$chartTime\<close>
  kt_maxValues :: bool
  kt_containerFilter :: string

definition stores_initial :: chart_stores where
  "stores_initial = \<lparr>kt_display = \<lparr>ds_chartTime = T1h, ds_unitNet = Some Bytes, ds_unitDisk = None, ds_colorWarn = None,
     ds_colorCrit = None, ds_hourFormat = None\<rparr>, kt_period = T1h, kt_maxValues = False, kt_containerFilter = ''''\<rparr>"

definition set_default_period :: "chart_time \<Rightarrow> chart_stores \<Rightarrow> chart_stores" where
  \<comment> \<open>setKey of chartTime, which calls listenKeys' listener when the value is another\<close>
  "set_default_period t s = (if t = ds_chartTime (kt_display s) then s
     else s\<lparr>kt_display := (kt_display s)\<lparr>ds_chartTime := t\<rparr>, kt_period := t\<rparr>)"

definition leave_system :: "bool \<Rightarrow> chart_stores \<Rightarrow> chart_stores" where
  \<comment> \<open>the clean-up of a system's page: the period goes back unless it is to persist\<close>
  "leave_system persist s =
     s\<lparr>kt_period := (if persist then kt_period s else ds_chartTime (kt_display s)), kt_containerFilter := ''''\<rparr>"

text \<open>Whatever period is chosen on a page, leaving the page goes back to the default, and choosing a new default applies it.\<close>

lemma period_goes_back:
  "kt_period (leave_system False (s\<lparr>kt_period := t\<rparr>)) = ds_chartTime (kt_display s)"
  "t \<noteq> ds_chartTime (kt_display s) \<Longrightarrow> kt_period (leave_system False (set_default_period t s)) = t"
  by (simp_all add: leave_system_def set_default_period_def)

end
