(* ===== verification/Widgets.thy ===== *)
theory Widgets
  imports Chart_View Ui_State
begin

section \<open>Smaller components: legend and container of a chart, filter bar, average or maximum, tag input\<close>

text \<open>
  What these components render and how their controls act on the states modelled elsewhere: the legend
  and the id of a chart's container (ui/chart.tsx), the filter bar and the choice of average or maximum
  of a chart card (system/chart-card.tsx) and the tag input (ui/input-tags.tsx).
\<close>

subsection \<open>The legend and the container of a chart\<close>

record legend_view =
  lg_below :: bool  \<comment> \<open>the space is above the legend instead of below it\<close>
  lg_items :: "(string option \<times> string option) list"  \<comment> \<open>text, which is also the key, and colour\<close>

definition ChartLegendContent :: "string option \<Rightarrow> bool option \<Rightarrow> (string option \<times> string option) list \<Rightarrow> legend_view option" where
  \<comment> \<open>verticalAlign and reverse with their defaults; the payload's values and colours\<close>
  "ChartLegendContent verticalAlign reverse payload =
     map_option (\<lambda>items. \<lparr>lg_below = orelse verticalAlign ''bottom'' \<noteq> ''top'', lg_items = items\<rparr>)
       (legend_items (orelse reverse False) payload)"

lemma legend_lists_payload:
  "ChartLegendContent v r payload = Some l \<Longrightarrow> mset (lg_items l) = mset payload"
  "ChartLegendContent v r payload = None \<longleftrightarrow> payload = []"
  by (auto simp: ChartLegendContent_def legend_items_def split: if_splits)

definition chartId :: "string option \<Rightarrow> string \<Rightarrow> string" where
  \<comment> \<open>the id given, or React's, whose colons are not allowed in a selector\<close>
  "chartId given uniqueId = ''chart-'' @ (if str_truthy given then the given else filter (\<lambda>c. c \<noteq> CHR '':'') uniqueId)"

lemma chartId_selectable: "CHR '':'' \<notin> set (chartId None uniqueId)"
  by (simp add: chartId_def)

subsection \<open>The filter bar\<close>

record filter_view =
  fi_value :: string
  fi_clear :: bool

definition FilterBar :: "filter_bar \<Rightarrow> filter_view" where
  "FilterBar b = \<lparr>fi_value = inputValue b, fi_clear = (inputValue b \<noteq> '''')\<rparr>"

text \<open>What is typed is shown at once; clicking the button clears input and store at once, and the button goes.\<close>

lemma filter_bar_shows_typed: "fi_value (FilterBar (fb_event now (Typed v) b)) = v"
  by (simp add: FilterBar_def set_input_def filter_effect_def)

lemma filter_bar_clears:
  "fi_clear (FilterBar (fb_event now Cleared b)) = False \<and> storeValue (fb_event now Cleared b) = ''''"
  by (simp add: FilterBar_def set_input_def filter_effect_def store_changed_def Let_def)

subsection \<open>Average or maximum\<close>

record max_select =
  mx_value :: string
  mx_chartMax :: bool  \<comment> \<open>the icon\<close>
  mx_items :: "(string \<times> string) list"

definition SelectAvgMax :: "bool \<Rightarrow> max_select" where
  "SelectAvgMax mx = \<lparr>mx_value = avg_max_value mx, mx_chartMax = mx, mx_items = [(''avg'', ''Average''), (''max'', ''Max 1 min'')]\<rparr>"

text \<open>Each item, once selected, is the one shown.\<close>

lemma selected_item_is_shown:
  "(v, l) \<in> set (mx_items (SelectAvgMax mx)) \<Longrightarrow> mx_value (SelectAvgMax (avg_max_select v)) = v"
  by (auto simp: SelectAvgMax_def avg_max_select_def avg_max_value_def)

subsection \<open>The tag input\<close>

record tags_view =
  tv_badges :: "(string \<times> tag_event) list"  \<comment> \<open>the tag, which is also the key, and what its button does\<close>
  tv_input :: string

definition InputTags :: "tag_input \<Rightarrow> tags_view" where
  "InputTags s = \<lparr>tv_badges = map (\<lambda>i. (i, Remove_tag i)) (ti_tags s), tv_input = ti_pending s\<rparr>"

text \<open>Badges have distinct keys, and the button of a badge takes away this badge and no other.\<close>

lemma badge_button:
  assumes "(i, e) \<in> set (tv_badges (InputTags s))"
  shows "map fst (tv_badges (InputTags (tag_step e s))) = filter (\<lambda>j. j \<noteq> i) (map fst (tv_badges (InputTags s)))"
  using assms by (auto simp: InputTags_def tags_remove_def comp_def)

lemma badge_keys_distinct:
  assumes "distinct (ti_tags s)"
  shows "distinct (map fst (tv_badges (InputTags (fold tag_step es s))))"
proof -
  have "distinct (ti_tags (fold tag_step es s))" using assms
    by (induction es arbitrary: s) (simp_all add: tag_step_distinct del: tag_step.simps)
  then show ?thesis by (simp add: InputTags_def comp_def)
qed

end
