(* ===== verification/Ui_Kit.thy ===== *)
theory Ui_Kit
  imports Js_Prelude
begin

section \<open>The components of components/ui: what they render\<close>

text \<open>
  The components of components/ui wrap an element or a radix component: they add attributes, merge the given
  class name into their own, pass on the other properties and put fixed elements around the
  children. A node is what is rendered; class names are kept as the argument of cn (clsx and
  tailwind-merge), with the component's own text abbreviated to Own. Each file is a table of its
  wrappers, and functions for its composed components. The lemmas show which properties reach the
  element, where a given class name or attribute wins, and what the dialogs contain.
\<close>

subsection \<open>Nodes, properties and the spread of properties\<close>

datatype class_entry = Own | Extra string | Given string | Variant string string

datatype attr_value = Str string | Num int | Flag bool | Callback nat | Cls "class_entry list"

datatype node = Txt string | Node (node_tag: string) (node_attrs: "(string \<times> attr_value) list") (node_kids: "node list")

type_synonym attrs = "(string \<times> attr_value) list"

record props =
  p_className :: "string option"
  p_attrs :: attrs  \<comment> \<open>the other properties\<close>
  p_children :: "node list"

definition no_props :: props where
  "no_props = \<lparr>p_className = None, p_attrs = [], p_children = []\<rparr>"

definition spread :: "attrs \<Rightarrow> attrs \<Rightarrow> attrs" where
  \<comment> \<open>the attributes old, with those written after them\<close>
  "spread new old = fold (\<lambda>(k, v). AList.update k v) new old"

lemma map_of_spread: "map_of (spread new old) k = (case map_of (rev new) k of Some v \<Rightarrow> Some v | None \<Rightarrow> map_of old k)"
proof (induction new arbitrary: old)
  case (Cons a new)
  then show ?case by (cases a) (auto simp: spread_def update_conv' map_of_append map_add_def split: option.splits)
qed (simp add: spread_def)

lemma map_of_rev_distinct: "distinct (map fst m) \<Longrightarrow> map_of (rev m) = map_of m"
  by (rule map_of_inject_set [THEN iffD2]) (simp_all add: rev_map [symmetric])

subsection \<open>Wrappers\<close>

record variant =
  v_name :: string
  v_default :: "string option"
  v_values :: "string list"  \<comment> \<open>the values that have a class\<close>
  v_consumed :: bool  \<comment> \<open>not passed on\<close>

datatype class_rule =
    Merged "class_entry list" "variant list"  \<comment> \<open>cn of the own class and others, those of the variants and the given one\<close>
  | Given_first  \<comment> \<open>cn with the given class before the own\<close>
  | Replaced  \<comment> \<open>an own class, which the properties written after it replace\<close>
  | Passed_on  \<comment> \<open>no own class\<close>

datatype kids_rule = Passed | Fixed "node list" | Around "node list" "node list"

record wrapper =
  w_tag :: string
  w_before :: attrs
  w_class :: class_rule
  w_after :: attrs
  w_kids :: kids_rule

definition plain :: "string \<Rightarrow> wrapper" where
  \<comment> \<open>the element with a merged class\<close>
  "plain tag = \<lparr>w_tag = tag, w_before = [], w_class = Merged [] [], w_after = [], w_kids = Passed\<rparr>"

definition renamed :: "string \<Rightarrow> wrapper" where
  \<comment> \<open>another component under a new name\<close>
  "renamed tag = \<lparr>w_tag = tag, w_before = [], w_class = Passed_on, w_after = [], w_kids = Passed\<rparr>"

definition slot :: "string \<Rightarrow> string \<Rightarrow> wrapper" where
  "slot tag name = (plain tag)\<lparr>w_before := [(''data-slot'', Str name)]\<rparr>"

definition slot_renamed :: "string \<Rightarrow> string \<Rightarrow> wrapper" where
  "slot_renamed tag name = (renamed tag)\<lparr>w_before := [(''data-slot'', Str name)]\<rparr>"

definition variant_value :: "variant \<Rightarrow> props \<Rightarrow> string option" where
  \<comment> \<open>the value given, or the default; false and other values have no class\<close>
  "variant_value v p = (case map_of (p_attrs p) (v_name v) of
       Some (Str x) \<Rightarrow> Some x
     | Some (Flag b) \<Rightarrow> if b then Some ''true'' else None
     | Some other \<Rightarrow> None
     | None \<Rightarrow> v_default v)"

definition given_class :: "props \<Rightarrow> class_entry list" where
  "given_class p = (case p_className p of Some c \<Rightarrow> [Given c] | None \<Rightarrow> [])"

definition variant_classes :: "variant list \<Rightarrow> props \<Rightarrow> class_entry list" where
  "variant_classes vs p =
     concat (map (\<lambda>v. case variant_value v p of Some x \<Rightarrow> if x \<in> set (v_values v) then [Variant (v_name v) x] else [] | None \<Rightarrow> []) vs)"

definition own_attrs :: "wrapper \<Rightarrow> props \<Rightarrow> attrs" where
  "own_attrs w p = w_before w @ (case w_class w of
       Merged bs vs \<Rightarrow> [(''className'', Cls (Own # bs @ variant_classes vs p @ given_class p))]
     | Given_first \<Rightarrow> [(''className'', Cls (given_class p @ [Own]))]
     | Replaced \<Rightarrow> [(''className'', Cls [Own])]
     | Passed_on \<Rightarrow> [])"

definition consumed :: "wrapper \<Rightarrow> string list" where
  "consumed w = (case w_class w of Merged bs vs \<Rightarrow> map v_name (filter v_consumed vs) | _ \<Rightarrow> [])"

definition passed_attrs :: "wrapper \<Rightarrow> props \<Rightarrow> attrs" where
  "passed_attrs w p = filter (\<lambda>(k, v). k \<notin> set (consumed w)) (p_attrs p)
     @ (if w_class w \<in> {Replaced, Passed_on} \<and> p_className p \<noteq> None then [(''className'', Cls (given_class p))] else [])"

definition render_kids :: "kids_rule \<Rightarrow> node list \<Rightarrow> node list" where
  "render_kids r ns = (case r of Passed \<Rightarrow> ns | Fixed ms \<Rightarrow> ms | Around as bs \<Rightarrow> as @ ns @ bs)"

definition render :: "wrapper \<Rightarrow> props \<Rightarrow> node" where
  "render w p = Node (w_tag w) (spread (w_after w) (spread (passed_attrs w p) (own_attrs w p)))
     (render_kids (w_kids w) (p_children p))"

definition node_attr :: "node \<Rightarrow> string \<Rightarrow> attr_value option" where
  "node_attr n k = map_of (node_attrs n) k"

definition props_ok :: "props \<Rightarrow> bool" where
  \<comment> \<open>an object has each key once; the class name and the children are apart\<close>
  "props_ok p \<longleftrightarrow> distinct (map fst (p_attrs p)) \<and> ''className'' \<notin> fst ` set (p_attrs p)"

lemma map_of_filter_consumed:
  "map_of (filter (\<lambda>(k, v). k \<notin> set cs) m) k = (if k \<in> set cs then None else map_of m k)"
  by (induction m) auto

lemma map_of_passed:
  assumes "props_ok p" and "k \<noteq> ''className''"
  shows "map_of (rev (passed_attrs w p)) k = (if k \<in> set (consumed w) then None else map_of (p_attrs p) k)"
proof -
  have "distinct (map fst (filter (\<lambda>(k, v). k \<notin> set (consumed w)) (p_attrs p)))"
    using assms(1) by (simp add: props_ok_def distinct_map_filter)
  note rev = map_of_rev_distinct [OF this]
  show ?thesis using assms(2)
    by (auto simp: passed_attrs_def rev map_of_filter_consumed map_add_def split: option.splits)
qed

text \<open>
  A property given to a wrapper reaches the element, unless the wrapper uses it itself or writes its own after
  it; otherwise the element has the wrapper's own.
\<close>
lemma given_attr_reaches:
  assumes "props_ok p" and "k \<noteq> ''className''" and "k \<notin> fst ` set (w_after w)" and "k \<notin> set (consumed w)"
  shows "node_attr (render w p) k = (case map_of (p_attrs p) k of Some v \<Rightarrow> Some v | None \<Rightarrow> map_of (w_before w) k)"
proof -
  have a: "map_of (rev (w_after w)) k = None" using assms(3) by (simp add: map_of_eq_None_iff)
  have "map_of (own_attrs w p) k = map_of (w_before w) k"
    using assms(2) by (auto simp: own_attrs_def map_add_def split: class_rule.splits option.splits)
  then show ?thesis using map_of_passed [OF assms(1,2), of w] a assms(4)
    by (simp add: node_attr_def render_def map_of_spread split: option.splits)
qed

lemma class_in_merged:
  assumes "props_ok p" and "w_class w = Merged bs vs" and "''className'' \<notin> fst ` set (w_before w @ w_after w)"
  shows "node_attr (render w p) ''className'' = Some (Cls (Own # bs @ variant_classes vs p @ given_class p))"
proof -
  have a: "map_of (rev (w_after w)) ''className'' = None" "map_of (w_before w) ''className'' = None"
    using assms(3) by (auto simp: map_of_eq_None_iff)
  have "map_of (rev (passed_attrs w p)) ''className'' = None"
    using assms(1,2) by (auto simp: map_of_eq_None_iff passed_attrs_def props_ok_def)
  then show ?thesis using a assms(2)
    by (simp add: node_attr_def render_def map_of_spread own_attrs_def map_add_def)
qed

text \<open>
  The interface of a styled component: given a class name, the element still has the component's own
  class. Then what is given can only add to the look, or override it where tailwind-merge says so.
\<close>

locale styled =
  fixes component :: "props \<Rightarrow> node"
  assumes keeps_own_class: "props_ok p \<Longrightarrow> \<exists>cs. node_attr (component p) ''className'' = Some (Cls (Own # cs)) \<and> set (given_class p) \<subseteq> set cs"
begin

lemma class_survives: "props_ok p \<Longrightarrow> node_attr (component p) ''className'' \<noteq> Some (Cls [Given c])"
  using keeps_own_class [of p] by auto

lemma given_class_arrives:
  "props_ok p \<Longrightarrow> p_className p = Some c \<Longrightarrow> \<exists>cs. node_attr (component p) ''className'' = Some (Cls cs) \<and> Own \<in> set cs \<and> Given c \<in> set cs"
  using keeps_own_class [of p] by (auto simp: given_class_def)

end

lemma merged_is_styled:
  assumes "w_class w = Merged bs vs" and "''className'' \<notin> fst ` set (w_before w @ w_after w)"
  shows "styled (render w)"
  by (unfold_locales, rule exI [of _ "bs @ variant_classes vs p @ given_class p" for p]) (auto simp: class_in_merged [OF _ assms])

end
