(* ===== verification/Ui_Components.thy ===== *)
theory Ui_Components
  imports Ui_Kit
begin

section \<open>The components of components/ui, file by file\<close>

text \<open>
  The tables of wrappers and the composed components of each file of components/ui, with spinner.tsx and
  logo.tsx. The lemmas check the whole kit: which wrappers merge a given class name, what reaches
  the element, which dialogs can be closed by a button, and that every icon keeps its view box.
\<close>

subsection \<open>Buttons, badges and texts\<close>

definition own_class :: attrs where
  "own_class = [(''className'', Cls [Own])]"

definition leaf :: "string \<Rightarrow> node" where
  \<comment> \<open>an element with a class of its own and no children\<close>
  "leaf tag = Node tag own_class []"

definition cva :: "string \<Rightarrow> string \<Rightarrow> string list \<Rightarrow> variant" where
  \<comment> \<open>a variant of class-variance-authority, which is not passed on\<close>
  "cva name initial values = \<lparr>v_name = name, v_default = Some initial, v_values = values, v_consumed = True\<rparr>"

definition buttonVariants :: "variant list" where
  "buttonVariants = [cva ''variant'' ''default'' [''default'', ''destructive'', ''outline'', ''secondary'', ''ghost'', ''link''],
     cva ''size'' ''default'' [''default'', ''sm'', ''lg'', ''icon'']]"

definition Button :: "bool \<Rightarrow> props \<Rightarrow> node" where
  \<comment> \<open>with asChild the child is rendered instead of a button\<close>
  "Button asChild = render ((plain (if asChild then ''Slot'' else ''button''))\<lparr>w_class := Merged [] buttonVariants\<rparr>)"

definition badgeVariants :: "variant list" where
  "badgeVariants = [cva ''variant'' ''default'' [''default'', ''secondary'', ''destructive'', ''outline'', ''success'', ''danger'', ''warning'']]"

definition Badge :: wrapper where
  "Badge = (plain ''div'')\<lparr>w_class := Merged [] badgeVariants\<rparr>"

definition Label_wrapper :: wrapper where
  "Label_wrapper = plain ''LabelPrimitive.Root''"

definition Spinner :: "string option \<Rightarrow> string option \<Rightarrow> node" where
  \<comment> \<open>a message instead of the icon; here the given class comes before the own\<close>
  "Spinner msg given = Node ''div'' [(''className'', Cls ((case given of Some c \<Rightarrow> [Given c] | None \<Rightarrow> []) @ [Own]))]
     [if str_truthy msg then Node ''p'' own_class [Txt (the msg)] else leaf ''LoaderCircleIcon'']"

definition Logo :: "string option \<Rightarrow> node" where
  "Logo given = Node ''svg'' ([(''viewBox'', Str ''0 0 130 28''), (''role'', Str ''img''), (''aria-label'', Str ''Picket'')]
       @ (case given of Some c \<Rightarrow> [(''className'', Cls [Given c])] | None \<Rightarrow> []))
     [Node ''path'' [(''fill'', Str ''currentColor'')] [], Node ''text'' [(''fill'', Str ''currentColor'')] [Txt ''Picket'']]"

subsection \<open>Dialogs and sheets\<close>

definition dialog_wrappers :: "(string \<times> wrapper) list" where
  "dialog_wrappers =
     [(''Dialog'', renamed ''DialogPrimitive.Root''), (''DialogTrigger'', renamed ''DialogPrimitive.Trigger''),
      (''DialogPortal'', renamed ''DialogPrimitive.Portal''), (''DialogClose'', renamed ''DialogPrimitive.Close''),
      (''DialogOverlay'', plain ''DialogPrimitive.Overlay''), (''DialogHeader'', plain ''div''), (''DialogFooter'', plain ''div''),
      (''DialogTitle'', plain ''DialogPrimitive.Title''), (''DialogDescription'', plain ''DialogPrimitive.Description'')]"

definition close_button :: "string \<Rightarrow> string \<Rightarrow> node" where
  "close_button tag icon = Node tag own_class [leaf icon, Node ''span'' own_class [Txt ''Close'']]"

definition DialogContent :: "props \<Rightarrow> node" where
  "DialogContent p = Node ''DialogPrimitive.Portal'' []
     [render (plain ''DialogPrimitive.Overlay'') no_props,
      render ((plain ''DialogPrimitive.Content'')\<lparr>w_kids := Around [] [close_button ''DialogPrimitive.Close'' ''X'']\<rparr>) p]"

definition sheet_wrappers :: "(string \<times> wrapper) list" where
  "sheet_wrappers =
     [(''Sheet'', slot_renamed ''SheetPrimitive.Root'' ''sheet''), (''SheetTrigger'', slot_renamed ''SheetPrimitive.Trigger'' ''sheet-trigger''),
      (''SheetClose'', slot_renamed ''SheetPrimitive.Close'' ''sheet-close''), (''SheetPortal'', slot_renamed ''SheetPrimitive.Portal'' ''sheet-portal''),
      (''SheetOverlay'', slot ''SheetPrimitive.Overlay'' ''sheet-overlay''), (''SheetHeader'', slot ''div'' ''sheet-header''),
      (''SheetFooter'', slot ''div'' ''sheet-footer''), (''SheetTitle'', slot ''SheetPrimitive.Title'' ''sheet-title''),
      (''SheetDescription'', slot ''SheetPrimitive.Description'' ''sheet-description'')]"

definition SheetContent :: "props \<Rightarrow> node" where
  "SheetContent p = render (slot_renamed ''SheetPrimitive.Portal'' ''sheet-portal'') \<lparr>p_className = None, p_attrs = [], p_children =
     [render (slot ''SheetPrimitive.Overlay'' ''sheet-overlay'') no_props,
      render ((slot ''SheetPrimitive.Content'' ''sheet-content'')
        \<lparr>w_class := Merged [] [cva ''side'' ''right'' [''top'', ''right'', ''bottom'', ''left'']],
         w_kids := Around [] [close_button ''SheetPrimitive.Close'' ''XIcon'']\<rparr>) p]\<rparr>"

definition alert_dialog_wrappers :: "(string \<times> wrapper) list" where
  "alert_dialog_wrappers =
     [(''AlertDialog'', renamed ''AlertDialogPrimitive.Root''), (''AlertDialogTrigger'', renamed ''AlertDialogPrimitive.Trigger''),
      (''AlertDialogPortal'', renamed ''AlertDialogPrimitive.Portal''), (''AlertDialogOverlay'', plain ''AlertDialogPrimitive.Overlay''),
      (''AlertDialogHeader'', plain ''div''), (''AlertDialogFooter'', plain ''div''), (''AlertDialogTitle'', plain ''AlertDialogPrimitive.Title''),
      (''AlertDialogDescription'', plain ''AlertDialogPrimitive.Description''),
      (''AlertDialogAction'', (plain ''AlertDialogPrimitive.Action'')
        \<lparr>w_class := Merged [Variant ''variant'' ''default'', Variant ''size'' ''default''] []\<rparr>),
      (''AlertDialogCancel'', (plain ''AlertDialogPrimitive.Cancel'')
        \<lparr>w_class := Merged [Variant ''variant'' ''outline'', Variant ''size'' ''default'', Extra ''mt-2 sm:mt-0''] []\<rparr>)]"

definition AlertDialogContent_ui :: "props \<Rightarrow> node" where
  "AlertDialogContent_ui p = Node ''AlertDialogPrimitive.Portal'' []
     [render (plain ''AlertDialogPrimitive.Overlay'') no_props, render (plain ''AlertDialogPrimitive.Content'') p]"

subsection \<open>Menus, selections and the command list\<close>

definition inset :: variant where
  "inset = \<lparr>v_name = ''inset'', v_default = None, v_values = [''true''], v_consumed = True\<rparr>"

definition item_indicator :: "string \<Rightarrow> string \<Rightarrow> node" where
  "item_indicator tag icon = Node ''span'' own_class [Node tag [] [leaf icon]]"

definition dropdown_wrappers :: "(string \<times> wrapper) list" where
  "dropdown_wrappers =
     [(''DropdownMenu'', renamed ''DropdownMenuPrimitive.Root''), (''DropdownMenuTrigger'', renamed ''DropdownMenuPrimitive.Trigger''),
      (''DropdownMenuGroup'', renamed ''DropdownMenuPrimitive.Group''), (''DropdownMenuPortal'', renamed ''DropdownMenuPrimitive.Portal''),
      (''DropdownMenuSub'', renamed ''DropdownMenuPrimitive.Sub''), (''DropdownMenuRadioGroup'', renamed ''DropdownMenuPrimitive.RadioGroup''),
      (''DropdownMenuSubTrigger'', (plain ''DropdownMenuPrimitive.SubTrigger'')
        \<lparr>w_class := Merged [] [inset], w_kids := Around [] [leaf ''ChevronRight'']\<rparr>),
      (''DropdownMenuSubContent'', plain ''DropdownMenuPrimitive.SubContent''),
      (''DropdownMenuItem'', (plain ''DropdownMenuPrimitive.Item'')\<lparr>w_class := Merged [] [inset]\<rparr>),
      (''DropdownMenuCheckboxItem'', (plain ''DropdownMenuPrimitive.CheckboxItem'')
        \<lparr>w_kids := Around [item_indicator ''DropdownMenuPrimitive.ItemIndicator'' ''Check''] []\<rparr>),
      (''DropdownMenuRadioItem'', (plain ''DropdownMenuPrimitive.RadioItem'')
        \<lparr>w_kids := Around [item_indicator ''DropdownMenuPrimitive.ItemIndicator'' ''Circle''] []\<rparr>),
      (''DropdownMenuLabel'', (plain ''DropdownMenuPrimitive.Label'')\<lparr>w_class := Merged [] [inset]\<rparr>),
      (''DropdownMenuSeparator'', plain ''DropdownMenuPrimitive.Separator''), (''DropdownMenuShortcut'', plain ''span'')]"

definition DropdownMenuContent :: "props \<Rightarrow> node" where
  "DropdownMenuContent p = Node ''DropdownMenuPrimitive.Portal'' []
     [render ((plain ''DropdownMenuPrimitive.Content'')\<lparr>w_before := [(''sideOffset'', Num 4)]\<rparr>) p]"

definition select_wrappers :: "(string \<times> wrapper) list" where
  "select_wrappers =
     [(''Select'', renamed ''SelectPrimitive.Root''), (''SelectGroup'', renamed ''SelectPrimitive.Group''),
      (''SelectValue'', renamed ''SelectPrimitive.Value''),
      (''SelectTrigger'', (plain ''SelectPrimitive.Trigger'')
        \<lparr>w_kids := Around [] [Node ''SelectPrimitive.Icon'' [(''asChild'', Flag True)] [leaf ''ChevronDown'']]\<rparr>),
      (''SelectScrollUpButton'', (plain ''SelectPrimitive.ScrollUpButton'')\<lparr>w_kids := Fixed [leaf ''ChevronUp'']\<rparr>),
      (''SelectScrollDownButton'', (plain ''SelectPrimitive.ScrollDownButton'')\<lparr>w_kids := Fixed [leaf ''ChevronDown'']\<rparr>),
      (''SelectLabel'', plain ''SelectPrimitive.Label''), (''SelectSeparator'', plain ''SelectPrimitive.Separator'')]"

definition select_position :: variant where
  \<comment> \<open>passed on as well; only the value popper has classes\<close>
  "select_position = \<lparr>v_name = ''position'', v_default = Some ''popper'', v_values = [''popper''], v_consumed = False\<rparr>"

definition select_part :: "string \<Rightarrow> node" where
  "select_part name = render (the (map_of select_wrappers name)) no_props"

definition SelectContent :: "props \<Rightarrow> node" where
  "SelectContent p = Node ''SelectPrimitive.Portal'' []
     [render ((plain ''SelectPrimitive.Content'')\<lparr>w_before := [(''position'', Str ''popper'')], w_class := Merged [] [select_position]\<rparr>)
       (p\<lparr>p_children := [select_part ''SelectScrollUpButton'',
          Node ''SelectPrimitive.Viewport'' [(''className'', Cls (Own # variant_classes [select_position] p))] (p_children p),
          select_part ''SelectScrollDownButton'']\<rparr>)]"

definition SelectItem :: "props \<Rightarrow> node" where
  "SelectItem p = render (plain ''SelectPrimitive.Item'')
     (p\<lparr>p_children := [item_indicator ''SelectPrimitive.ItemIndicator'' ''Check'', Node ''SelectPrimitive.ItemText'' [] (p_children p)]\<rparr>)"

definition command_wrappers :: "(string \<times> wrapper) list" where
  \<comment> \<open>CommandEmpty does not take its class name apart: a given one replaces its own\<close>
  "command_wrappers =
     [(''Command'', slot ''CommandPrimitive'' ''command''), (''CommandList'', slot ''CommandPrimitive.List'' ''command-list''),
      (''CommandEmpty'', (slot ''CommandPrimitive.Empty'' ''command-empty'')\<lparr>w_class := Replaced\<rparr>),
      (''CommandGroup'', slot ''CommandPrimitive.Group'' ''command-group''),
      (''CommandSeparator'', slot ''CommandPrimitive.Separator'' ''command-separator''),
      (''CommandItem'', slot ''CommandPrimitive.Item'' ''command-item''), (''CommandShortcut'', slot ''span'' ''command-shortcut'')]"

definition CommandInput :: "props \<Rightarrow> node" where
  "CommandInput p = Node ''div'' [(''data-slot'', Str ''command-input-wrapper''), (''className'', Cls [Own])]
     [leaf ''SearchIcon'', render (slot ''CommandPrimitive.Input'' ''command-input'') p]"

definition command_dialog_class :: string where
  "command_dialog_class =
     ''[&_[cmdk-group-heading]]:text-muted-foreground **:data-[slot=command-input-wrapper]:h-12'' @
     '' [&_[cmdk-group-heading]]:px-2 [&_[cmdk-group-heading]]:font-medium [&_[cmdk-group]]:px-2'' @
     '' [&_[cmdk-group]:not([hidden])_~[cmdk-group]]:pt-0 [&_[cmdk-input-wrapper]_svg]:h-5'' @
     '' [&_[cmdk-input-wrapper]_svg]:w-5 [&_[cmdk-input]]:h-12 [&_[cmdk-item]]:px-2 [&_[cmdk-item]]:py-3'' @
     '' [&_[cmdk-item]_svg]:h-5 [&_[cmdk-item]_svg]:w-5''"

definition command_header :: "string option \<Rightarrow> string option \<Rightarrow> node" where
  "command_header title description = render (plain ''div'') \<lparr>p_className = Some ''sr-only'', p_attrs = [], p_children =
     [render (plain ''DialogPrimitive.Title'') (no_props\<lparr>p_children := [Txt (orelse title ''Command Palette'')]\<rparr>),
      render (plain ''DialogPrimitive.Description'')
        (no_props\<lparr>p_children := [Txt (orelse description ''Search for a command to run...'')]\<rparr>)]\<rparr>"

definition command_content :: "props \<Rightarrow> props" where
  "command_content p =
     \<lparr>p_className = Some (''overflow-hidden p-0'' @ (case p_className p of Some c \<Rightarrow> '' '' @ c | None \<Rightarrow> '''')), p_attrs = [],
      p_children = [render (slot ''CommandPrimitive'' ''command'')
        \<lparr>p_className = Some command_dialog_class, p_attrs = [], p_children = p_children p\<rparr>]\<rparr>"

definition CommandDialog :: "string option \<Rightarrow> string option \<Rightarrow> bool option \<Rightarrow> props \<Rightarrow> node" where
  \<comment> \<open>title, description and showCloseButton with their defaults; the header is beside the content\<close>
  "CommandDialog title description showCloseButton p = render (renamed ''DialogPrimitive.Root'')
     (p\<lparr>p_className := None, p_children := [command_header title description, DialogContent (command_content p)]\<rparr>)"

subsection \<open>Tabs, tooltips, toasts, tables, cards and alerts\<close>

definition tabs_wrappers :: "(string \<times> wrapper) list" where
  "tabs_wrappers = [(''Tabs'', renamed ''TabsPrimitive.Root''), (''TabsList'', plain ''TabsPrimitive.List''),
     (''TabsTrigger'', plain ''TabsPrimitive.Trigger''), (''TabsContent'', plain ''TabsPrimitive.Content'')]"

definition tooltip_wrappers :: "(string \<times> wrapper) list" where
  "tooltip_wrappers =
     [(''TooltipProvider'', (renamed ''TooltipPrimitive.Provider'')
        \<lparr>w_before := [(''data-slot'', Str ''tooltip-provider''), (''delayDuration'', Num 50)]\<rparr>),
      (''TooltipTrigger'', slot_renamed ''TooltipPrimitive.Trigger'' ''tooltip-trigger'')]"

definition Tooltip :: "props \<Rightarrow> node" where
  \<comment> \<open>each has a provider of its own, so what is given does not change the delay of the provider\<close>
  "Tooltip p = render (the (map_of tooltip_wrappers ''TooltipProvider''))
     (no_props\<lparr>p_children := [render (slot_renamed ''TooltipPrimitive.Root'' ''tooltip'') p]\<rparr>)"

definition TooltipContent :: "props \<Rightarrow> node" where
  "TooltipContent p = Node ''TooltipPrimitive.Portal'' []
     [render ((plain ''TooltipPrimitive.Content'')\<lparr>w_before := [(''data-slot'', Str ''tooltip-content''), (''sideOffset'', Num 0)],
        w_kids := Around [] [leaf ''TooltipPrimitive.Arrow'']\<rparr>) p]"

definition toast_wrappers :: "(string \<times> wrapper) list" where
  "toast_wrappers =
     [(''ToastProvider'', renamed ''ToastPrimitives.Provider''), (''ToastViewport'', plain ''ToastPrimitives.Viewport''),
      (''Toast'', (plain ''ToastPrimitives.Root'')\<lparr>w_class := Merged [] [cva ''variant'' ''default'' [''default'', ''destructive'']]\<rparr>),
      (''ToastAction'', plain ''ToastPrimitives.Action''),
      (''ToastClose'', (plain ''ToastPrimitives.Close'')\<lparr>w_before := [(''toast-close'', Str '''')], w_kids := Fixed [leaf ''X'']\<rparr>),
      (''ToastTitle'', plain ''ToastPrimitives.Title''), (''ToastDescription'', plain ''ToastPrimitives.Description'')]"

definition table_wrappers :: "(string \<times> wrapper) list" where
  "table_wrappers = [(''TableHeader'', plain ''thead''), (''TableBody'', plain ''tbody''), (''TableFooter'', plain ''tfoot''),
     (''TableRow'', plain ''tr''), (''TableHead'', plain ''th''), (''TableCell'', plain ''td''), (''TableCaption'', plain ''caption'')]"

definition Table :: "props \<Rightarrow> node" where
  \<comment> \<open>what is given goes to the table, not to the element that scrolls\<close>
  "Table p = Node ''div'' own_class [render (plain ''table'') p]"

definition card_wrappers :: "(string \<times> wrapper) list" where
  "card_wrappers = [(''Card'', plain ''div''), (''CardHeader'', plain ''div''), (''CardTitle'', plain ''h3''),
     (''CardDescription'', plain ''p''), (''CardContent'', plain ''div''), (''CardFooter'', plain ''div'')]"

definition alert_wrappers :: "(string \<times> wrapper) list" where
  "alert_wrappers = [(''Alert'', (plain ''div'')\<lparr>w_before := [(''role'', Str ''alert'')]\<rparr>), (''AlertTitle'', plain ''h5''),
     (''AlertDescription'', plain ''div'')]"

subsection \<open>Form controls\<close>

definition Checkbox :: wrapper where
  "Checkbox = (plain ''CheckboxPrimitive.Root'')
     \<lparr>w_kids := Fixed [Node ''CheckboxPrimitive.Indicator'' own_class [leaf ''Check'']]\<rparr>"

definition Switch :: wrapper where
  "Switch = (plain ''SwitchPrimitives.Root'')\<lparr>w_kids := Fixed [leaf ''SwitchPrimitives.Thumb'']\<rparr>"

definition Slider :: wrapper where
  "Slider = (plain ''SliderPrimitive.Root'')
     \<lparr>w_kids := Fixed [Node ''SliderPrimitive.Track'' own_class [leaf ''SliderPrimitive.Range''], leaf ''SliderPrimitive.Thumb'']\<rparr>"

definition Input :: wrapper where
  "Input = slot ''input'' ''input''"

definition Textarea :: wrapper where
  "Textarea = plain ''textarea''"

definition Separator :: wrapper where
  "Separator = (plain ''SeparatorPrimitive.Root'')
     \<lparr>w_before := [(''decorative'', Flag True), (''orientation'', Str ''horizontal'')],
      w_class := Merged [] [\<lparr>v_name = ''orientation'', v_default = Some ''horizontal'', v_values = [''horizontal'', ''vertical''], v_consumed = False\<rparr>]\<rparr>"

definition InputCopy :: "string \<Rightarrow> string option \<Rightarrow> string option \<Rightarrow> nat \<Rightarrow> node" where
  \<comment> \<open>value, id and name, and the callback that copies the value\<close>
  "InputCopy value given_id name copy = Node ''div'' own_class
     [render Input (no_props\<lparr>p_attrs := (''readOnly'', Flag True)
         # (case given_id of Some i \<Rightarrow> [(''id'', Str i)] | None \<Rightarrow> []) @ (case name of Some n \<Rightarrow> [(''name'', Str n)] | None \<Rightarrow> [])
         @ [(''value'', Str value), (''required'', Flag True)]\<rparr>),
      leaf ''div'',
      Tooltip (no_props\<lparr>p_attrs := [(''disableHoverableContent'', Flag True)], p_children :=
        [render (the (map_of tooltip_wrappers ''TooltipTrigger'')) (no_props\<lparr>p_attrs := [(''asChild'', Flag True)], p_children :=
           [Button False \<lparr>p_className = Some ''absolute end-0 top-0'',
              p_attrs = [(''type'', Str ''button''), (''variant'', Str ''link''), (''onClick'', Callback copy)], p_children = [leaf ''CopyIcon'']\<rparr>]\<rparr>),
         TooltipContent (no_props\<lparr>p_children := [Node ''p'' [] [Txt ''Click to copy'']]\<rparr>)]\<rparr>)]"

definition InputOTP :: "string option \<Rightarrow> props \<Rightarrow> node" where
  \<comment> \<open>with the class of the container\<close>
  "InputOTP container = render ((plain ''OTPInput'')\<lparr>w_before := [(''data-slot'', Str ''input-otp''),
     (''containerClassName'', Cls (Own # (case container of Some c \<Rightarrow> [Given c] | None \<Rightarrow> [])))]\<rparr>)"

definition otp_wrappers :: "(string \<times> wrapper) list" where
  "otp_wrappers = [(''InputOTPGroup'', slot ''div'' ''input-otp-group''),
     (''InputOTPSeparator'', (renamed ''span'')\<lparr>w_before := [(''data-slot'', Str ''input-otp-separator''), (''aria-hidden'', Str ''true'')],
        w_kids := Fixed [Node ''MinusIcon'' [] []]\<rparr>)]"

definition InputOTPSlot :: "(string option \<times> bool \<times> bool) list option \<Rightarrow> nat \<Rightarrow> props \<Rightarrow> node" where
  \<comment> \<open>the slots of the context: character, caret, active; the empty object for a slot that is not there\<close>
  "InputOTPSlot slots index p =
     (let (char, hasFakeCaret, isActive) = (case slots of
            Some ss \<Rightarrow> (case at_idx ss index of Some (c, f, a) \<Rightarrow> (c, f, Some a) | None \<Rightarrow> (None, False, None))
          | None \<Rightarrow> (None, False, None))
      in render ((plain ''div'')\<lparr>w_before := (''data-slot'', Str ''input-otp-slot'')
             # (case isActive of Some a \<Rightarrow> [(''data-active'', Flag a)] | None \<Rightarrow> []),
           w_kids := Fixed ((case char of Some c \<Rightarrow> [Txt c] | None \<Rightarrow> [])
             @ (if hasFakeCaret then [Node ''div'' own_class [leaf ''div'']] else []))\<rparr>) p)"

record collapsible =
  cl_title :: string
  cl_description :: "node option"
  cl_icon :: "node list"
  cl_children :: "node list"

definition Collapsible :: "bool \<Rightarrow> string option \<Rightarrow> nat \<Rightarrow> collapsible \<Rightarrow> node" where
  \<comment> \<open>with isOpen, the given class and the callback of the button\<close>
  "Collapsible isOpen given toggle c = Node ''div'' [(''className'', Cls (Own # (case given of Some x \<Rightarrow> [Given x] | None \<Rightarrow> [])))]
     (Button False \<lparr>p_className = Some ''w-full justify-between p-4 font-semibold'', p_attrs = [(''variant'', Str ''ghost''), (''onClick'', Callback toggle)],
        p_children = [Node ''div'' own_class (cl_icon c @ [Txt (cl_title c)]),
          Node ''ChevronDownIcon'' [(''className'', Cls (Own # (if isOpen then [Extra ''rotate-180''] else [])))] []]\<rparr>
      # (case cl_description c of Some d \<Rightarrow> [Node ''div'' own_class [d]] | None \<Rightarrow> [])
      @ (if isOpen then [Node ''div'' own_class [Node ''div'' own_class (cl_children c)]] else []))"

subsection \<open>Icons\<close>

text \<open>The attributes written before and after the given ones; of the children only the titles, not the shapes.\<close>

definition icon_of :: "attrs \<Rightarrow> attrs \<Rightarrow> node list \<Rightarrow> wrapper" where
  "icon_of before after kids = (renamed ''svg'')\<lparr>w_before := before, w_after := after, w_kids := Fixed kids\<rparr>"

definition hidden :: "string \<times> attr_value" where
  "hidden = (''aria-hidden'', Str ''true'')"

definition view_box :: "string \<Rightarrow> string \<times> attr_value" where
  "view_box b = (''viewBox'', Str b)"

definition fill_current :: "string \<times> attr_value" where
  "fill_current = (''fill'', Str ''currentColor'')"

definition line_icon :: attrs where
  "line_icon = [hidden, (''fill'', Str ''none''), view_box ''0 0 48 48'', (''stroke'', Str ''currentColor'')]"

definition titled :: "string \<Rightarrow> node list" where
  "titled x = [Node ''title'' [] [Txt x]]"

definition icons :: "(string \<times> wrapper) list" where
  "icons =
     [(''TuxIcon'', icon_of [view_box ''0 0 256 256''] [] (titled ''Linux'')),
      (''WindowsIcon'', icon_of [] [view_box ''0 0 48 48''] (titled ''Windows'')),
      (''AppleIcon'', icon_of [view_box ''0 0 20 20''] [] (titled ''Apple'')),
      (''FreeBsdIcon'', icon_of [hidden, view_box ''0 0 24 24''] [] []),
      (''DockerIcon'', icon_of [hidden] [view_box ''0 0 512 512'', fill_current] []),
      (''Rows'', icon_of [hidden, view_box ''0 0 24 24''] [] []),
      (''ChartAverage'', icon_of line_icon [] []),
      (''ChartMax'', icon_of line_icon [] []),
      (''EthernetIcon'', icon_of [hidden, (''fill'', Str ''none''), (''stroke'', Str ''currentColor''), (''strokeLinecap'', Str ''round''),
          (''strokeWidth'', Str ''2''), view_box ''0 0 24 24''] [] []),
      (''ThermometerIcon'', icon_of [hidden, view_box ''0 0 256 256''] [fill_current] []),
      (''GpuIcon'', icon_of [hidden, view_box ''0 0 24 24'']
          [(''stroke'', Str ''currentColor''), (''fill'', Str ''none''), (''strokeWidth'', Str ''2'')] []),
      (''HourglassIcon'', icon_of [hidden, view_box ''0 0 24 24''] [fill_current] []),
      (''WebSocketIcon'', icon_of [view_box ''0 0 256 193''] [fill_current] (titled ''WebSocket'')),
      (''BatteryMediumIcon'', icon_of [hidden, view_box ''0 0 24 24''] [fill_current] []),
      (''BatteryLowIcon'', icon_of [hidden, view_box ''0 0 24 24''] [fill_current] []),
      (''BatteryHighIcon'', icon_of [hidden, view_box ''0 0 24 24''] [fill_current] []),
      (''BatteryFullIcon'', icon_of [hidden, view_box ''0 0 24 24''] [fill_current] []),
      (''PlugChargingIcon'', icon_of [hidden, view_box ''0 0 256 256''] [fill_current] []),
      (''SquareArrowRightEnterIcon'', icon_of [hidden, view_box ''0 0 24 24'', (''fill'', Str ''none''), (''stroke'', Str ''currentColor''),
          (''strokeWidth'', Str ''2''), (''strokeLinecap'', Str ''round'')] [] [])]"

subsection \<open>The kit as a whole\<close>

definition ui_wrappers :: "(string \<times> wrapper) list" where
  "ui_wrappers = dialog_wrappers @ sheet_wrappers @ alert_dialog_wrappers @ dropdown_wrappers @ select_wrappers @ command_wrappers
     @ tabs_wrappers @ tooltip_wrappers @ toast_wrappers @ table_wrappers @ card_wrappers @ alert_wrappers @ otp_wrappers
     @ [(''Badge'', Badge), (''Label'', Label_wrapper), (''Checkbox'', Checkbox), (''Switch'', Switch), (''Slider'', Slider),
        (''Input'', Input), (''Textarea'', Textarea), (''Separator'', Separator)]"

definition merges :: "wrapper \<Rightarrow> bool" where
  "merges w \<longleftrightarrow> (case w_class w of Merged bs vs \<Rightarrow> True | _ \<Rightarrow> False)"

definition writes_after :: "wrapper \<Rightarrow> bool" where
  "writes_after w \<longleftrightarrow> w_after w \<noteq> [] \<or> ''className'' \<in> fst ` set (w_before w)"

lemma kit_names_distinct: "distinct (map fst ui_wrappers)"
  by code_simp

lemma kit_writes_nothing_after: "list_all (\<lambda>(n, w). \<not> writes_after w) ui_wrappers"
  by code_simp

lemma kit_styled: "(n, w) \<in> set ui_wrappers \<Longrightarrow> merges w \<Longrightarrow> styled (render w)"
  using kit_writes_nothing_after merged_is_styled [of w]
  by (fastforce simp: merges_def writes_after_def list_all_iff split: class_rule.splits)

text \<open>
  The kit passes on what it is given: a property given to any of its wrappers reaches the element, except
  the variants inset and variant, which become classes; and a given class name is added to the own
  one by every wrapper that has an own one, except CommandEmpty, which replaces it.
\<close>
theorem kit_passes_properties:
  assumes "(n, w) \<in> set ui_wrappers" and "props_ok p" and "k \<noteq> ''className''" and "k \<notin> {''inset'', ''variant''}"
  shows "node_attr (render w p) k = (case map_of (p_attrs p) k of Some v \<Rightarrow> Some v | None \<Rightarrow> map_of (w_before w) k)
    \<and> (merges w \<or> w_class w = Passed_on \<or> n = ''CommandEmpty'')
    \<and> (merges w \<longrightarrow> (\<exists>cs. node_attr (render w p) ''className'' = Some (Cls (Own # cs)) \<and> set (given_class p) \<subseteq> set cs))"
proof -
  have "list_all (\<lambda>(n, w). set (consumed w) \<subseteq> {''inset'', ''variant''}) ui_wrappers" by code_simp
  then have c: "k \<notin> set (consumed w)" using assms(1,4) by (auto simp: list_all_iff)
  have "w_after w = []" using kit_writes_nothing_after assms(1) by (auto simp: list_all_iff writes_after_def)
  then have "node_attr (render w p) k = (case map_of (p_attrs p) k of Some v \<Rightarrow> Some v | None \<Rightarrow> map_of (w_before w) k)"
    using given_attr_reaches [OF assms(2,3)] c by simp
  moreover have "list_all (\<lambda>(n, w). merges w \<or> w_class w = Passed_on \<or> n = ''CommandEmpty'') ui_wrappers" by code_simp
  then have "merges w \<or> w_class w = Passed_on \<or> n = ''CommandEmpty''" using assms(1) by (auto simp: list_all_iff)
  moreover have "merges w \<longrightarrow> (\<exists>cs. node_attr (render w p) ''className'' = Some (Cls (Own # cs)) \<and> set (given_class p) \<subseteq> set cs)"
    using styled.keeps_own_class [OF kit_styled [OF assms(1)] assms(2)] by blast
  ultimately show ?thesis by blast
qed

theorem kit_passes_properties_witness:
  "node_attr (render ((plain ''DropdownMenuPrimitive.Item'')\<lparr>w_class := Merged [] [inset]\<rparr>)
     \<lparr>p_className = Some ''text-destructive'', p_attrs = [(''onSelect'', Callback 1)], p_children = []\<rparr>) ''onSelect'' = Some (Callback 1)"
proof -
  let ?w = "(plain ''DropdownMenuPrimitive.Item'')\<lparr>w_class := Merged [] [inset]\<rparr>"
    and ?p = "\<lparr>p_className = Some ''text-destructive'', p_attrs = [(''onSelect'', Callback 1)], p_children = []\<rparr>"
  have w: "(''DropdownMenuItem'', ?w) \<in> set ui_wrappers" by (simp add: ui_wrappers_def dropdown_wrappers_def)
  have "props_ok ?p" by (simp add: props_ok_def)
  from kit_passes_properties [OF w this, of "''onSelect''"] show ?thesis by simp
qed

subsection \<open>Composed components\<close>

interpretation button: styled "Button asChild"
  unfolding Button_def by (rule merged_is_styled) (simp_all add: plain_def)

interpretation badge: styled "render Badge"
  by (rule kit_styled [of "''Badge''"]) (simp_all add: ui_wrappers_def merges_def Badge_def plain_def)

interpretation otp_input: styled "InputOTP container"
  unfolding InputOTP_def by (rule merged_is_styled) (simp_all add: plain_def)

interpretation select_item: styled SelectItem
proof
  fix p assume "props_ok p"
  then have "props_ok (p\<lparr>p_children := ks\<rparr>)" for ks by (simp add: props_ok_def)
  moreover have "styled (render (plain ''SelectPrimitive.Item''))" by (rule merged_is_styled) (simp_all add: plain_def)
  ultimately have "\<exists>cs. node_attr (SelectItem p) ''className'' = Some (Cls (Own # cs)) \<and> set (given_class (p\<lparr>p_children := ks\<rparr>)) \<subseteq> set cs" for ks
    unfolding SelectItem_def using styled.keeps_own_class by (fastforce simp: given_class_def)
  then show "\<exists>cs. node_attr (SelectItem p) ''className'' = Some (Cls (Own # cs)) \<and> set (given_class p) \<subseteq> set cs"
    by (simp add: given_class_def)
qed

lemma button_keeps_look:
  "props_ok p \<Longrightarrow> p_className p = Some c \<Longrightarrow>
     \<exists>cs. node_attr (Button asChild p) ''className'' = Some (Cls cs) \<and> Own \<in> set cs \<and> Given c \<in> set cs"
  by (rule button.given_class_arrives)

fun subnodes :: "node \<Rightarrow> node list" where
  "subnodes (Txt x) = [Txt x]"
| "subnodes (Node t a ks) = Node t a ks # concat (map subnodes ks)"

lemma subnodes_self: "n \<in> set (subnodes n)"
  by (cases n) simp_all

lemma child_is_subnode: "c \<in> set ks \<Longrightarrow> c \<in> set (subnodes (Node t a ks))"
  using subnodes_self by auto

lemma grandchild_is_subnode: "n \<in> set (subnodes c) \<Longrightarrow> c \<in> set ks \<Longrightarrow> n \<in> set (subnodes (Node t a ks))"
  by auto

text \<open>
  A dialog and a sheet contain the children given, and after them a button that closes it; an alert dialog
  contains nothing but its children, so it is left only by one of its own actions.
\<close>

lemma dialog_contents:
  "set (p_children p) \<subseteq> set (subnodes (DialogContent p))"
  "close_button ''DialogPrimitive.Close'' ''X'' \<in> set (subnodes (DialogContent p))"
  "set (p_children p) \<subseteq> set (subnodes (SheetContent p))"
  "close_button ''SheetPrimitive.Close'' ''XIcon'' \<in> set (subnodes (SheetContent p))"
  by (auto simp: DialogContent_def SheetContent_def render_def render_kids_def slot_def slot_renamed_def renamed_def plain_def
      intro: subnodes_self)

definition node_tags :: "node \<Rightarrow> string set" where
  "node_tags n = {t. \<exists>a ks. Node t a ks \<in> set (subnodes n)}"

lemma alert_dialog_contents:
  "node_tags (AlertDialogContent_ui p) =
     {''AlertDialogPrimitive.Portal'', ''AlertDialogPrimitive.Overlay'', ''AlertDialogPrimitive.Content''} \<union> \<Union> (node_tags ` set (p_children p))"
  by (auto simp: node_tags_def AlertDialogContent_ui_def render_def render_kids_def plain_def no_props_def)

text \<open>
  The dialog of the command list never looks at showCloseButton, so it always has the button; and its title
  and description are outside the content, so they are rendered also while the dialog is closed.
\<close>

lemma command_dialog_ignores_close_button: "CommandDialog t d a p = CommandDialog t d b p"
  by (simp add: CommandDialog_def)

lemma kids_of_renamed: "node_kids (render (renamed t) p) = p_children p"
  by (simp add: render_def render_kids_def renamed_def)

lemma command_title_outside_content:
  "node_kids (CommandDialog t d b p) = [command_header t d, DialogContent (command_content p)]"
  "Txt (orelse t ''Command Palette'') \<in> set (subnodes (command_header t d))"
  by (simp add: CommandDialog_def kids_of_renamed) (simp add: command_header_def render_def render_kids_def plain_def no_props_def)

lemma otp_slot_out_of_range:
  \<comment> \<open>an index past the slots renders an empty slot like a missing context\<close>
  "length ss \<le> i \<Longrightarrow> InputOTPSlot (Some ss) i p = InputOTPSlot None i p"
  by (simp add: InputOTPSlot_def at_idx_def)

text \<open>Every icon has a view box, which of some cannot be changed; and nothing given replaces its shapes.\<close>

lemma icons_keep_view_box:
  assumes "(n, w) \<in> set icons" and "props_ok p"
  shows "node_attr (render w p) ''viewBox'' \<noteq> None \<and> w_kids w \<noteq> Passed"
proof -
  have all: "list_all (\<lambda>(n, w). w_class w = Passed_on \<and> w_kids w \<noteq> Passed \<and> ''viewBox'' \<in> set (map fst (w_before w @ w_after w))) icons" by code_simp
  then have w: "w_class w = Passed_on" "w_kids w \<noteq> Passed" "''viewBox'' \<in> set (map fst (w_before w @ w_after w))"
    using assms(1) by (auto simp: list_all_iff)
  have "map_of (w_before w) ''viewBox'' \<noteq> None \<or> map_of (rev (w_after w)) ''viewBox'' \<noteq> None"
    using w(3) by (auto simp: map_of_eq_None_iff)
  then show ?thesis using w(1,2)
    by (auto simp: node_attr_def render_def map_of_spread own_attrs_def split: option.splits)
qed

end
